(* ===== verification/Prelude.thy ===== *)
theory Prelude
  imports Main "HOL-Library.Word" "HOL-Library.AList" "HOL-Library.Multiset"
begin

text \<open>
  Vocabulary shared by every component of the Quietline frontend model.

  JavaScript strings are sequences of 16-bit code units (\<open>jstr\<close>), so that
  \<open>length\<close>, \<open>slice\<close> and indexing count what JavaScript counts; \<open>js\<close> reads an
  ASCII literal as such a sequence.  The theory holds the standard-library
  operations the source uses on strings (\<open>trim\<close>, \<open>startsWith\<close>, \<open>split\<close>,
  \<open>join\<close>, \<open>padEnd\<close>, ...), the insertion-ordered \<open>Map\<close> (an association list
  updated in place), the stable \<open>Array.prototype.sort\<close>, errors as values, and
  two interfaces used by several components: a comparator that orders by a key
  (\<open>stable_sorting\<close>) and a step function with an invariant (\<open>step_system\<close>).
\<close>

section \<open>Collections of rules\<close>

named_theorems js_lit \<open>evaluation of string literals\<close>
named_theorems jmap_simps \<open>rules for insertion-ordered maps\<close>

section \<open>Strings\<close>

type_synonym code_unit = "16 word"
type_synonym jstr = "16 word list"
type_synonym byte = "8 word"

definition js :: "string \<Rightarrow> jstr" where
  "js s = map of_char s"

lemma js_Nil [simp]: "js [] = []"
  by (simp add: js_def)

lemma js_Cons [js_lit]: "js (c # s) = of_char c # js s"
  by (simp add: js_def)

lemma js_append: "js (s @ t) = js s @ js t"
  by (simp add: js_def)

lemma length_js [simp]: "length (js s) = length s"
  by (simp add: js_def)

lemma js_eq_Nil [simp]: "js s = [] \<longleftrightarrow> s = []"
  by (simp add: js_def)

lemma js_Nil_eq: "[] = js s \<longleftrightarrow> s = []"
  by (metis js_eq_Nil)

lemma of_char_unit_eq: "(of_char c :: 16 word) = of_char d \<longleftrightarrow> c = d"
proof
  assume h: "(of_char c :: 16 word) = of_char d"
  have u: "uint (of_char e :: 16 word) = of_char e" for e :: char
  proof -
    have "(of_char e :: int) = of_char e mod 256"
      by simp
    then have b: "0 \<le> (of_char e :: int) \<and> (of_char e :: int) < 256"
      by presburger
    have "(of_char e :: 16 word) = of_int (of_char e)"
      by (simp add: of_int_of_char)
    then have "uint (of_char e :: 16 word) = of_char e mod 2 ^ 16"
      by (simp add: uint_word_of_int)
    with b show ?thesis by simp
  qed
  from h have "(of_char c :: int) = of_char d"
    by (metis u)
  then show "c = d" by simp
qed simp

lemma js_inject [simp]: "js s = js t \<longleftrightarrow> s = t"
proof
  assume "js s = js t"
  then show "s = t"
    by (induction s arbitrary: t) (case_tac [!] t, auto simp: js_def of_char_unit_eq)
qed simp

text \<open>White space as \<open>String.prototype.trim\<close> defines it: WhiteSpace and LineTerminator.\<close>

definition js_space :: "code_unit \<Rightarrow> bool" where
  "js_space c = (let n = unat c in
     (9 \<le> n \<and> n \<le> 13) \<or> n = 32 \<or> n = 160 \<or> n = 5760 \<or> (8192 \<le> n \<and> n \<le> 8202)
     \<or> n = 8232 \<or> n = 8233 \<or> n = 8239 \<or> n = 8287 \<or> n = 12288 \<or> n = 65279)"

definition js_trim :: "jstr \<Rightarrow> jstr" where
  "js_trim s = rev (dropWhile js_space (rev (dropWhile js_space s)))"

definition js_starts :: "jstr \<Rightarrow> jstr \<Rightarrow> bool" where
  "js_starts p s = (take (length p) s = p)"

definition js_slice :: "nat \<Rightarrow> nat \<Rightarrow> 'a list \<Rightarrow> 'a list" where
  "js_slice i j s = take (j - i) (drop i s)"

text \<open>\<open>slice(-n)\<close>: the last \<open>n\<close> elements, all of them when there are fewer.\<close>

definition js_last :: "nat \<Rightarrow> 'a list \<Rightarrow> 'a list" where
  "js_last n s = drop (length s - n) s"

definition js_pad_end :: "nat \<Rightarrow> code_unit \<Rightarrow> jstr \<Rightarrow> jstr" where
  "js_pad_end n c s = s @ replicate (n - length s) c"

definition js_pad_start :: "nat \<Rightarrow> code_unit \<Rightarrow> jstr \<Rightarrow> jstr" where
  "js_pad_start n c s = replicate (n - length s) c @ s"

definition js_replace :: "code_unit \<Rightarrow> code_unit \<Rightarrow> jstr \<Rightarrow> jstr" where
  "js_replace a b s = map (\<lambda>c. if c = a then b else c) s"

fun js_split :: "code_unit \<Rightarrow> jstr \<Rightarrow> jstr list" where
  "js_split d [] = [[]]"
| "js_split d (c # cs) =
     (if c = d then [] # js_split d cs
      else (case js_split d cs of [] \<Rightarrow> [[c]] | w # ws \<Rightarrow> (c # w) # ws))"

fun js_join :: "jstr \<Rightarrow> jstr list \<Rightarrow> jstr" where
  "js_join sep [] = []"
| "js_join sep [w] = w"
| "js_join sep (w # v # ws) = w @ sep @ js_join sep (v # ws)"

fun js_includes :: "jstr \<Rightarrow> jstr \<Rightarrow> bool" where
  "js_includes [] n = (n = [])"
| "js_includes (c # cs) n = (js_starts n (c # cs) \<or> js_includes cs n)"

fun digits_of :: "nat \<Rightarrow> jstr" where
  "digits_of n = (if n < 10 then [of_nat (48 + n)] else digits_of (n div 10) @ [of_nat (48 + n mod 10)])"

declare digits_of.simps [simp del]

definition js_of_int :: "int \<Rightarrow> jstr" where
  "js_of_int i = (if i < 0 then js ''-'' @ digits_of (nat (- i)) else digits_of (nat i))"

text \<open>The operators \<open>||\<close> on strings and \<open>??\<close> on optional values.\<close>

definition or_str :: "jstr \<Rightarrow> jstr \<Rightarrow> jstr" where
  "or_str a b = (if a = [] then b else a)"

fun or_opt :: "jstr option \<Rightarrow> jstr \<Rightarrow> jstr" where
  "or_opt None b = b"
| "or_opt (Some a) b = or_str a b"

fun nullish :: "'a option \<Rightarrow> 'a \<Rightarrow> 'a" where
  "nullish None d = d"
| "nullish (Some x) d = x"

fun truthy :: "jstr option \<Rightarrow> bool" where
  "truthy None = False"
| "truthy (Some s) = (s \<noteq> [])"

definition nonempty :: "jstr \<Rightarrow> jstr option" where
  "nonempty s = (if s = [] then None else Some s)"

lemma js_starts_append [simp]: "js_starts p (p @ s)"
  by (simp add: js_starts_def)

lemma js_starts_iff: "js_starts p s \<longleftrightarrow> (\<exists>t. s = p @ t)"
  by (auto simp: js_starts_def) (metis append_take_drop_id)

lemma length_js_last: "length (js_last n s) = min n (length s)"
  by (simp add: js_last_def)

lemma set_js_last: "set (js_last n s) \<subseteq> set s"
  by (simp add: js_last_def set_drop_subset)

lemma js_last_short: "length s \<le> n \<Longrightarrow> js_last n s = s"
  by (simp add: js_last_def)

lemma js_last_snoc: "0 < n \<Longrightarrow> x \<in> set (js_last n (s @ [x]))"
  by (simp add: js_last_def)

lemma length_js_pad_end: "length (js_pad_end n c s) = max n (length s)"
  by (simp add: js_pad_end_def)

lemma js_split_nonempty [simp]: "js_split d s \<noteq> []"
  by (induction s) (auto split: list.splits)

lemma js_split_no_sep: "d \<notin> set s \<Longrightarrow> js_split d s = [s]"
  by (induction s) auto

lemma js_split_append: "d \<notin> set s \<Longrightarrow> js_split d (s @ d # t) = s # js_split d t"
  by (induction s) auto

lemma js_join_split: "js_join [d] (js_split d s) = s"
proof (induction s)
  case Nil
  show ?case by simp
next
  case (Cons c cs)
  obtain w ws where w: "js_split d cs = w # ws"
    by (cases "js_split d cs") auto
  with Cons.IH show ?case
    by (cases ws) auto
qed

lemma js_split_append_all: "js_split d (s @ d # t) = js_split d s @ js_split d t"
  by (induction s) (auto split: list.splits)

lemma js_split_join: "xs \<noteq> [] \<Longrightarrow> js_split d (js_join [d] xs) = concat (map (js_split d) xs)"
  by (induction "[d]" xs rule: js_join.induct) (auto simp: js_split_append_all)

lemma js_split_sep_free: "w \<in> set (js_split d s) \<Longrightarrow> d \<notin> set w"
  by (induction s arbitrary: w) (fastforce split: list.splits if_splits)+

lemma js_trim_id:
  assumes "s \<noteq> []" "\<not> js_space (hd s)" "\<not> js_space (last s)"
  shows "js_trim s = s"
proof -
  have "dropWhile js_space s = s"
    using assms by (cases s) auto
  moreover have "dropWhile js_space (rev s) = rev s"
    using assms by (cases s rule: rev_cases) auto
  ultimately show ?thesis by (simp add: js_trim_def)
qed

lemma set_js_trim: "set (js_trim s) \<subseteq> set s"
  by (auto simp: js_trim_def dest!: set_dropWhileD)

lemma digits_of_range:
  "c \<in> set (digits_of n) \<Longrightarrow> 48 \<le> unat c \<and> unat c \<le> 57"
proof (induction n rule: digits_of.induct)
  case (1 n)
  have d: "48 \<le> unat (of_nat (48 + m) :: 16 word) \<and> unat (of_nat (48 + m) :: 16 word) \<le> 57"
    if "m < 10" for m :: nat
  proof -
    have "unat (of_nat (48 + m) :: 16 word) = 48 + m"
      using that by (simp only: unat_of_nat) simp
    with that show ?thesis by simp
  qed
  show ?case
  proof (cases "n < 10")
    case True
    with "1.prems" d[of n] show ?thesis by (subst (asm) digits_of.simps) auto
  next
    case False
    with "1.prems" have "c \<in> set (digits_of (n div 10)) \<or> c = of_nat (48 + n mod 10)"
      by (subst (asm) digits_of.simps) auto
    with "1.IH" False d[of "n mod 10"] show ?thesis by auto
  qed
qed

lemma digits_of_nonempty [simp]: "digits_of n \<noteq> []"
  by (subst digits_of.simps) simp

section \<open>Errors as values\<close>

text \<open>
  \<open>Err m\<close> is \<open>new Error(m)\<close>, \<open>AuthError m\<close> the subclass of \<open>lib/api.ts\<close>; the
  others are the errors the platform raises in the operations the source calls.
\<close>

datatype js_error =
    Err jstr
  | AuthError jstr
  | SyntaxError
  | InvalidCharacterError
  | URIError
  | TypeError
  | OperationError

type_synonym 'a result = "js_error + 'a"

definition bindR :: "'a result \<Rightarrow> ('a \<Rightarrow> 'b result) \<Rightarrow> 'b result" where
  "bindR r f = (case r of Inl e \<Rightarrow> Inl e | Inr x \<Rightarrow> f x)"

fun is_auth_error :: "js_error \<Rightarrow> bool" where
  "is_auth_error (AuthError _) = True"
| "is_auth_error _ = False"

lemma bindR_simps [simp]: "bindR (Inl e) f = Inl e" "bindR (Inr x) f = f x"
  by (simp_all add: bindR_def)

lemma bindR_eq_Inr: "bindR r f = Inr y \<longleftrightarrow> (\<exists>x. r = Inr x \<and> f x = Inr y)"
  by (cases r) auto

section \<open>Insertion-ordered maps\<close>

text \<open>
  \<open>Map.set\<close> replaces the value of a present key in place and appends an absent
  one, which is what \<^const>\<open>AList.update\<close> does; \<open>Map.get\<close> is \<^const>\<open>map_of\<close> and
  \<open>[...m.values()]\<close> lists the values in insertion order.
\<close>

type_synonym ('k, 'v) jmap = "('k \<times> 'v) list"

abbreviation jm_set :: "'k \<Rightarrow> 'v \<Rightarrow> ('k, 'v) jmap \<Rightarrow> ('k, 'v) jmap" where
  "jm_set \<equiv> AList.update"

abbreviation jm_get :: "('k, 'v) jmap \<Rightarrow> 'k \<Rightarrow> 'v option" where
  "jm_get \<equiv> map_of"

definition jm_values :: "('k, 'v) jmap \<Rightarrow> 'v list" where
  "jm_values m = map snd m"

lemma jm_get_set [jmap_simps]: "jm_get (jm_set k v m) = (jm_get m)(k \<mapsto> v)"
  by (rule update_conv')

lemma jm_set_distinct [jmap_simps]: "distinct (map fst m) \<Longrightarrow> distinct (map fst (jm_set k v m))"
  by (rule distinct_update)

lemma jm_set_keys [jmap_simps]: "fst ` set (jm_set k v m) = insert k (fst ` set m)"
  by (simp add: dom_update)

lemma jm_values_set: "set (jm_values (jm_set k v m)) \<subseteq> insert v (set (jm_values m))"
  by (induction m) (auto simp: jm_values_def)

lemma in_jm_values:
  "distinct (map fst m) \<Longrightarrow> v \<in> set (jm_values m) \<longleftrightarrow> (\<exists>k. jm_get m k = Some v)"
proof -
  assume "distinct (map fst m)"
  then have "set (jm_values m) = ran (map_of m)"
    by (simp only: jm_values_def set_map ran_distinct)
  then show ?thesis by (simp only: ran_def mem_Collect_eq)
qed

section \<open>Stable sorting\<close>

text \<open>
  \<open>Array.prototype.sort(cmp)\<close>: for a comparator that orders by a key the
  specification fixes the result, the stable sort; the model sorts by stable
  insertion.  \<open>cmp a b > 0\<close> says that \<open>a\<close> goes after \<open>b\<close>.
\<close>

fun js_insert :: "('a \<Rightarrow> 'a \<Rightarrow> int) \<Rightarrow> 'a \<Rightarrow> 'a list \<Rightarrow> 'a list" where
  "js_insert cmp x [] = [x]"
| "js_insert cmp x (y # ys) = (if cmp y x > 0 then x # y # ys else y # js_insert cmp x ys)"

definition js_sort :: "('a \<Rightarrow> 'a \<Rightarrow> int) \<Rightarrow> 'a list \<Rightarrow> 'a list" where
  "js_sort cmp xs = fold (js_insert cmp) xs []"

text \<open>\<open>Date.parse(a) - Date.parse(b)\<close>; an unparsable date is NaN, and a NaN result of a
  comparator counts as 0.\<close>

fun date_diff :: "int option \<Rightarrow> int option \<Rightarrow> int" where
  "date_diff (Some x) (Some y) = x - y"
| "date_diff _ _ = 0"

lemma mset_js_insert: "mset (js_insert cmp x ys) = add_mset x (mset ys)"
  by (induction ys) auto

lemma mset_js_sort [simp]: "mset (js_sort cmp xs) = mset xs"
proof -
  have "mset (fold (js_insert cmp) xs acc) = mset xs + mset acc" for acc
    by (induction xs arbitrary: acc) (auto simp: mset_js_insert)
  then show ?thesis by (simp add: js_sort_def)
qed

lemma set_js_sort [simp]: "set (js_sort cmp xs) = set xs"
  by (metis mset_js_sort set_mset_mset)

lemma length_js_sort [simp]: "length (js_sort cmp xs) = length xs"
  by (metis mset_js_sort size_mset)

lemma distinct_map_js_sort: "distinct (map f (js_sort cmp xs)) = distinct (map f xs)"
  by (rule mset_eq_imp_distinct_iff) simp

locale stable_sorting =
  fixes cmp :: "'a \<Rightarrow> 'a \<Rightarrow> int"
    and key :: "'a \<Rightarrow> 'k::linorder"
    and ok :: "'a \<Rightarrow> bool"
  assumes cmp_key: "ok a \<Longrightarrow> ok b \<Longrightarrow> (cmp a b > 0) = (key b < key a)"
begin

lemma insert_sorted:
  "ok x \<Longrightarrow> \<forall>y\<in>set ys. ok y \<Longrightarrow> sorted (map key ys) \<Longrightarrow> sorted (map key (js_insert cmp x ys))"
proof (induction ys)
  case (Cons y ys)
  have "set (js_insert cmp x ys) = insert x (set ys)"
    by (metis mset_js_insert set_mset_add_mset_insert set_mset_mset)
  with Cons show ?case by (auto simp: cmp_key)
qed simp

lemma insert_stable:
  "ok x \<Longrightarrow> \<forall>y\<in>set ys. ok y \<Longrightarrow> sorted (map key ys) \<Longrightarrow>
   filter (\<lambda>y. key y = k) (js_insert cmp x ys) = filter (\<lambda>y. key y = k) (ys @ [x])"
proof (induction ys)
  case (Cons y ys)
  show ?case
  proof (cases "key x < key y")
    case True
    with Cons.prems have "filter (\<lambda>z. key z = key x) (y # ys) = []"
      by (auto simp: filter_empty_conv)
    with True Cons.prems show ?thesis by (auto simp: cmp_key)
  next
    case False
    with Cons show ?thesis by (auto simp: cmp_key)
  qed
qed simp

lemma fold_sorted_stable:
  "\<forall>y\<in>set xs \<union> set acc. ok y \<Longrightarrow> sorted (map key acc) \<Longrightarrow>
   sorted (map key (fold (js_insert cmp) xs acc)) \<and>
   (\<forall>k. filter (\<lambda>y. key y = k) (fold (js_insert cmp) xs acc) = filter (\<lambda>y. key y = k) (acc @ xs))"
proof (induction xs arbitrary: acc)
  case (Cons x xs)
  have s: "set (js_insert cmp x acc) = insert x (set acc)"
    by (metis mset_js_insert set_mset_add_mset_insert set_mset_mset)
  have "sorted (map key (js_insert cmp x acc))"
    using Cons.prems by (intro insert_sorted) auto
  moreover have "filter (\<lambda>y. key y = k) (js_insert cmp x acc) = filter (\<lambda>y. key y = k) (acc @ [x])" for k
    using Cons.prems by (intro insert_stable) auto
  ultimately show ?case
    using Cons.IH[of "js_insert cmp x acc"] Cons.prems s by auto
qed simp

theorem js_sort_sorted: "\<forall>x\<in>set xs. ok x \<Longrightarrow> sorted (map key (js_sort cmp xs))"
  using fold_sorted_stable[of xs "[]"] by (simp add: js_sort_def)

theorem js_sort_is_sort_key: "\<forall>x\<in>set xs. ok x \<Longrightarrow> js_sort cmp xs = sort_key key xs"
proof -
  assume ok: "\<forall>x\<in>set xs. ok x"
  have f: "(\<lambda>x. key k = key x) = (\<lambda>x. key x = key k)" for k
    by auto
  have "filter (\<lambda>x. key k = key x) (js_sort cmp xs) = filter (\<lambda>x. key k = key x) xs" for k
    unfolding f using fold_sorted_stable[of xs "[]"] ok by (simp add: js_sort_def)
  then show ?thesis
    using js_sort_sorted[OF ok] by (intro properties_for_sort_key[symmetric]) simp_all
qed

end

section \<open>Step functions and their invariants\<close>

text \<open>
  A component that reacts to events is a step function from a state and an event
  to a state; a law kept by every step holds after every sequence of events.
\<close>

locale step_system =
  fixes step :: "'s \<Rightarrow> 'e \<Rightarrow> 's"
    and inv :: "'s \<Rightarrow> bool"
  assumes step_inv: "inv s \<Longrightarrow> inv (step s e)"
begin

theorem run_inv: "inv s \<Longrightarrow> inv (foldl step s es)"
  by (induction es arbitrary: s) (auto simp: step_inv)

theorem every_prefix_inv: "inv s \<Longrightarrow> inv (foldl step s (take n es))"
  by (rule run_inv)

end

end
