(* ===== verification/Encoding.thy ===== *)
theory Encoding
  imports Prelude
begin

text \<open>
  Bytes and text: \<open>TextEncoder\<close>, \<open>TextDecoder\<close>, \<open>btoa\<close> and \<open>atob\<close> as the
  standards define them, and the URL-safe base64 routines built on them, each
  written three times in the source (\<open>lib/crypto.ts\<close>, \<open>types/messenger.ts\<close>,
  \<open>components/layout/Sidebar.tsx\<close>).  The interface \<open>codec\<close> states the contract
  "decoding what was encoded gives it back"; its lemmas serve every encoding of
  the development, and \<open>codec_chain\<close> composes two of them.
\<close>

section \<open>The interface of an encoding\<close>

locale codec =
  fixes enc :: "'a \<Rightarrow> 'b result"
    and dec :: "'b \<Rightarrow> 'a result"
    and ok :: "'a \<Rightarrow> bool"
  assumes enc_dec: "ok x \<Longrightarrow> \<exists>y. enc x = Inr y \<and> dec y = Inr x"
begin

lemma enc_total: "ok x \<Longrightarrow> \<exists>y. enc x = Inr y"
  using enc_dec by blast

lemma dec_enc: "ok x \<Longrightarrow> enc x = Inr y \<Longrightarrow> dec y = Inr x"
  using enc_dec by fastforce

lemma enc_injective: "ok x \<Longrightarrow> ok x' \<Longrightarrow> enc x = enc x' \<Longrightarrow> x = x'"
  by (metis enc_dec sum.inject(2))

lemma bind_enc_dec: "ok x \<Longrightarrow> bindR (enc x) dec = Inr x"
  using enc_dec by fastforce

end

locale codec_chain = first: codec enc1 dec1 ok1 + second: codec enc2 dec2 ok2
  for enc1 :: "'a \<Rightarrow> 'b result" and dec1 :: "'b \<Rightarrow> 'a result" and ok1 :: "'a \<Rightarrow> bool"
    and enc2 :: "'b \<Rightarrow> 'c result" and dec2 :: "'c \<Rightarrow> 'b result" and ok2 :: "'b \<Rightarrow> bool" +
  assumes mid_ok: "ok1 x \<Longrightarrow> enc1 x = Inr y \<Longrightarrow> ok2 y"
begin

sublocale chain: codec "\<lambda>x. bindR (enc1 x) enc2" "\<lambda>z. bindR (dec2 z) dec1" ok1
proof
  fix x assume "ok1 x"
  then obtain y where y: "enc1 x = Inr y" "dec1 y = Inr x"
    using first.enc_dec by blast
  with \<open>ok1 x\<close> obtain z where "enc2 y = Inr z" "dec2 z = Inr y"
    using second.enc_dec mid_ok by blast
  with y show "\<exists>z. bindR (enc1 x) enc2 = Inr z \<and> bindR (dec2 z) dec1 = Inr x"
    by simp
qed

end

section \<open>UTF-8\<close>

definition high_surrogate :: "code_unit \<Rightarrow> bool" where
  "high_surrogate c = (55296 \<le> unat c \<and> unat c \<le> 56319)"

definition low_surrogate :: "code_unit \<Rightarrow> bool" where
  "low_surrogate c = (56320 \<le> unat c \<and> unat c \<le> 57343)"

text \<open>Scalar values of a string; a lone surrogate becomes U+FFFD.\<close>

fun scalars :: "jstr \<Rightarrow> nat list" where
  "scalars [] = []"
| "scalars [c] = [if high_surrogate c \<or> low_surrogate c then 65533 else unat c]"
| "scalars (c # d # cs) =
     (if high_surrogate c \<and> low_surrogate d
      then (65536 + (unat c - 55296) * 1024 + (unat d - 56320)) # scalars cs
      else if high_surrogate c \<or> low_surrogate c then 65533 # scalars (d # cs)
      else unat c # scalars (d # cs))"

definition utf8_bytes :: "nat \<Rightarrow> byte list" where
  "utf8_bytes n =
     (if n < 128 then [of_nat n]
      else if n < 2048 then [of_nat (192 + n div 64), of_nat (128 + n mod 64)]
      else if n < 65536 then
        [of_nat (224 + n div 4096), of_nat (128 + n div 64 mod 64), of_nat (128 + n mod 64)]
      else
        [of_nat (240 + n div 262144), of_nat (128 + n div 4096 mod 64),
         of_nat (128 + n div 64 mod 64), of_nat (128 + n mod 64)])"

definition text_encode :: "jstr \<Rightarrow> byte list" where
  "text_encode s = concat (map utf8_bytes (scalars s))"

text \<open>
  The UTF-8 decoder: \<open>need\<close> continuation bytes outstanding, the code point so
  far, and the bounds of the next continuation byte.  An unexpected byte emits
  U+FFFD and is read again at the start of a sequence.
\<close>

fun utf8_dec :: "nat \<Rightarrow> nat \<Rightarrow> nat \<Rightarrow> nat \<Rightarrow> byte list \<Rightarrow> nat list" where
  "utf8_dec need cp lo hi [] = (if need = 0 then [] else [65533])"
| "utf8_dec need cp lo hi (b # bs) =
     (if need = 0 then
        (if unat b < 128 then unat b # utf8_dec 0 0 128 191 bs
         else if 194 \<le> unat b \<and> unat b \<le> 223 then utf8_dec 1 (unat b - 192) 128 191 bs
         else if 224 \<le> unat b \<and> unat b \<le> 239 then
           utf8_dec 2 (unat b - 224) (if unat b = 224 then 160 else 128)
             (if unat b = 237 then 159 else 191) bs
         else if 240 \<le> unat b \<and> unat b \<le> 244 then
           utf8_dec 3 (unat b - 240) (if unat b = 240 then 144 else 128)
             (if unat b = 244 then 143 else 191) bs
         else 65533 # utf8_dec 0 0 128 191 bs)
      else if unat b < lo \<or> hi < unat b then 65533 # utf8_dec 0 0 128 191 (b # bs)
      else if need = 1 then (cp * 64 + (unat b - 128)) # utf8_dec 0 0 128 191 bs
      else utf8_dec (need - 1) (cp * 64 + (unat b - 128)) 128 191 bs)"

declare utf8_dec.simps(2) [simp del]

definition units_of_scalar :: "nat \<Rightarrow> jstr" where
  "units_of_scalar n =
     (if n < 65536 then [of_nat n]
      else [of_nat (55296 + (n - 65536) div 1024), of_nat (56320 + (n - 65536) mod 1024)])"

text \<open>A leading byte order mark is dropped.\<close>

definition text_decode :: "byte list \<Rightarrow> jstr" where
  "text_decode bs =
     (let ns = utf8_dec 0 0 128 191 bs
      in concat (map units_of_scalar (case ns of n # ms \<Rightarrow> if n = 65279 then ms else ns | [] \<Rightarrow> [])))"

fun well_formed :: "jstr \<Rightarrow> bool" where
  "well_formed [] = True"
| "well_formed [c] = (\<not> high_surrogate c \<and> \<not> low_surrogate c)"
| "well_formed (c # d # cs) =
     (if high_surrogate c then low_surrogate d \<and> well_formed cs
      else \<not> low_surrogate c \<and> well_formed (d # cs))"

definition scalar_ok :: "nat \<Rightarrow> bool" where
  "scalar_ok n = (n < 1114112 \<and> \<not> (55296 \<le> n \<and> n \<le> 57343))"

lemma unat_byte_of_nat: "n < 256 \<Longrightarrow> unat (of_nat n :: byte) = n"
  by (simp add: unat_of_nat)

lemma unat_unit_of_nat: "n < 65536 \<Longrightarrow> unat (of_nat n :: code_unit) = n"
  by (simp add: unat_of_nat)

lemma unat_unit_less: "unat (c :: code_unit) < 65536"
  by (rule order_less_le_trans[OF unsigned_less]) simp

lemma unat_byte_less: "unat (c :: byte) < 256"
  by (rule order_less_le_trans[OF unsigned_less]) simp

lemma split_64: "n div 4096 * 64 + n div 64 mod 64 = n div (64 :: nat)"
proof -
  have "n div 4096 = n div 64 div 64"
    by (simp add: div_mult2_eq[symmetric])
  then show ?thesis
    using div_mult_mod_eq[of "n div 64" 64] by simp
qed

lemma split_4096: "n div 262144 * 64 + n div 4096 mod 64 = n div (4096 :: nat)"
proof -
  have "n div 262144 = n div 4096 div 64"
    by (simp add: div_mult2_eq[symmetric])
  then show ?thesis
    using div_mult_mod_eq[of "n div 4096" 64] by simp
qed

lemma utf8_dec_bytes:
  assumes "scalar_ok n"
  shows "utf8_dec 0 0 128 191 (utf8_bytes n @ bs) = n # utf8_dec 0 0 128 191 bs"
proof -
  consider "n < 128" | "128 \<le> n" "n < 2048" | "2048 \<le> n" "n < 65536" | "65536 \<le> n" "n < 1114112"
    using assms unfolding scalar_ok_def by linarith
  then show ?thesis
  proof cases
    case 1
    then show ?thesis by (simp add: utf8_bytes_def utf8_dec.simps(2) unat_of_nat del: of_nat_add)
  next
    case 2
    then have "n div 64 \<le> 31" "2 \<le> n div 64" "n mod 64 < 64" "n div 64 * 64 + n mod 64 = n"
      by auto
    then show ?thesis
      using 2 by (auto simp: utf8_bytes_def utf8_dec.simps(2) unat_byte_of_nat simp del: of_nat_add)
  next
    case 3
    define a b c where abc: "a = n div 4096" "b = n div 64 mod 64" "c = n mod 64"
    have n: "(a * 64 + b) * 64 + c = n"
      unfolding abc by (simp only: split_64 div_mult_mod_eq)
    have r: "a < 16" "b < 64" "c < 64" using 3 by (auto simp: abc)
    have lo: "a \<noteq> 0 \<or> 32 \<le> b" using 3 n r by auto
    have hi: "a \<noteq> 13 \<or> b < 32" using assms 3 n r by (auto simp: scalar_ok_def)
    have e: "utf8_bytes n = [of_nat (224 + a), of_nat (128 + b), of_nat (128 + c)]"
      using 3 by (simp add: utf8_bytes_def abc del: of_nat_add)
    show ?thesis
      unfolding e using r lo hi n
      by (auto simp: utf8_dec.simps(2) unat_byte_of_nat simp del: of_nat_add)
  next
    case 4
    define z a b c where zabc:
      "z = n div 262144" "a = n div 4096 mod 64" "b = n div 64 mod 64" "c = n mod 64"
    have n: "((z * 64 + a) * 64 + b) * 64 + c = n"
      unfolding zabc by (simp only: split_4096 split_64 div_mult_mod_eq)
    have r: "z < 5" "a < 64" "b < 64" "c < 64" using 4 by (auto simp: zabc)
    have lo: "z \<noteq> 0 \<or> 16 \<le> a" using 4 n r by auto
    have hi: "z \<noteq> 4 \<or> a < 16" using 4 n r by auto
    have e: "utf8_bytes n = [of_nat (240 + z), of_nat (128 + a), of_nat (128 + b), of_nat (128 + c)]"
      using 4 by (simp add: utf8_bytes_def zabc del: of_nat_add)
    show ?thesis
      unfolding e using r lo hi n
      by (auto simp: utf8_dec.simps(2) unat_byte_of_nat simp del: of_nat_add)
  qed
qed

lemma utf8_dec_encode:
  "\<forall>n\<in>set ns. scalar_ok n \<Longrightarrow> utf8_dec 0 0 128 191 (concat (map utf8_bytes ns)) = ns"
  by (induction ns) (auto simp: utf8_dec_bytes)

lemma scalars_ok: "n \<in> set (scalars s) \<Longrightarrow> scalar_ok n"
proof (induction s rule: scalars.induct)
  case (2 c)
  then show ?case
    using unat_unit_less[of c] by (auto simp: scalar_ok_def high_surrogate_def low_surrogate_def split: if_splits)
next
  case (3 c d cs)
  show ?case
  proof (cases "high_surrogate c \<and> low_surrogate d")
    case True
    with 3 show ?thesis
      by (auto simp: scalar_ok_def high_surrogate_def low_surrogate_def)
  next
    case False
    with 3 unat_unit_less[of c] show ?thesis
      by (auto simp: scalar_ok_def high_surrogate_def low_surrogate_def split: if_splits)
  qed
qed simp

lemma units_of_unat: "units_of_scalar (unat c) = [c]"
  using unat_unit_less[of c] by (simp add: units_of_scalar_def)

lemma units_of_pair:
  assumes "high_surrogate c" "low_surrogate d"
  shows "units_of_scalar (65536 + (unat c - 55296) * 1024 + (unat d - 56320)) = [c, d]"
proof -
  let ?h = "unat c - 55296" and ?l = "unat d - 56320"
  have "?l < 1024" using assms by (auto simp: low_surrogate_def)
  then have "(?h * 1024 + ?l) div 1024 = ?h" "(?h * 1024 + ?l) mod 1024 = ?l" by auto
  moreover have "of_nat (55296 + ?h) = c" "of_nat (56320 + ?l) = d"
    using assms by (auto simp: high_surrogate_def low_surrogate_def simp del: of_nat_add)
  ultimately show ?thesis
    by (simp add: units_of_scalar_def del: of_nat_add)
qed

lemma units_of_scalars:
  "well_formed s \<Longrightarrow> concat (map units_of_scalar (scalars s)) = s"
proof (induction s rule: well_formed.induct)
  case (3 c d cs)
  show ?case
  proof (cases "high_surrogate c")
    case True
    with 3 show ?thesis by (simp add: units_of_pair)
  next
    case False
    with 3 show ?thesis by (simp add: units_of_unat)
  qed
qed (auto simp: units_of_unat)

lemma scalars_hd_bom: "s \<noteq> [] \<Longrightarrow> well_formed s \<Longrightarrow> hd (scalars s) = 65279 \<longleftrightarrow> unat (hd s) = 65279"
  by (cases s rule: scalars.cases) (auto simp: high_surrogate_def)

text \<open>Decoding the encoding of a well-formed string that does not start with a byte order mark.\<close>

theorem text_decode_encode:
  assumes "well_formed s" "s = [] \<or> unat (hd s) \<noteq> 65279"
  shows "text_decode (text_encode s) = s"
proof -
  have d: "utf8_dec 0 0 128 191 (text_encode s) = scalars s"
    using scalars_ok by (simp add: text_encode_def utf8_dec_encode)
  have "(case scalars s of n # ms \<Rightarrow> if n = 65279 then ms else scalars s | [] \<Rightarrow> []) = scalars s"
    using assms scalars_hd_bom[of s] by (cases "scalars s"; cases s) auto
  with d show ?thesis
    using assms(1) by (simp add: text_decode_def units_of_scalars Let_def)
qed

interpretation utf8: codec "\<lambda>s. Inr (text_encode s)" "\<lambda>bs. Inr (text_decode bs)"
  "\<lambda>s. well_formed s \<and> (s = [] \<or> unat (hd s) \<noteq> 65279)"
  by unfold_locales (auto simp: text_decode_encode)

section \<open>Base64\<close>

definition b64_char :: "nat \<Rightarrow> code_unit" where
  "b64_char i =
     (if i < 26 then of_nat (65 + i) else if i < 52 then of_nat (71 + i)
      else if i < 62 then of_nat (i - 4) else if i = 62 then 43 else 47)"

definition b64_index :: "code_unit \<Rightarrow> nat option" where
  "b64_index c = (let n = unat c in
     if 65 \<le> n \<and> n \<le> 90 then Some (n - 65)
     else if 97 \<le> n \<and> n \<le> 122 then Some (n - 71)
     else if 48 \<le> n \<and> n \<le> 57 then Some (n + 4)
     else if n = 43 then Some 62 else if n = 47 then Some 63 else None)"

text \<open>The sextets of a byte sequence, the last one padded with zero bits.\<close>

fun sextets :: "nat list \<Rightarrow> nat list" where
  "sextets [] = []"
| "sextets [a] = [a div 4, a mod 4 * 16]"
| "sextets [a, b] = [a div 4, a mod 4 * 16 + b div 16, b mod 16 * 4]"
| "sextets (a # b # c # r) =
     (a div 4) # (a mod 4 * 16 + b div 16) # (b mod 16 * 4 + c div 64) # (c mod 64) # sextets r"

fun unsextets :: "nat list \<Rightarrow> nat list" where
  "unsextets (a # b # c # d # r) =
     (a * 4 + b div 16) # (b mod 16 * 16 + c div 4) # (c mod 4 * 64 + d) # unsextets r"
| "unsextets [a, b, c] = [a * 4 + b div 16, b mod 16 * 16 + c div 4]"
| "unsextets [a, b] = [a * 4 + b div 16]"
| "unsextets _ = []"

definition b64_pad :: "nat \<Rightarrow> nat" where
  "b64_pad n = (3 - n mod 3) mod 3"

text \<open>\<open>btoa\<close>: a code unit above 255 raises, \<open>=\<close> (61) pads to a multiple of four.\<close>

definition btoa :: "jstr \<Rightarrow> jstr result" where
  "btoa s = (if list_ex (\<lambda>c. 255 < unat c) s then Inl InvalidCharacterError
     else Inr (map b64_char (sextets (map unat s)) @ replicate (b64_pad (length s)) 61))"

definition ascii_space :: "code_unit \<Rightarrow> bool" where
  "ascii_space c = (c = 9 \<or> c = 10 \<or> c = 12 \<or> c = 13 \<or> c = 32)"

definition strip_pad :: "jstr \<Rightarrow> jstr" where
  "strip_pad t = (if length t mod 4 = 0
     then (case rev t of
             e # f # r \<Rightarrow> if e = 61 then if f = 61 then rev r else rev (f # r) else t
           | _ \<Rightarrow> t)
     else t)"

text \<open>\<open>atob\<close>, the forgiving-base64 decoder: white space dropped, up to two trailing
  \<open>=\<close> removed from a multiple of four, leftover bits discarded.\<close>

definition atob :: "jstr \<Rightarrow> jstr result" where
  "atob s = (let t = strip_pad (filter (\<lambda>c. \<not> ascii_space c) s) in
     if length t mod 4 = 1 \<or> list_ex (\<lambda>c. b64_index c = None) t then Inl InvalidCharacterError
     else Inr (map of_nat (unsextets (map (\<lambda>c. the (b64_index c)) t))))"

section \<open>The URL-safe routines of the source\<close>

text \<open>\<open>String.fromCharCode(byte)\<close> and \<open>charCodeAt\<close> stored into a \<open>Uint8Array\<close>.\<close>

definition from_char_codes :: "byte list \<Rightarrow> jstr" where
  "from_char_codes bs = map (\<lambda>b. of_nat (unat b)) bs"

definition char_codes :: "jstr \<Rightarrow> byte list" where
  "char_codes s = map (\<lambda>c. of_nat (unat c)) s"

definition bytesToBase64URL :: "byte list \<Rightarrow> jstr result" where
  "bytesToBase64URL bytes = bindR (btoa (from_char_codes bytes))
     (\<lambda>t. Inr (filter (\<lambda>c. c \<noteq> 61) (js_replace 47 95 (js_replace 43 45 t))))"

definition base64URLToBytes :: "jstr \<Rightarrow> byte list result" where
  "base64URLToBytes value =
     (let padded = js_pad_end ((length value + 3) div 4 * 4) 61 (js_replace 95 47 (js_replace 45 43 value))
      in bindR (atob padded) (\<lambda>binary. Inr (char_codes binary)))"

definition toBase64URL :: "jstr \<Rightarrow> jstr result" where
  "toBase64URL value = bytesToBase64URL (text_encode value)"

text \<open>\<open>base64UrlEncode\<close> of \<open>types/messenger.ts\<close> removes only trailing \<open>=\<close> (\<open>/=+$/\<close>).\<close>

definition base64UrlEncode :: "jstr \<Rightarrow> jstr result" where
  "base64UrlEncode value = bindR (btoa (from_char_codes (text_encode value)))
     (\<lambda>t. Inr (rev (dropWhile (\<lambda>c. c = 61) (rev (js_replace 47 95 (js_replace 43 45 t))))))"

definition base64UrlDecode :: "jstr \<Rightarrow> jstr result" where
  "base64UrlDecode value =
     (let padded = js_pad_end ((length value + 3) div 4 * 4) 61 (js_replace 95 47 (js_replace 45 43 value))
      in bindR (atob padded) (\<lambda>binary. Inr (text_decode (char_codes binary))))"

text \<open>\<open>urlBase64ToUint8Array\<close> of \<open>Sidebar.tsx\<close> pads first and replaces after.\<close>

definition urlBase64ToUint8Array :: "jstr \<Rightarrow> byte list result" where
  "urlBase64ToUint8Array value =
     (let padding = replicate ((4 - length value mod 4) mod 4) 61;
          base64 = js_replace 95 47 (js_replace 45 43 (value @ padding))
      in bindR (atob base64) (\<lambda>raw. Inr (char_codes raw)))"

section \<open>Lemmas on base64\<close>

lemma b64_table:
  "\<forall>i\<in>set [0..<64]. b64_index (b64_char i) = Some i \<and> b64_char i \<noteq> 61 \<and> \<not> ascii_space (b64_char i)
     \<and> b64_char i \<noteq> 45 \<and> b64_char i \<noteq> 95"
  by code_simp

lemma b64_char_facts:
  assumes "i < 64"
  shows "b64_index (b64_char i) = Some i" "b64_char i \<noteq> 61" "\<not> ascii_space (b64_char i)"
    "b64_char i \<noteq> 45" "b64_char i \<noteq> 95"
  using b64_table assms by auto

lemma sextets_less: "\<forall>x\<in>set xs. x < 256 \<Longrightarrow> i \<in> set (sextets xs) \<Longrightarrow> i < 64"
proof (induction xs rule: sextets.induct)
  case (4 a b c r)
  then have "a mod 4 * 16 + b div 16 < 64" "b mod 16 * 4 + c div 64 < 64"
    by auto
  with 4 show ?case by auto
next
  case (3 a b)
  then have "a mod 4 * 16 + b div 16 < 64" "b mod 16 * 4 < 64" by auto
  with 3 show ?case by auto
next
  case (2 a)
  then have "a mod 4 * 16 < 64" by presburger
  with 2 show ?case by auto
qed simp

lemma unsextets_sextets: "\<forall>x\<in>set xs. x < 256 \<Longrightarrow> unsextets (sextets xs) = xs"
proof (induction xs rule: sextets.induct)
  case (4 a b c r)
  let ?p = "a mod 4 * 16 + b div 16" and ?q = "b mod 16 * 4 + c div 64"
  have "b div 16 < 16" "c div 64 < 4" using 4 by auto
  then have "?p div 16 = a mod 4" "?p mod 16 = b div 16" "?q div 4 = b mod 16" "?q mod 4 = c div 64"
    by auto
  moreover have "a div 4 * 4 + a mod 4 = a" "b div 16 * 16 + b mod 16 = b" "c div 64 * 64 + c mod 64 = c"
    by (rule div_mult_mod_eq)+
  ultimately show ?case using 4 by simp
next
  case (3 a b)
  let ?p = "a mod 4 * 16 + b div 16"
  have "b div 16 < 16" using 3 by auto
  then have "?p div 16 = a mod 4" "?p mod 16 = b div 16" by auto
  moreover have "a div 4 * 4 + a mod 4 = a" "b div 16 * 16 + b mod 16 = b"
    by (rule div_mult_mod_eq)+
  ultimately show ?case using 3 by simp
qed auto

lemma length_sextets: "length (sextets xs) = (length xs * 4 + 2) div 3"
  by (induction xs rule: sextets.induct) auto

text \<open>The unpadded body: alphabet characters only, a multiple of four with its padding.\<close>

definition b64_body :: "byte list \<Rightarrow> jstr" where
  "b64_body bs = map b64_char (sextets (map unat bs))"

lemma sextets_of_bytes: "i \<in> set (sextets (map unat (bs :: byte list))) \<Longrightarrow> i < 64"
  by (rule sextets_less) (auto simp: unat_byte_less)

lemma b64_body_chars:
  assumes "c \<in> set (b64_body bs)"
  shows "c \<noteq> 61" "\<not> ascii_space c" "b64_index c \<noteq> None" "c \<noteq> 45" "c \<noteq> 95"
  using assms b64_char_facts sextets_of_bytes by (auto simp: b64_body_def)

lemma btoa_bytes: "btoa (from_char_codes bs) = Inr (b64_body bs @ replicate (b64_pad (length bs)) 61)"
proof -
  have u: "unat (of_nat (unat b) :: code_unit) = unat b" for b :: byte
    using unat_byte_less[of b] by (intro unat_unit_of_nat) simp
  then have "map unat (from_char_codes bs) = map unat bs"
    by (simp add: from_char_codes_def del: of_nat_unat)
  moreover have "\<not> list_ex (\<lambda>c. 255 < unat c) (from_char_codes bs)"
    using u unat_byte_less by (auto simp: list_ex_iff from_char_codes_def not_less less_Suc_eq_le[symmetric])
  moreover have "length (from_char_codes bs) = length bs"
    by (simp add: from_char_codes_def)
  ultimately show ?thesis
    by (simp only: btoa_def b64_body_def if_False)
qed

lemma body_pad_length: "(length (b64_body bs) + b64_pad (length bs)) mod 4 = 0"
proof -
  let ?n = "length bs"
  define q r where qr: "q = ?n div 3" "r = ?n mod 3"
  have n: "?n = 3 * q + r" by (simp add: qr)
  have p: "b64_pad ?n = (3 - r) mod 3" by (simp add: b64_pad_def qr)
  have "r = 0 \<or> r = 1 \<or> r = 2" unfolding qr by presburger
  moreover have "(12 * q + 2) div 3 = 4 * q" "(12 * q + 6) div 3 = 4 * q + 2" "(12 * q + 10) div 3 = 4 * q + 3"
    by simp_all
  ultimately show ?thesis
    unfolding p unfolding b64_body_def length_map length_sextets n
    by (elim disjE) (simp_all add: algebra_simps)
qed

lemma b64_pad_le: "b64_pad n \<le> 2"
  using mod_less_divisor[of 3 "3 - n mod 3"] by (simp add: b64_pad_def)

lemma strip_pad_body:
  assumes "\<forall>c\<in>set body. c \<noteq> 61" "p \<le> 2" "(length body + p) mod 4 = 0"
  shows "strip_pad (body @ replicate p 61) = body"
proof -
  have p: "p = 0 \<or> p = 1 \<or> p = 2" using assms(2) by auto
  have "body = [] \<Longrightarrow> p = 0"
    using assms(2,3) by auto
  then show ?thesis
    using p assms(1,3)
    by (cases body rule: rev_cases; cases "butlast body" rule: rev_cases)
       (auto simp: strip_pad_def numeral_2_eq_2 split: list.splits)
qed

lemma atob_body:
  assumes "p \<le> 2" "(length (b64_body bs) + p) mod 4 = 0"
  shows "atob (b64_body bs @ replicate p 61) = Inr (from_char_codes bs)"
proof -
  let ?t = "b64_body bs"
  have f: "filter (\<lambda>c. \<not> ascii_space c) (?t @ replicate p 61) = ?t @ replicate p 61"
    using b64_body_chars(2) by (auto simp: filter_id_conv ascii_space_def)
  have s: "strip_pad (?t @ replicate p 61) = ?t"
    using assms b64_body_chars(1) by (intro strip_pad_body) auto
  have l: "length ?t mod 4 \<noteq> 1" using assms by presburger
  have i: "map (\<lambda>c. the (b64_index c)) ?t = sextets (map unat bs)"
    using sextets_of_bytes by (auto simp: b64_body_def b64_char_facts intro!: map_idI)
  have u: "unsextets (sextets (map unat bs)) = map unat bs"
    by (rule unsextets_sextets) (auto simp: unat_byte_less)
  have e: "\<not> list_ex (\<lambda>c. b64_index c = None) ?t"
    using b64_body_chars(3) by (auto simp: list_ex_iff)
  show ?thesis
    unfolding atob_def f s Let_def i u using l e by (simp add: from_char_codes_def)
qed

section \<open>What the URL-safe routines guarantee\<close>

definition url_body :: "byte list \<Rightarrow> jstr" where
  "url_body bs = js_replace 47 95 (js_replace 43 45 (b64_body bs))"

definition url_safe :: "code_unit \<Rightarrow> bool" where
  "url_safe c = (let n = unat c in (65 \<le> n \<and> n \<le> 90) \<or> (97 \<le> n \<and> n \<le> 122)
     \<or> (48 \<le> n \<and> n \<le> 57) \<or> n = 45 \<or> n = 95)"

lemma b64_index_url_safe:
  "b64_index c \<noteq> None \<Longrightarrow> url_safe (if (if c = 43 then 45 else c) = 47 then 95 else if c = 43 then 45 else c)"
  by (auto simp: b64_index_def url_safe_def Let_def word_unat_eq_iff split: if_splits)

lemma url_body_safe:
  assumes "c \<in> set (url_body bs)"
  shows "url_safe c"
proof -
  from assms obtain d where "d \<in> set (b64_body bs)"
    and "c = (if (if d = 43 then 45 else d) = 47 then 95 else if d = 43 then 45 else d)"
    unfolding url_body_def js_replace_def set_map by blast
  then show ?thesis using b64_index_url_safe b64_body_chars(3) by simp
qed

lemma url_body_no_pad: "c \<in> set (url_body bs) \<Longrightarrow> c \<noteq> 61"
  using url_body_safe by (fastforce simp: url_safe_def Let_def)

lemma length_url_body: "length (url_body bs) = (length bs * 4 + 2) div 3"
  by (simp add: url_body_def js_replace_def b64_body_def length_sextets)

lemma replaced_output:
  "js_replace 47 95 (js_replace 43 45 (b64_body bs @ replicate k 61)) = url_body bs @ replicate k 61"
  by (simp add: url_body_def js_replace_def)

lemma url_body_unreplace: "js_replace 95 47 (js_replace 45 43 (url_body bs)) = b64_body bs"
  unfolding url_body_def js_replace_def map_map
  by (rule map_idI) (use b64_body_chars(4,5) in auto)

lemma bytesToBase64URL_eq [simp]: "bytesToBase64URL bs = Inr (url_body bs)"
  using url_body_no_pad
  by (simp add: bytesToBase64URL_def btoa_bytes replaced_output filter_id_conv)

lemma char_codes_from [simp]: "char_codes (from_char_codes bs) = bs"
proof -
  have "(of_nat (unat (of_nat (unat b) :: code_unit)) :: byte) = b" for b :: byte
  proof -
    have "unat (of_nat (unat b) :: code_unit) = unat b"
      using unat_byte_less[of b] by (intro unat_unit_of_nat) simp
    then show ?thesis by simp
  qed
  then show ?thesis
    unfolding char_codes_def from_char_codes_def map_map by (intro map_idI) (simp only: o_apply)
qed

lemma length_b64_body: "length (b64_body bs) = length (url_body bs)"
  by (simp add: url_body_def js_replace_def)

lemma pad_amount:
  assumes "(n + k) mod 4 = 0" "k \<le> 3"
  shows "(n + 3) div 4 * 4 - n = (k :: nat)"
proof -
  define q where "q = (n + k) div 4"
  have "n + k = 4 * q" using assms(1) by (auto simp: q_def)
  moreover from this have "(n + 3) div 4 = q" using assms(2) by auto
  ultimately show ?thesis by simp
qed

lemma pad_four: "(n + (4 - n mod 4) mod 4) mod 4 = (0 :: nat)"
proof -
  have "n mod 4 < 4" by simp
  then have "n mod 4 = 0 \<or> n mod 4 = 1 \<or> n mod 4 = 2 \<or> n mod 4 = 3" by linarith
  then have "(n mod 4 + (4 - n mod 4) mod 4) mod 4 = 0"
    by (elim disjE) simp_all
  then show ?thesis by (simp only: mod_add_left_eq)
qed

lemma pad_count: "(length (url_body bs) + 3) div 4 * 4 - length (url_body bs) = b64_pad (length bs)"
  using body_pad_length[of bs] b64_pad_le[of "length bs"] by (intro pad_amount) (auto simp: length_b64_body)

lemma base64URLToBytes_body [simp]: "base64URLToBytes (url_body bs) = Inr bs"
  unfolding base64URLToBytes_def url_body_unreplace js_pad_end_def Let_def length_b64_body pad_count
  using body_pad_length[of bs] b64_pad_le by (simp add: atob_body)

interpretation b64url: codec bytesToBase64URL base64URLToBytes "\<lambda>_. True"
  by unfold_locales simp

text \<open>Decoding what \<open>bytesToBase64URL\<close> encodes gives the bytes back, for every
  byte sequence and without any hypothesis: the encoder never fails and the padding
  it drops is the padding the decoder restores.\<close>

theorem base64url_roundtrip: "bindR (bytesToBase64URL bytes) base64URLToBytes = Inr bytes"
  by (rule b64url.bind_enc_dec) simp

text \<open>The encoder succeeds on every input and emits exactly \<open>\<lceil>4n/3\<rceil>\<close> characters, all
  of the URL-safe alphabet: no \<open>+\<close>, \<open>/\<close> or \<open>=\<close> reaches a URL, a header or an invite.\<close>

theorem base64url_alphabet:
  "\<exists>t. bytesToBase64URL bytes = Inr t \<and> list_all url_safe t \<and> length t = (length bytes * 4 + 2) div 3"
  using url_body_safe by (auto simp: list_all_iff length_url_body)

lemma base64UrlEncode_eq: "base64UrlEncode value = toBase64URL value"
proof -
  have "rev (dropWhile (\<lambda>c. c = 61) (rev (url_body bs @ replicate k 61))) = url_body bs" for bs k
  proof -
    have "dropWhile (\<lambda>c. c = 61) (replicate k 61 @ rev (url_body bs)) = rev (url_body bs)"
      using url_body_no_pad[of _ bs]
      by (induction k) (auto simp: dropWhile_eq_self_iff hd_rev)
    then show ?thesis by simp
  qed
  then show ?thesis
    by (simp add: base64UrlEncode_def toBase64URL_def btoa_bytes replaced_output del: rev_append)
qed

lemma urlBase64ToUint8Array_eq: "urlBase64ToUint8Array key = base64URLToBytes key"
proof -
  have n: "(length key + 3) div 4 * 4 - length key = (4 - length key mod 4) mod 4"
  proof (rule pad_amount[OF pad_four])
    have "(4 - length key mod 4) mod 4 < 4" by simp
    then show "(4 - length key mod 4) mod 4 \<le> 3" by linarith
  qed
  have "js_pad_end ((length key + 3) div 4 * 4) 61 (js_replace 95 47 (js_replace 45 43 key))
      = js_replace 95 47 (js_replace 45 43 (key @ replicate ((4 - length key mod 4) mod 4) 61))"
    unfolding js_pad_end_def by (simp add: js_replace_def n)
  then show ?thesis
    by (simp add: urlBase64ToUint8Array_def base64URLToBytes_def Let_def)
qed

text \<open>The three hand-written copies agree: \<open>base64UrlEncode\<close> of the invite code is
  \<open>toBase64URL\<close> of the crypto code, and the decoder of the push code is the one of the
  crypto code on every string, valid or not.\<close>

theorem base64url_copies_agree:
  "base64UrlEncode value = toBase64URL value \<and> urlBase64ToUint8Array key = base64URLToBytes key"
  by (simp add: base64UrlEncode_eq urlBase64ToUint8Array_eq)

interpretation text64: codec_chain
  "\<lambda>s. Inr (text_encode s)" "\<lambda>bs. Inr (text_decode bs)"
  "\<lambda>s. well_formed s \<and> (s = [] \<or> unat (hd s) \<noteq> 65279)"
  bytesToBase64URL base64URLToBytes "\<lambda>_. True"
  by unfold_locales simp

lemma base64UrlDecode_eq:
  "base64UrlDecode value = bindR (base64URLToBytes value) (\<lambda>bs. Inr (text_decode bs))"
  by (auto simp: base64UrlDecode_def base64URLToBytes_def Let_def bindR_def split: sum.splits)

lemma base64Url_text_roundtrip:
  assumes "well_formed s" "s = [] \<or> unat (hd s) \<noteq> 65279"
  shows "bindR (base64UrlEncode s) base64UrlDecode = Inr s"
  using text64.chain.bind_enc_dec[of s] assms
  by (simp add: base64UrlEncode_eq base64UrlDecode_eq toBase64URL_def)

end
