(* ===== verification/Json.thy ===== *)
theory Json
  imports Encoding
begin

text \<open>
  \<open>JSON.stringify\<close> and \<open>JSON.parse\<close>, which carry every message, invite and
  stored value of the frontend.  Numbers are integers; a numeral with a fraction,
  an exponent or beyond \<open>2^53 - 1\<close> is kept as its text (\<open>JNum\<close>), so the parser is
  total over all inputs.  Objects keep the order of their members, and a repeated
  member is resolved at lookup: the last one wins.  The parser spends fuel; twice
  the length of the text is enough, and more never changes the answer.
\<close>

section \<open>Values\<close>

datatype json =
    JNull
  | JBool bool
  | JInt int
  | JNum jstr
  | JStr jstr
  | JArr "json list"
  | JObj "(jstr \<times> json) list"

definition jfield :: "jstr \<Rightarrow> (jstr \<times> json) list \<Rightarrow> json option" where
  "jfield k kvs = map_of (rev kvs) k"

section \<open>Printing\<close>

definition hexd :: "nat \<Rightarrow> code_unit" where
  "hexd n = (if n < 10 then of_nat (48 + n) else of_nat (87 + n))"

definition hex4 :: "nat \<Rightarrow> jstr" where
  "hex4 n = [hexd (n div 4096), hexd (n div 256 mod 16), hexd (n div 16 mod 16), hexd (n mod 16)]"

definition quote_unit :: "code_unit \<Rightarrow> jstr" where
  "quote_unit c =
     (if c = 8 then [92, 98] else if c = 9 then [92, 116] else if c = 10 then [92, 110]
      else if c = 12 then [92, 102] else if c = 13 then [92, 114]
      else if c = 34 then [92, 34] else if c = 92 then [92, 92]
      else if unat c < 32 \<or> high_surrogate c \<or> low_surrogate c then 92 # 117 # hex4 (unat c)
      else [c])"

fun quote_chars :: "jstr \<Rightarrow> jstr" where
  "quote_chars [] = []"
| "quote_chars [c] = quote_unit c"
| "quote_chars (c # d # cs) =
     (if high_surrogate c \<and> low_surrogate d then c # d # quote_chars cs
      else quote_unit c @ quote_chars (d # cs))"

definition quote :: "jstr \<Rightarrow> jstr" where
  "quote s = 34 # quote_chars s @ [34]"

fun stringify :: "json \<Rightarrow> jstr"
  and stringify_elems :: "json list \<Rightarrow> jstr"
  and stringify_members :: "(jstr \<times> json) list \<Rightarrow> jstr" where
  "stringify JNull = js ''null''"
| "stringify (JBool b) = (if b then js ''true'' else js ''false'')"
| "stringify (JInt i) = js_of_int i"
| "stringify (JNum l) = l"
| "stringify (JStr s) = quote s"
| "stringify (JArr vs) = 91 # stringify_elems vs @ [93]"
| "stringify (JObj kvs) = 123 # stringify_members kvs @ [125]"
| "stringify_elems [] = []"
| "stringify_elems [v] = stringify v"
| "stringify_elems (v # w # vs) = stringify v @ 44 # stringify_elems (w # vs)"
| "stringify_members [] = []"
| "stringify_members [(k, v)] = quote k @ 58 # stringify v"
| "stringify_members ((k, v) # m # ms) = quote k @ 58 # stringify v @ 44 # stringify_members (m # ms)"

section \<open>Parsing\<close>

definition json_space :: "code_unit \<Rightarrow> bool" where
  "json_space c = (c = 32 \<or> c = 9 \<or> c = 10 \<or> c = 13)"

definition skip_ws :: "jstr \<Rightarrow> jstr" where
  "skip_ws s = dropWhile json_space s"

definition hexval :: "code_unit \<Rightarrow> nat option" where
  "hexval c = (let n = unat c in
     if 48 \<le> n \<and> n \<le> 57 then Some (n - 48)
     else if 97 \<le> n \<and> n \<le> 102 then Some (n - 87)
     else if 65 \<le> n \<and> n \<le> 70 then Some (n - 55) else None)"

definition unescape :: "code_unit \<Rightarrow> code_unit option" where
  "unescape e =
     (if e = 34 then Some 34 else if e = 92 then Some 92 else if e = 47 then Some 47
      else if e = 98 then Some 8 else if e = 102 then Some 12 else if e = 110 then Some 10
      else if e = 114 then Some 13 else if e = 116 then Some 9 else None)"

definition hex_unit :: "code_unit \<Rightarrow> code_unit \<Rightarrow> code_unit \<Rightarrow> code_unit \<Rightarrow> code_unit option" where
  "hex_unit a b c d =
     (case (hexval a, hexval b, hexval c, hexval d) of
        (Some i, Some j, Some k, Some l) \<Rightarrow> Some (of_nat (((i * 16 + j) * 16 + k) * 16 + l))
      | _ \<Rightarrow> None)"

text \<open>The rest of a string literal after its opening quote.\<close>

fun parse_str :: "jstr \<Rightarrow> (jstr \<times> jstr) option" where
  "parse_str [] = None"
| "parse_str (c # cs) =
     (if c = 34 then Some ([], cs)
      else if c = 92 then
        (case cs of
           e # r \<Rightarrow>
             if e = 117 then
               (case r of
                  h1 # h2 # h3 # h4 # r' \<Rightarrow>
                    (case hex_unit h1 h2 h3 h4 of
                       Some u \<Rightarrow> map_option (\<lambda>(t, q). (u # t, q)) (parse_str r')
                     | None \<Rightarrow> None)
                | _ \<Rightarrow> None)
             else (case unescape e of
                     Some u \<Rightarrow> map_option (\<lambda>(t, q). (u # t, q)) (parse_str r)
                   | None \<Rightarrow> None)
         | [] \<Rightarrow> None)
      else if unat c < 32 then None
      else map_option (\<lambda>(t, q). (c # t, q)) (parse_str cs))"

definition is_digit :: "code_unit \<Rightarrow> bool" where
  "is_digit c = (48 \<le> unat c \<and> unat c \<le> 57)"

definition digits_value :: "jstr \<Rightarrow> nat" where
  "digits_value ds = foldl (\<lambda>n c. n * 10 + (unat c - 48)) 0 ds"

text \<open>The integer part of a numeral: a single 0 or digits without a leading 0.\<close>

definition int_part :: "jstr \<Rightarrow> jstr" where
  "int_part s = (case s of c # _ \<Rightarrow> if c = 48 then [48] else takeWhile is_digit s | [] \<Rightarrow> [])"

text \<open>An optional fraction and exponent: the text taken, or None when malformed.\<close>

definition frac_part :: "jstr \<Rightarrow> jstr option" where
  "frac_part s = (case s of
     c # r \<Rightarrow> if c = 46 then (let d = takeWhile is_digit r in if d = [] then None else Some (46 # d))
             else Some []
   | [] \<Rightarrow> Some [])"

definition exp_part :: "jstr \<Rightarrow> jstr option" where
  "exp_part s = (case s of
     c # r \<Rightarrow> if c = 101 \<or> c = 69
             then (let sg = (case r of x # _ \<Rightarrow> if x = 43 \<or> x = 45 then [x] else [] | [] \<Rightarrow> []);
                       d = takeWhile is_digit (drop (length sg) r)
                   in if d = [] then None else Some (c # sg @ d))
             else Some []
   | [] \<Rightarrow> Some [])"

definition max_safe :: nat where
  "max_safe = 9007199254740991"

definition parse_num :: "jstr \<Rightarrow> (json \<times> jstr) option" where
  "parse_num s =
     (let neg = (case s of c # _ \<Rightarrow> c = 45 | [] \<Rightarrow> False);
          s1 = (if neg then tl s else s);
          ip = int_part s1;
          s2 = drop (length ip) s1
      in if ip = [] then None
         else case frac_part s2 of
           None \<Rightarrow> None
         | Some fp \<Rightarrow>
             (case exp_part (drop (length fp) s2) of
                None \<Rightarrow> None
              | Some ep \<Rightarrow>
                  (let rest = drop (length ep) (drop (length fp) s2);
                       n = digits_value ip
                   in if fp = [] \<and> ep = [] \<and> n \<le> max_safe
                      then Some (JInt (if neg then - int n else int n), rest)
                      else Some (JNum ((if neg then [45] else []) @ ip @ fp @ ep), rest))))"

definition parse_lit :: "jstr \<Rightarrow> (json \<times> jstr) option" where
  "parse_lit s =
     (if js_starts (js ''null'') s then Some (JNull, drop 4 s)
      else if js_starts (js ''true'') s then Some (JBool True, drop 4 s)
      else if js_starts (js ''false'') s then Some (JBool False, drop 5 s)
      else parse_num s)"

fun parse_value :: "nat \<Rightarrow> jstr \<Rightarrow> (json \<times> jstr) option"
  and parse_elems :: "nat \<Rightarrow> jstr \<Rightarrow> (json list \<times> jstr) option"
  and parse_members :: "nat \<Rightarrow> jstr \<Rightarrow> ((jstr \<times> json) list \<times> jstr) option" where
  "parse_value 0 s = None"
| "parse_value (Suc f) s =
     (case skip_ws s of
        [] \<Rightarrow> None
      | c # cs \<Rightarrow>
          if c = 34 then map_option (\<lambda>(t, r). (JStr t, r)) (parse_str cs)
          else if c = 91 then
            (case skip_ws cs of
               [] \<Rightarrow> None
             | d # r \<Rightarrow> if d = 93 then Some (JArr [], r)
                       else map_option (\<lambda>(vs, q). (JArr vs, q)) (parse_elems f (d # r)))
          else if c = 123 then
            (case skip_ws cs of
               [] \<Rightarrow> None
             | d # r \<Rightarrow> if d = 125 then Some (JObj [], r)
                       else map_option (\<lambda>(ms, q). (JObj ms, q)) (parse_members f (d # r)))
          else parse_lit (c # cs))"
| "parse_elems 0 s = None"
| "parse_elems (Suc f) s =
     (case parse_value f s of
        None \<Rightarrow> None
      | Some (v, r) \<Rightarrow>
          (case skip_ws r of
             [] \<Rightarrow> None
           | c # q \<Rightarrow> if c = 93 then Some ([v], q)
                     else if c = 44 then map_option (\<lambda>(vs, z). (v # vs, z)) (parse_elems f q)
                     else None))"
| "parse_members 0 s = None"
| "parse_members (Suc f) s =
     (case skip_ws s of
        [] \<Rightarrow> None
      | c # cs \<Rightarrow>
          if c \<noteq> 34 then None
          else case parse_str cs of
            None \<Rightarrow> None
          | Some (k, r) \<Rightarrow>
              (case skip_ws r of
                 [] \<Rightarrow> None
               | d # q \<Rightarrow>
                   if d \<noteq> 58 then None
                   else case parse_value f q of
                     None \<Rightarrow> None
                   | Some (v, z) \<Rightarrow>
                       (case skip_ws z of
                          [] \<Rightarrow> None
                        | e # y \<Rightarrow> if e = 125 then Some ([(k, v)], y)
                                  else if e = 44 then
                                    map_option (\<lambda>(ms, x). ((k, v) # ms, x)) (parse_members f y)
                                  else None)))"

definition json_fuel :: "jstr \<Rightarrow> nat" where
  "json_fuel s = 2 * length s + 2"

definition json_parse :: "jstr \<Rightarrow> json result" where
  "json_parse s = (case parse_value (json_fuel s) s of
     Some (v, r) \<Rightarrow> if skip_ws r = [] then Inr v else Inl SyntaxError
   | None \<Rightarrow> Inl SyntaxError)"

section \<open>String literals survive printing and parsing\<close>

lemma hexval_hexd: "n < 16 \<Longrightarrow> hexval (hexd n) = Some n"
proof -
  have "\<forall>n\<in>set [0..<16]. hexval (hexd n) = Some n" by code_simp
  then show "n < 16 \<Longrightarrow> hexval (hexd n) = Some n" by auto
qed

lemma split_hex: "n < 65536 \<Longrightarrow>
  ((n div 4096 * 16 + n div 256 mod 16) * 16 + n div 16 mod 16) * 16 + n mod 16 = (n :: nat)"
proof -
  have a: "n div 4096 * 16 + n div 256 mod 16 = n div 256"
    using div_mult_mod_eq[of "n div 256" 16] by (simp add: div_mult2_eq[symmetric])
  have b: "n div 256 * 16 + n div 16 mod 16 = n div 16"
    using div_mult_mod_eq[of "n div 16" 16] by (simp add: div_mult2_eq[symmetric])
  show ?thesis by (simp only: a b div_mult_mod_eq)
qed

lemma hex_unit_hex4:
  assumes "hex4 (unat c) = [h1, h2, h3, h4]"
  shows "hex_unit h1 h2 h3 h4 = Some c"
proof -
  have n: "unat c < 65536" by (rule unat_unit_less)
  then have "unat c div 4096 < 16" by auto
  with assms have v: "hexval h1 = Some (unat c div 4096)" "hexval h2 = Some (unat c div 256 mod 16)"
    "hexval h3 = Some (unat c div 16 mod 16)" "hexval h4 = Some (unat c mod 16)"
    by (auto simp: hex4_def hexval_hexd)
  show ?thesis
    unfolding hex_unit_def v by (simp only: option.case prod.case split_hex[OF n]) simp
qed

lemma parse_str_quote_unit:
  "parse_str (quote_unit c @ s) = map_option (\<lambda>(t, q). (c # t, q)) (parse_str s)"
proof -
  obtain h1 h2 h3 h4 where h: "hex4 (unat c) = [h1, h2, h3, h4]"
    by (simp add: hex4_def)
  from hex_unit_hex4[OF h] show ?thesis
    by (auto simp: quote_unit_def unescape_def h)
qed

lemma surrogate_plain:
  assumes "high_surrogate c \<or> low_surrogate c"
  shows "c \<noteq> 34" "c \<noteq> 92" "\<not> unat c < 32"
  using assms by (auto simp: high_surrogate_def low_surrogate_def)

lemma parse_str_plain:
  assumes "high_surrogate c \<or> low_surrogate c"
  shows "parse_str (c # s) = map_option (\<lambda>(t, q). (c # t, q)) (parse_str s)"
  using surrogate_plain[OF assms] by simp

lemma parse_str_quote: "parse_str (quote_chars s @ 34 # r) = Some (s, r)"
proof (induction s rule: quote_chars.induct)
  case (3 c d cs)
  show ?case
  proof (cases "high_surrogate c \<and> low_surrogate d")
    case True
    then have "quote_chars (c # d # cs) = c # d # quote_chars cs" by simp
    with True 3(1) show ?thesis by (simp add: parse_str_plain del: parse_str.simps)
  next
    case False
    then have "quote_chars (c # d # cs) = quote_unit c @ quote_chars (d # cs)" by auto
    with False 3(2) show ?thesis
      by (simp add: parse_str_quote_unit del: parse_str.simps quote_chars.simps)
  qed
next
  case (2 c)
  then show ?case by (simp add: parse_str_quote_unit del: parse_str.simps(2)) simp
qed simp

declare parse_str.simps(2) [simp del]

section \<open>Numerals survive printing and parsing\<close>

definition stops :: "jstr \<Rightarrow> bool" where
  "stops r = (case r of [] \<Rightarrow> True | c # _ \<Rightarrow> c = 44 \<or> c = 93 \<or> c = 125)"

lemma digits_of_is_digit: "c \<in> set (digits_of n) \<Longrightarrow> is_digit c"
  using digits_of_range by (auto simp: is_digit_def)

lemma digits_value_snoc: "digits_value (ds @ [c]) = digits_value ds * 10 + (unat c - 48)"
  by (simp add: digits_value_def)

lemma digit_unat: "d < 10 \<Longrightarrow> unat (of_nat (48 + d) :: code_unit) = 48 + d"
  by (rule unat_unit_of_nat) simp

lemma digits_value_of: "digits_value (digits_of n) = n"
proof (induction n rule: digits_of.induct)
  case (1 n)
  show ?case
  proof (cases "n < 10")
    case True
    then have "digits_value [of_nat (48 + n)] = n"
      by (simp only: digits_value_def foldl.simps digit_unat)
    with True show ?thesis by (subst digits_of.simps) (simp del: of_nat_add)
  next
    case False
    have "digits_value (digits_of (n div 10) @ [of_nat (48 + n mod 10)]) = n"
      using "1.IH"[OF False] digit_unat[of "n mod 10"]
      by (simp add: digits_value_snoc del: of_nat_add)
    with False show ?thesis by (subst digits_of.simps) (simp del: of_nat_add)
  qed
qed

lemma digits_of_hd: "hd (digits_of n) = 48 \<longleftrightarrow> n = 0"
proof (induction n rule: digits_of.induct)
  case (1 n)
  have e: "(of_nat (48 + n) :: code_unit) = 48 \<longleftrightarrow> n = 0" if "n < 10"
    using digit_unat[OF that] by (auto simp: word_eq_iff_unsigned[where ?'a = nat] simp del: of_nat_add)
  show ?case
  proof (cases "n < 10")
    case True
    with e show ?thesis by (subst digits_of.simps) (simp del: of_nat_add)
  next
    case False
    then have "n div 10 \<noteq> 0" "n \<noteq> 0" by auto
    with "1.IH"[OF False] False show ?thesis
      by (subst digits_of.simps) (simp del: of_nat_add)
  qed
qed

lemma digits_of_0: "digits_of 0 = [48]"
  by (subst digits_of.simps) simp

lemma stops_not_digit: "stops r \<Longrightarrow> r = [] \<or> \<not> is_digit (hd r)"
  by (auto simp: stops_def is_digit_def split: list.splits)

lemma takeWhile_digits:
  "stops r \<Longrightarrow> takeWhile is_digit (digits_of n @ r) = digits_of n"
  using stops_not_digit[of r] digits_of_is_digit[of _ n]
  by (cases r) (auto simp: takeWhile_append)

lemma int_part_digits: "stops r \<Longrightarrow> int_part (digits_of n @ r) = digits_of n"
proof (cases "n = 0")
  case True
  then show ?thesis by (simp add: int_part_def digits_of_0)
next
  case False
  assume r: "stops r"
  obtain d ds where d: "digits_of n = d # ds" by (cases "digits_of n") auto
  with digits_of_hd[of n] False have "d \<noteq> 48" by auto
  with takeWhile_digits[OF r, of n] d show ?thesis by (simp add: int_part_def)
qed

lemma stops_parts: "stops r \<Longrightarrow> frac_part r = Some [] \<and> exp_part r = Some []"
  by (auto simp: stops_def frac_part_def exp_part_def split: list.splits)

lemma parse_num_digits:
  assumes "stops r" "n \<le> max_safe"
  shows "parse_num (digits_of n @ r) = Some (JInt (int n), r)"
    and "parse_num (45 # digits_of n @ r) = Some (JInt (- int n), r)"
proof -
  obtain d ds where d: "digits_of n = d # ds" by (cases "digits_of n") auto
  with digits_of_range[of d n] have "d \<noteq> 45" by auto
  with d have h: "(case digits_of n @ r of c # _ \<Rightarrow> c = 45 | [] \<Rightarrow> False) = False" by simp
  show "parse_num (digits_of n @ r) = Some (JInt (int n), r)"
    unfolding parse_num_def h
    using assms stops_parts by (simp add: int_part_digits digits_value_of)
  show "parse_num (45 # digits_of n @ r) = Some (JInt (- int n), r)"
    unfolding parse_num_def
    using assms stops_parts by (simp add: int_part_digits digits_value_of)
qed

lemma parse_num_int:
  assumes "stops r" "\<bar>i\<bar> \<le> int max_safe"
  shows "parse_num (js_of_int i @ r) = Some (JInt i, r)"
proof (cases "i < 0")
  case True
  then show ?thesis
    using parse_num_digits(2)[of r "nat (- i)"] assms by (simp add: js_of_int_def js_lit)
next
  case False
  then show ?thesis
    using parse_num_digits(1)[of r "nat i"] assms by (simp add: js_of_int_def)
qed

section \<open>Values survive printing and parsing\<close>

fun json_ok :: "json \<Rightarrow> bool" where
  "json_ok (JNum _) = False"
| "json_ok (JInt i) = (\<bar>i\<bar> \<le> int max_safe)"
| "json_ok (JArr vs) = list_all json_ok vs"
| "json_ok (JObj kvs) = list_all (\<lambda>kv. json_ok (snd kv)) kvs"
| "json_ok _ = True"

definition value_start :: "code_unit \<Rightarrow> bool" where
  "value_start c = (c = 110 \<or> c = 116 \<or> c = 102 \<or> c = 45 \<or> c = 34 \<or> c = 91 \<or> c = 123 \<or> is_digit c)"

lemma value_start_plain:
  "value_start c \<Longrightarrow> \<not> json_space c \<and> c \<noteq> 93 \<and> c \<noteq> 125"
  by (auto simp: value_start_def json_space_def is_digit_def)

lemma stringify_start:
  assumes "json_ok v"
  shows "\<exists>c cs. stringify v = c # cs \<and> value_start c"
proof (cases v)
  case (JInt i)
  obtain d ds where d: "digits_of (nat i) = d # ds" by (cases "digits_of (nat i)") auto
  with digits_of_is_digit[of d "nat i"] have "is_digit d" by simp
  with JInt d show ?thesis by (auto simp: js_of_int_def value_start_def js_lit)
qed (use assms in \<open>auto simp: value_start_def js_lit quote_def\<close>)

lemma skip_ws_start: "value_start c \<Longrightarrow> skip_ws (c # cs) = c # cs"
  using value_start_plain by (simp add: skip_ws_def)

lemma skip_ws_other: "c = 34 \<or> c = 44 \<or> c = 58 \<or> c = 93 \<or> c = 125 \<Longrightarrow> skip_ws (c # cs) = c # cs"
  by (auto simp: skip_ws_def json_space_def)

lemma skip_ws_stringify: "json_ok v \<Longrightarrow> skip_ws (stringify v @ r) = stringify v @ r"
  using stringify_start[of v] by (auto simp: skip_ws_start)

lemma parse_value_lit:
  assumes "s = c # cs" "value_start c" "c \<noteq> 34" "c \<noteq> 91" "c \<noteq> 123"
  shows "parse_value (Suc f) s = parse_lit s"
  using assms by (simp add: skip_ws_start)

lemma parse_lit_num:
  assumes "s = c # cs" "is_digit c \<or> c = 45"
  shows "parse_lit s = parse_num s"
  using assms by (auto simp: parse_lit_def js_starts_def js_lit is_digit_def)

lemma js_of_int_start: "\<exists>c cs. js_of_int i = c # cs \<and> (is_digit c \<or> c = 45)"
proof (cases "i < 0")
  case True
  then show ?thesis by (simp add: js_of_int_def js_lit)
next
  case False
  obtain d ds where d: "digits_of (nat i) = d # ds" by (cases "digits_of (nat i)") auto
  with digits_of_is_digit[of d "nat i"] have "is_digit d" by simp
  with d False show ?thesis by (simp add: js_of_int_def)
qed

lemma parse_value_int:
  assumes "stops r" "\<bar>i\<bar> \<le> int max_safe"
  shows "parse_value (Suc f) (js_of_int i @ r) = Some (JInt i, r)"
proof -
  obtain c cs where c: "js_of_int i @ r = c # cs" "is_digit c \<or> c = 45"
    using js_of_int_start[of i] by auto
  then have "parse_value (Suc f) (js_of_int i @ r) = parse_lit (js_of_int i @ r)"
    by (intro parse_value_lit) (auto simp: value_start_def is_digit_def)
  with parse_lit_num[OF c] parse_num_int[OF assms] show ?thesis by simp
qed

lemma stops_cons: "stops (44 # r)" "stops (93 # r)" "stops (125 # r)"
  by (simp_all add: stops_def)

lemma parse_stringify:
  shows "json_ok v \<Longrightarrow> stops r \<Longrightarrow> 2 * length (stringify v) + 1 \<le> f \<Longrightarrow>
      parse_value f (stringify v @ r) = Some (v, r)"
    and "list_all json_ok vs \<Longrightarrow> vs \<noteq> [] \<Longrightarrow> 2 * length (stringify_elems vs) + 2 \<le> f \<Longrightarrow>
      parse_elems f (stringify_elems vs @ 93 # r) = Some (vs, r)"
    and "list_all (\<lambda>kv. json_ok (snd kv)) ms \<Longrightarrow> ms \<noteq> [] \<Longrightarrow>
      2 * length (stringify_members ms) + 2 \<le> f \<Longrightarrow>
      parse_members f (stringify_members ms @ 125 # r) = Some (ms, r)"
proof (induction v and vs and ms arbitrary: f r and f r and f r
    rule: stringify_stringify_elems_stringify_members.induct)
  case 1
  then obtain g where "f = Suc g" by (cases f) auto
  then show ?case by (simp add: js_lit skip_ws_def json_space_def parse_lit_def js_starts_def)
next
  case (2 b)
  then obtain g where "f = Suc g" by (cases f) auto
  then show ?case by (simp add: js_lit skip_ws_def json_space_def parse_lit_def js_starts_def)
next
  case (3 i)
  then obtain g where "f = Suc g" by (cases f) auto
  with 3 show ?case by (simp add: parse_value_int del: parse_value.simps)
next
  case (4 l)
  then show ?case by simp
next
  case (5 s)
  then obtain g where "f = Suc g" by (cases f) auto
  then show ?case by (simp add: quote_def skip_ws_def json_space_def parse_str_quote)
next
  case (6 vs)
  then obtain g where g: "f = Suc g" by (cases f) auto
  show ?case
  proof (cases vs)
    case Nil
    with g show ?thesis by (simp add: skip_ws_def json_space_def)
  next
    case (Cons v vs')
    with 6 have "json_ok v" by simp
    then obtain c cs where c: "stringify_elems vs @ 93 # r = c # cs" "value_start c"
      using stringify_start[of v] Cons by (cases vs') auto
    have "parse_elems g (stringify_elems vs @ 93 # r) = Some (vs, r)"
      using 6 Cons g by auto
    with c g value_start_plain[OF c(2)] show ?thesis
      by (simp add: skip_ws_start) (simp add: skip_ws_def json_space_def)
  qed
next
  case (7 kvs)
  then obtain g where g: "f = Suc g" by (cases f) auto
  show ?case
  proof (cases kvs)
    case Nil
    with g show ?thesis by (simp add: skip_ws_def json_space_def)
  next
    case (Cons m ms')
    then obtain cs where c: "stringify_members kvs @ 125 # r = 34 # cs"
      by (cases m; cases ms') (auto simp: quote_def)
    have "parse_members g (stringify_members kvs @ 125 # r) = Some (kvs, r)"
      using 7 Cons g by auto
    with c g show ?thesis
      by (simp add: skip_ws_def json_space_def)
  qed
next
  case 8
  then show ?case by simp
next
  case (9 v)
  then obtain g where g: "f = Suc g" by (cases f) auto
  with 9 have "parse_value g (stringify v @ 93 # r) = Some (v, 93 # r)"
    by (simp add: stops_cons)
  with g show ?case by (simp add: skip_ws_other)
next
  case (10 v w vs)
  then obtain g where g: "f = Suc g" by (cases f) auto
  with 10 have "parse_value g (stringify v @ 44 # stringify_elems (w # vs) @ 93 # r)
      = Some (v, 44 # stringify_elems (w # vs) @ 93 # r)"
    by (simp add: stops_cons del: stringify_elems.simps)
       (use 10 g in \<open>auto simp: stops_cons\<close>)
  moreover have "parse_elems g (stringify_elems (w # vs) @ 93 # r) = Some (w # vs, r)"
    using 10 g by auto
  ultimately show ?case using g by (simp add: skip_ws_other)
next
  case 11
  then show ?case by simp
next
  case (12 k v)
  then obtain g where g: "f = Suc g" by (cases f) auto
  with 12 have "parse_value g (stringify v @ 125 # r) = Some (v, 125 # r)"
    by (simp add: stops_cons)
  with g show ?case
    by (simp add: quote_def skip_ws_other parse_str_quote)
next
  case (13 k v m ms)
  then obtain g where g: "f = Suc g" by (cases f) auto
  have "parse_value g (stringify v @ 44 # stringify_members (m # ms) @ 125 # r)
      = Some (v, 44 # stringify_members (m # ms) @ 125 # r)"
    using 13 g by (auto simp: stops_cons)
  moreover have "parse_members g (stringify_members (m # ms) @ 125 # r) = Some (m # ms, r)"
    using 13 g by auto
  ultimately show ?case
    using g by (simp add: quote_def skip_ws_other parse_str_quote)
qed

section \<open>Fuel\<close>

lemma parse_str_shorter: "parse_str s = Some (t, r) \<Longrightarrow> length r < length s"
proof (induction s arbitrary: t r rule: length_induct)
  case (1 s)
  have IH: "parse_str ys = Some (t', r') \<Longrightarrow> length ys < length s \<Longrightarrow> length r' < length ys" for ys t' r'
    using "1.IH" by blast
  show ?case
  proof (cases s)
    case Nil
    with "1.prems" show ?thesis by simp
  next
    case (Cons c cs)
    with "1.prems" show ?thesis
      by (auto simp: parse_str.simps split: if_splits list.splits option.splits dest!: IH)
  qed
qed

lemma skip_ws_shorter: "length (skip_ws s) \<le> length s"
  by (simp add: skip_ws_def length_dropWhile_le)

lemma skip_ws_cons: "skip_ws s = c # r \<Longrightarrow> length r < length s"
  using skip_ws_shorter[of s] by simp

lemma int_part_nonempty: "int_part s \<noteq> [] \<Longrightarrow> s \<noteq> []"
  by (cases s) (auto simp: int_part_def)

lemma parse_num_taken:
  assumes "parse_num s = Some (v, r)"
  shows "\<exists>s1 k. (s1 = s \<or> s1 = tl s) \<and> int_part s1 \<noteq> [] \<and> r = drop k (drop (length (int_part s1)) s1)"
proof (cases "case s of c # _ \<Rightarrow> c = 45 | [] \<Rightarrow> False")
  case True
  with assms have "int_part (tl s) \<noteq> [] \<and> (\<exists>k. r = drop k (drop (length (int_part (tl s))) (tl s)))"
    by (auto simp add: parse_num_def Let_def split: if_splits option.splits) (metis add_0 add.assoc)+
  then show ?thesis by blast
next
  case False
  with assms have "int_part s \<noteq> [] \<and> (\<exists>k. r = drop k (drop (length (int_part s)) s))"
    by (auto simp add: parse_num_def Let_def split: if_splits option.splits) (metis add_0 add.assoc)+
  then show ?thesis by blast
qed

lemma parse_num_shorter:
  assumes "parse_num s = Some (v, r)"
  shows "length r < length s"
proof -
  from parse_num_taken[OF assms] obtain s1 k where
    s1: "s1 = s \<or> s1 = tl s" and ip: "int_part s1 \<noteq> []" and
    r: "r = drop k (drop (length (int_part s1)) s1)"
    by blast
  have "length r \<le> length s1 - length (int_part s1)" by (simp add: r)
  moreover have "0 < length (int_part s1)" "0 < length s1"
    using ip int_part_nonempty by auto
  moreover have "length s1 \<le> length s" using s1 by auto
  ultimately show ?thesis by linarith
qed

lemma parse_lit_shorter: "parse_lit s = Some (v, r) \<Longrightarrow> length r < length s"
  by (auto simp: parse_lit_def js_starts_iff js_lit split: if_splits dest: parse_num_shorter)

lemma parse_rest_shorter:
  "(\<forall>s v r. parse_value f s = Some (v, r) \<longrightarrow> length r < length s) \<and>
   (\<forall>s vs r. parse_elems f s = Some (vs, r) \<longrightarrow> length r < length s) \<and>
   (\<forall>s ms r. parse_members f s = Some (ms, r) \<longrightarrow> length r < length s)"
proof (induction f)
  case (Suc f)
  then have v: "\<And>s v r. parse_value f s = Some (v, r) \<Longrightarrow> length r < length s"
    and e: "\<And>s vs r. parse_elems f s = Some (vs, r) \<Longrightarrow> length r < length s"
    and m: "\<And>s ms r. parse_members f s = Some (ms, r) \<Longrightarrow> length r < length s"
    by blast+
  note splits = if_splits list.splits option.splits prod.splits
  have "length r < length s" if "parse_value (Suc f) s = Some (x, r)" for s x r
    using that
    by (auto split: splits dest!: parse_str_shorter parse_lit_shorter e m skip_ws_cons)
  moreover have "length r < length s" if "parse_elems (Suc f) s = Some (vs, r)" for s vs r
    using that by (auto split: splits dest!: v e skip_ws_cons)
  moreover have "length r < length s" if "parse_members (Suc f) s = Some (ms, r)" for s ms r
    using that by (auto split: splits dest!: parse_str_shorter v m skip_ws_cons)
  ultimately show ?case by blast
qed simp

lemma parse_fuel:
  "(\<forall>s f'. 2 * length s + 1 \<le> f \<and> f \<le> f' \<longrightarrow> parse_value f' s = parse_value f s) \<and>
   (\<forall>s f'. 2 * length s + 2 \<le> f \<and> f \<le> f' \<longrightarrow> parse_elems f' s = parse_elems f s) \<and>
   (\<forall>s f'. 2 * length s + 2 \<le> f \<and> f \<le> f' \<longrightarrow> parse_members f' s = parse_members f s)"
proof (induction f)
  case (Suc f)
  then have v: "\<And>s f'. 2 * length s + 1 \<le> f \<Longrightarrow> f \<le> f' \<Longrightarrow> parse_value f' s = parse_value f s"
    and e: "\<And>s f'. 2 * length s + 2 \<le> f \<Longrightarrow> f \<le> f' \<Longrightarrow> parse_elems f' s = parse_elems f s"
    and m: "\<And>s f'. 2 * length s + 2 \<le> f \<Longrightarrow> f \<le> f' \<Longrightarrow> parse_members f' s = parse_members f s"
    by blast+
  have len: "length r < length s" if "parse_value f s = Some (x, r)" for s x r
    using that parse_rest_shorter by blast
  have "parse_value (Suc g) s = parse_value (Suc f) s" if "2 * length s \<le> f" "f \<le> g" for s g
  proof (cases "skip_ws s")
    case (Cons c cs)
    then have cs: "length cs < length s" by (rule skip_ws_cons)
    have "parse_elems g (d # r) = parse_elems f (d # r) \<and> parse_members g (d # r) = parse_members f (d # r)"
      if "skip_ws cs = d # r" for d r
      using that skip_ws_shorter[of cs] cs \<open>2 * length s \<le> f\<close> \<open>f \<le> g\<close> by (auto intro!: e m)
    with Cons show ?thesis by (auto split: list.splits)
  qed simp
  moreover have "parse_elems (Suc g) s = parse_elems (Suc f) s" if "2 * length s + 1 \<le> f" "f \<le> g" for s g
  proof (cases "parse_value f s")
    case (Some vr)
    then obtain x r where r: "parse_value f s = Some (x, r)" by (cases vr) auto
    have "parse_elems g q = parse_elems f q" if "skip_ws r = c # q" for c q
      using len[OF r] skip_ws_cons[OF that] \<open>2 * length s + 1 \<le> f\<close> \<open>f \<le> g\<close> by (intro e) auto
    with r v[OF that] show ?thesis by (auto split: list.splits)
  qed (use v[OF that] in simp)
  moreover have "parse_members (Suc g) s = parse_members (Suc f) s" if "2 * length s + 1 \<le> f" "f \<le> g" for s g
  proof -
    have "parse_value g q = parse_value f q" if "skip_ws s = c # cs" "parse_str cs = Some (k, r)" "skip_ws r = d # q"
      for c cs k r d q
      using skip_ws_cons[OF that(1)] parse_str_shorter[OF that(2)] skip_ws_cons[OF that(3)]
        \<open>2 * length s + 1 \<le> f\<close> \<open>f \<le> g\<close> by (intro v) auto
    moreover have "parse_members g y = parse_members f y"
      if "skip_ws s = c # cs" "parse_str cs = Some (k, r)" "skip_ws r = d # q"
        "parse_value f q = Some (x, z)" "skip_ws z = b # y"
      for c cs k r d q x z b y
      using skip_ws_cons[OF that(1)] parse_str_shorter[OF that(2)] skip_ws_cons[OF that(3)] len[OF that(4)]
        skip_ws_cons[OF that(5)] \<open>2 * length s + 1 \<le> f\<close> \<open>f \<le> g\<close> by (intro m) auto
    ultimately show ?thesis by (auto split: list.splits option.splits)
  qed
  ultimately have
    V: "\<And>s g. 2 * length s \<le> f \<Longrightarrow> f \<le> g \<Longrightarrow> parse_value (Suc g) s = parse_value (Suc f) s" and
    E: "\<And>s g. 2 * length s + 1 \<le> f \<Longrightarrow> f \<le> g \<Longrightarrow> parse_elems (Suc g) s = parse_elems (Suc f) s" and
    M: "\<And>s g. 2 * length s + 1 \<le> f \<Longrightarrow> f \<le> g \<Longrightarrow> parse_members (Suc g) s = parse_members (Suc f) s"
    by blast+
  show ?case
  proof (intro conjI allI impI, goal_cases)
    case (1 s f')
    then obtain g where g: "f' = Suc g" by (cases f') auto
    show ?case unfolding g by (rule V) (use 1 g in auto)
  next
    case (2 s f')
    then obtain g where g: "f' = Suc g" by (cases f') auto
    show ?case unfolding g by (rule E) (use 2 g in auto)
  next
    case (3 s f')
    then obtain g where g: "f' = Suc g" by (cases f') auto
    show ?case unfolding g by (rule M) (use 3 g in auto)
  qed
qed simp

section \<open>Round trip\<close>

lemma parse_value_fuel: "json_fuel s \<le> f \<Longrightarrow> parse_value f s = parse_value (json_fuel s) s"
  using parse_fuel[of "json_fuel s"] by (auto simp: json_fuel_def)

lemma json_parse_stringify: "json_ok v \<Longrightarrow> json_parse (stringify v) = Inr v"
  using parse_stringify(1)[of v "[]" "json_fuel (stringify v)"]
  by (simp add: json_parse_def json_fuel_def stops_def skip_ws_def)


section \<open>Printed values are well-formed text\<close>

text \<open>\<open>JSON.stringify\<close> escapes lone surrogates, so its output survives UTF-8 whatever the
  strings inside the value hold.\<close>

definition plain_unit :: "code_unit \<Rightarrow> bool" where
  "plain_unit c = (\<not> high_surrogate c \<and> \<not> low_surrogate c)"

lemma well_formed_plain: "plain_unit c \<Longrightarrow> well_formed (c # s) = well_formed s"
  by (cases s) (auto simp: plain_unit_def)

lemma well_formed_append: "well_formed a \<Longrightarrow> well_formed (a @ b) = well_formed b"
proof (induction a rule: well_formed.induct)
  case (2 c)
  then have "plain_unit c" by (simp add: plain_unit_def)
  from well_formed_plain[OF this, of b] show ?case by simp
next
  case (3 c d cs)
  show ?case
  proof (cases "high_surrogate c")
    case True
    with "3.prems" have "low_surrogate d" "well_formed cs" by simp_all
    with "3.IH"(1)[OF True] True show ?thesis by simp
  next
    case False
    with "3.prems" have c: "plain_unit c" and w: "well_formed (d # cs)" by (simp_all add: plain_unit_def)
    have "well_formed ((c # d # cs) @ b) = well_formed ((d # cs) @ b)"
      using well_formed_plain[OF c] by (simp only: append_Cons)
    also have "\<dots> = well_formed b" by (rule "3.IH"(2)[OF False w])
    finally show ?thesis .
  qed
qed simp

lemma well_formed_all_plain: "list_all plain_unit s \<Longrightarrow> well_formed s"
  by (induction s) (auto simp: well_formed_plain)

lemma plain_unit_small: "unat c < 55296 \<Longrightarrow> plain_unit c"
  by (auto simp: plain_unit_def high_surrogate_def low_surrogate_def)

lemma hexd_plain: "n < 16 \<Longrightarrow> plain_unit (hexd n)"
  using unat_unit_of_nat[of "48 + n"] unat_unit_of_nat[of "87 + n"]
  by (intro plain_unit_small) (auto simp: hexd_def simp del: of_nat_add)

lemma quote_unit_plain: "list_all plain_unit (quote_unit c)"
proof -
  have "unat c div 4096 < 16" using unat_unit_less[of c] by auto
  then have h: "list_all plain_unit (hex4 (unat c))"
    by (simp add: hex4_def hexd_plain)
  have k: "plain_unit 92" "plain_unit 98" "plain_unit 116" "plain_unit 110" "plain_unit 102"
    "plain_unit 114" "plain_unit 34" "plain_unit 117"
    by (simp_all add: plain_unit_small)
  show ?thesis
    using h k by (auto simp: quote_unit_def plain_unit_def)
qed

lemma quote_chars_well_formed: "well_formed (quote_chars s)"
proof (induction s rule: quote_chars.induct)
  case (3 c d cs)
  then show ?case
    using well_formed_append[OF well_formed_all_plain[OF quote_unit_plain[of c]]]
    by (auto simp: high_surrogate_def low_surrogate_def)
qed (auto simp: well_formed_all_plain quote_unit_plain)

lemma quote_well_formed: "well_formed (quote s)"
  by (simp add: quote_def well_formed_plain plain_unit_small well_formed_append quote_chars_well_formed
      high_surrogate_def low_surrogate_def)

lemma js_of_int_plain: "list_all plain_unit (js_of_int i)"
proof -
  have "list_all plain_unit (digits_of n)" for n
    using digits_of_range[of _ n] by (fastforce simp: list_all_iff intro: plain_unit_small)
  then show ?thesis by (auto simp: js_of_int_def js_lit plain_unit_small)
qed

lemma stringify_well_formed:
  shows "json_ok v \<Longrightarrow> well_formed (stringify v)"
    and "list_all json_ok vs \<Longrightarrow> well_formed (stringify_elems vs)"
    and "list_all (\<lambda>kv. json_ok (snd kv)) ms \<Longrightarrow> well_formed (stringify_members ms)"
  by (induction v and vs and ms rule: stringify_stringify_elems_stringify_members.induct)
    (auto simp: js_lit well_formed_plain plain_unit_small well_formed_append quote_well_formed
      well_formed_all_plain js_of_int_plain high_surrogate_def low_surrogate_def)

lemma stringify_no_bom: "json_ok v \<Longrightarrow> unat (hd (stringify v)) \<noteq> 65279"
  using stringify_start[of v] by (auto simp: value_start_def is_digit_def)

interpretation json_text: codec "\<lambda>v. Inr (stringify v)" json_parse json_ok
  by unfold_locales (simp add: json_parse_stringify)

interpretation json_b64: codec_chain
  "\<lambda>v. Inr (stringify v)" json_parse json_ok
  "\<lambda>s. bindR (Inr (text_encode s)) bytesToBase64URL"
  "\<lambda>t. bindR (base64URLToBytes t) (\<lambda>bs. Inr (text_decode bs))"
  "\<lambda>s. well_formed s \<and> (s = [] \<or> unat (hd s) \<noteq> 65279)"
  by unfold_locales (auto simp: stringify_well_formed stringify_no_bom text64.chain.enc_dec text_decode_encode)

end
