(* ===== verification/Crypto.thy ===== *)
theory Crypto
  imports Json
begin

text \<open>
  \<open>lib/crypto.ts\<close>: the payloads of messages and files.  WebCrypto is a parameter
  (\<open>webcrypto\<close>): the digest, and encryption and decryption under the raw key the
  digest of the room secret gives; random bytes are arguments.  \<open>JSON.parse\<close>
  returns any value, so a decoder returns \<open>json\<close>; the cast \<open>as PlainMessage\<close> is the
  reading \<open>plain_of_json\<close>, which is None on a value that is not of the type.
\<close>

section \<open>Data\<close>

record local_identity =
  id_userId :: jstr
  id_displayName :: jstr
  id_identityPublicKey :: jstr
  id_identityPrivateKey :: json

record reply_ref =
  rr_id :: jstr
  rr_senderName :: jstr
  rr_text :: jstr

datatype call_status = Completed | Missed | Declined

datatype system_note =
    Join jstr
  | Leave jstr
  | CallNote (note_status: call_status) (note_durationSec: int) (note_callerId: jstr) (note_calleeId: jstr)

record encrypted_attachment =
  at_fileId :: jstr
  at_name :: jstr
  at_type :: jstr
  at_size :: int
  at_ciphertextSize :: int
  at_nonce :: jstr
  at_algorithm :: jstr

record plain_message =
  pm_text :: jstr
  pm_senderName :: jstr
  pm_senderAvatarUrl :: "jstr option"
  pm_sentAt :: jstr
  pm_replyTo :: "reply_ref option"
  pm_system :: "system_note option"
  pm_attachment :: "encrypted_attachment option"

record payload =
  pl_ciphertext :: jstr
  pl_nonce :: jstr
  pl_algorithm :: jstr
  pl_keyId :: jstr

record blob =
  bl_bytes :: "byte list"
  bl_type :: jstr

record webcrypto =
  wc_sha256 :: "byte list \<Rightarrow> byte list"
  wc_encrypt :: "byte list \<Rightarrow> byte list \<Rightarrow> byte list \<Rightarrow> byte list"
  wc_decrypt :: "byte list \<Rightarrow> byte list \<Rightarrow> byte list \<Rightarrow> byte list option"

text \<open>What the code relies on: SHA-256 gives 32 bytes, AES-GCM decrypts what it encrypted.\<close>

definition sha256_law :: "webcrypto \<Rightarrow> bool" where
  "sha256_law wc = (\<forall>bs. length (wc_sha256 wc bs) = 32)"

definition aes_law :: "webcrypto \<Rightarrow> bool" where
  "aes_law wc = (\<forall>k iv bs. wc_decrypt wc k iv (wc_encrypt wc k iv bs) = Some bs)"

section \<open>Messages as JSON\<close>

definition jopt :: "jstr \<Rightarrow> ('a \<Rightarrow> json) \<Rightarrow> 'a option \<Rightarrow> (jstr \<times> json) list" where
  "jopt k f x = (case x of None \<Rightarrow> [] | Some v \<Rightarrow> [(k, f v)])"

definition json_of_reply :: "reply_ref \<Rightarrow> json" where
  "json_of_reply r = JObj [(js ''id'', JStr (rr_id r)), (js ''senderName'', JStr (rr_senderName r)),
     (js ''text'', JStr (rr_text r))]"

fun status_name :: "call_status \<Rightarrow> jstr" where
  "status_name Completed = js ''completed''"
| "status_name Missed = js ''missed''"
| "status_name Declined = js ''declined''"

fun json_of_system :: "system_note \<Rightarrow> json" where
  "json_of_system (Join t) = JObj [(js ''type'', JStr (js ''join'')), (js ''text'', JStr t)]"
| "json_of_system (Leave t) = JObj [(js ''type'', JStr (js ''leave'')), (js ''text'', JStr t)]"
| "json_of_system (CallNote st d a b) =
     JObj [(js ''type'', JStr (js ''call'')), (js ''callStatus'', JStr (status_name st)),
       (js ''durationSec'', JInt d), (js ''callerId'', JStr a), (js ''calleeId'', JStr b)]"

definition json_of_attachment :: "encrypted_attachment \<Rightarrow> json" where
  "json_of_attachment a = JObj [(js ''fileId'', JStr (at_fileId a)), (js ''name'', JStr (at_name a)),
     (js ''type'', JStr (at_type a)), (js ''size'', JInt (at_size a)),
     (js ''ciphertextSize'', JInt (at_ciphertextSize a)), (js ''nonce'', JStr (at_nonce a)),
     (js ''algorithm'', JStr (at_algorithm a))]"

text \<open>\<open>JSON.stringify\<close> leaves out the members that are undefined.\<close>

definition json_of_plain :: "plain_message \<Rightarrow> json" where
  "json_of_plain m = JObj (
     [(js ''text'', JStr (pm_text m)), (js ''senderName'', JStr (pm_senderName m))]
     @ jopt (js ''senderAvatarUrl'') JStr (pm_senderAvatarUrl m)
     @ [(js ''sentAt'', JStr (pm_sentAt m))]
     @ jopt (js ''replyTo'') json_of_reply (pm_replyTo m)
     @ jopt (js ''system'') json_of_system (pm_system m)
     @ jopt (js ''attachment'') json_of_attachment (pm_attachment m))"

section \<open>The typed reading\<close>

definition str_field :: "jstr \<Rightarrow> (jstr \<times> json) list \<Rightarrow> jstr option" where
  "str_field k kvs = (case jfield k kvs of Some (JStr s) \<Rightarrow> Some s | _ \<Rightarrow> None)"

definition int_field :: "jstr \<Rightarrow> (jstr \<times> json) list \<Rightarrow> int option" where
  "int_field k kvs = (case jfield k kvs of Some (JInt i) \<Rightarrow> Some i | _ \<Rightarrow> None)"

text \<open>An optional member: absent is \<open>Some None\<close>, present and ill-typed is None.\<close>

definition opt_field :: "(json \<Rightarrow> 'a option) \<Rightarrow> jstr \<Rightarrow> (jstr \<times> json) list \<Rightarrow> 'a option option" where
  "opt_field f k kvs = (case jfield k kvs of None \<Rightarrow> Some None | Some v \<Rightarrow> map_option Some (f v))"

fun str_of_json :: "json \<Rightarrow> jstr option" where
  "str_of_json (JStr s) = Some s"
| "str_of_json _ = None"

fun reply_of_json :: "json \<Rightarrow> reply_ref option" where
  "reply_of_json (JObj kvs) =
     (case (str_field (js ''id'') kvs, str_field (js ''senderName'') kvs, str_field (js ''text'') kvs) of
        (Some i, Some n, Some t) \<Rightarrow> Some \<lparr>rr_id = i, rr_senderName = n, rr_text = t\<rparr>
      | _ \<Rightarrow> None)"
| "reply_of_json _ = None"

definition status_of_name :: "jstr \<Rightarrow> call_status option" where
  "status_of_name s =
     (if s = js ''completed'' then Some Completed else if s = js ''missed'' then Some Missed
      else if s = js ''declined'' then Some Declined else None)"

fun system_of_json :: "json \<Rightarrow> system_note option" where
  "system_of_json (JObj kvs) =
     (case str_field (js ''type'') kvs of
        None \<Rightarrow> None
      | Some t \<Rightarrow>
          if t = js ''join'' then map_option Join (str_field (js ''text'') kvs)
          else if t = js ''leave'' then map_option Leave (str_field (js ''text'') kvs)
          else if t = js ''call'' then
            (case (str_field (js ''callStatus'') kvs, int_field (js ''durationSec'') kvs,
                   str_field (js ''callerId'') kvs, str_field (js ''calleeId'') kvs) of
               (Some st, Some d, Some a, Some b) \<Rightarrow> map_option (\<lambda>x. CallNote x d a b) (status_of_name st)
             | _ \<Rightarrow> None)
          else None)"
| "system_of_json _ = None"

fun attachment_of_json :: "json \<Rightarrow> encrypted_attachment option" where
  "attachment_of_json (JObj kvs) =
     (case (str_field (js ''fileId'') kvs, str_field (js ''name'') kvs, str_field (js ''type'') kvs,
            int_field (js ''size'') kvs, int_field (js ''ciphertextSize'') kvs,
            str_field (js ''nonce'') kvs, str_field (js ''algorithm'') kvs) of
        (Some i, Some n, Some t, Some z, Some c, Some v, Some a) \<Rightarrow>
          Some \<lparr>at_fileId = i, at_name = n, at_type = t, at_size = z, at_ciphertextSize = c,
            at_nonce = v, at_algorithm = a\<rparr>
      | _ \<Rightarrow> None)"
| "attachment_of_json _ = None"

fun plain_of_json :: "json \<Rightarrow> plain_message option" where
  "plain_of_json (JObj kvs) =
     (case (str_field (js ''text'') kvs, str_field (js ''senderName'') kvs,
            opt_field str_of_json (js ''senderAvatarUrl'') kvs, str_field (js ''sentAt'') kvs,
            opt_field reply_of_json (js ''replyTo'') kvs, opt_field system_of_json (js ''system'') kvs,
            opt_field attachment_of_json (js ''attachment'') kvs) of
        (Some t, Some n, Some a, Some s, Some r, Some y, Some f) \<Rightarrow>
          Some \<lparr>pm_text = t, pm_senderName = n, pm_senderAvatarUrl = a, pm_sentAt = s,
            pm_replyTo = r, pm_system = y, pm_attachment = f\<rparr>
      | _ \<Rightarrow> None)"
| "plain_of_json _ = None"

section \<open>Keys and identities\<close>

definition PLAIN_MESSAGE_ALGORITHM :: jstr where
  "PLAIN_MESSAGE_ALGORITHM = js ''PLAIN-JSON-V1''"

definition PLAIN_FILE_ALGORITHM :: jstr where
  "PLAIN_FILE_ALGORITHM = js ''PLAIN-FILE-V1''"

definition importRoomKey :: "webcrypto \<Rightarrow> jstr \<Rightarrow> byte list" where
  "importRoomKey wc roomSecret = wc_sha256 wc (text_encode roomSecret)"

definition digestID :: "webcrypto \<Rightarrow> jstr \<Rightarrow> jstr result" where
  "digestID wc value = bindR (bytesToBase64URL (wc_sha256 wc (text_encode value))) (\<lambda>t. Inr (take 22 t))"

definition keyID :: "webcrypto \<Rightarrow> jstr \<Rightarrow> jstr result" where
  "keyID wc roomSecret = bindR (digestID wc roomSecret) (\<lambda>t. Inr (take 16 t))"

text \<open>\<open>randomBytes\<close> stands for the 32 bytes \<open>getRandomValues\<close> fills in.\<close>

definition createRoomSecret :: "byte list \<Rightarrow> jstr result" where
  "createRoomSecret randomBytes = bytesToBase64URL randomBytes"

text \<open>The exported JWKs of the generated key pair are arguments.\<close>

definition createLocalIdentity :: "webcrypto \<Rightarrow> json \<Rightarrow> json \<Rightarrow> jstr \<Rightarrow> local_identity result" where
  "createLocalIdentity wc publicJwk privateJwk displayName =
     bindR (toBase64URL (stringify publicJwk)) (\<lambda>publicKey.
     bindR (digestID wc publicKey) (\<lambda>userId.
     Inr \<lparr>id_userId = userId, id_displayName = displayName, id_identityPublicKey = publicKey,
          id_identityPrivateKey = privateJwk\<rparr>))"

section \<open>Messages\<close>

definition encryptMessage :: "webcrypto \<Rightarrow> byte list \<Rightarrow> jstr \<Rightarrow> plain_message \<Rightarrow> payload result" where
  "encryptMessage wc nonce roomSecret message =
     (let key = importRoomKey wc roomSecret;
          plaintext = text_encode (stringify (json_of_plain message));
          ciphertext = wc_encrypt wc key nonce plaintext
      in bindR (bytesToBase64URL ciphertext) (\<lambda>c.
         bindR (bytesToBase64URL nonce) (\<lambda>n.
         bindR (keyID wc roomSecret) (\<lambda>k.
         Inr \<lparr>pl_ciphertext = c, pl_nonce = n, pl_algorithm = js ''AES-GCM-256'', pl_keyId = k\<rparr>))))"

definition encodePlainMessage :: "plain_message \<Rightarrow> payload result" where
  "encodePlainMessage message =
     bindR (bytesToBase64URL (text_encode (stringify (json_of_plain message)))) (\<lambda>c.
     Inr \<lparr>pl_ciphertext = c, pl_nonce = [], pl_algorithm = PLAIN_MESSAGE_ALGORITHM, pl_keyId = js ''plain''\<rparr>)"

definition aes_decrypt :: "webcrypto \<Rightarrow> byte list \<Rightarrow> byte list \<Rightarrow> byte list \<Rightarrow> byte list result" where
  "aes_decrypt wc key iv c = (case wc_decrypt wc key iv c of Some p \<Rightarrow> Inr p | None \<Rightarrow> Inl OperationError)"

definition decryptMessage :: "webcrypto \<Rightarrow> jstr \<Rightarrow> jstr \<Rightarrow> jstr \<Rightarrow> json result" where
  "decryptMessage wc roomSecret ciphertext nonce =
     (let key = importRoomKey wc roomSecret
      in bindR (base64URLToBytes nonce) (\<lambda>nonceBytes.
         bindR (base64URLToBytes ciphertext) (\<lambda>ciphertextBytes.
         bindR (aes_decrypt wc key nonceBytes ciphertextBytes) (\<lambda>plain.
         json_parse (text_decode plain)))))"

text \<open>The first argument after \<open>wc\<close> is the optional \<open>roomSecret\<close>; the empty string is falsy.\<close>

definition decodeMessagePayload :: "webcrypto \<Rightarrow> jstr option \<Rightarrow> payload \<Rightarrow> json result" where
  "decodeMessagePayload wc roomSecret input =
     (if pl_algorithm input = PLAIN_MESSAGE_ALGORITHM
      then bindR (base64URLToBytes (pl_ciphertext input)) (\<lambda>bs. json_parse (text_decode bs))
      else if \<not> truthy roomSecret then Inl (Err (js ''room_secret_required''))
      else decryptMessage wc (the roomSecret) (pl_ciphertext input) (pl_nonce input))"

section \<open>Files\<close>

text \<open>The type of a \<open>Blob\<close>: lower-cased, and empty when it has a character outside U+0020-U+007E.\<close>

definition ascii_lower :: "code_unit \<Rightarrow> code_unit" where
  "ascii_lower c = (if 65 \<le> unat c \<and> unat c \<le> 90 then c + 32 else c)"

definition blob_type :: "jstr \<Rightarrow> jstr" where
  "blob_type t = (if list_ex (\<lambda>c. unat c < 32 \<or> 126 < unat c) t then [] else map ascii_lower t)"

definition mk_blob :: "byte list \<Rightarrow> jstr \<Rightarrow> blob" where
  "mk_blob bs t = \<lparr>bl_bytes = bs, bl_type = blob_type t\<rparr>"

definition OCTET_STREAM :: jstr where
  "OCTET_STREAM = js ''application/octet-stream''"

definition encryptFile :: "webcrypto \<Rightarrow> byte list \<Rightarrow> jstr \<Rightarrow> byte list \<Rightarrow> (blob \<times> jstr \<times> jstr) result" where
  "encryptFile wc nonce roomSecret file =
     (let key = importRoomKey wc roomSecret;
          ciphertext = wc_encrypt wc key nonce file
      in bindR (bytesToBase64URL nonce) (\<lambda>n. Inr (mk_blob ciphertext OCTET_STREAM, n, js ''AES-GCM-256'')))"

definition decryptFile :: "webcrypto \<Rightarrow> jstr \<Rightarrow> blob \<Rightarrow> jstr \<Rightarrow> jstr \<Rightarrow> blob result" where
  "decryptFile wc roomSecret encrypted nonce type =
     (let key = importRoomKey wc roomSecret
      in bindR (base64URLToBytes nonce) (\<lambda>iv.
         bindR (aes_decrypt wc key iv (bl_bytes encrypted)) (\<lambda>plain.
         Inr (mk_blob plain (or_str type OCTET_STREAM)))))"

definition decodeFilePayload ::
    "webcrypto \<Rightarrow> jstr option \<Rightarrow> blob \<Rightarrow> jstr \<Rightarrow> jstr \<Rightarrow> jstr \<Rightarrow> blob result" where
  "decodeFilePayload wc roomSecret encrypted nonce type algorithm =
     (if algorithm = PLAIN_FILE_ALGORITHM
      then Inr (mk_blob (bl_bytes encrypted) (or_str type OCTET_STREAM))
      else if \<not> truthy roomSecret then Inl (Err (js ''room_secret_required''))
      else decryptFile wc (the roomSecret) encrypted nonce type)"

section \<open>The typed reading inverts the printing\<close>

lemma jfield_Nil [simp]: "jfield k [] = None"
  by (simp add: jfield_def)

lemma jfield_snoc [simp]: "jfield k (kvs @ [(k', v)]) = (if k = k' then Some v else jfield k kvs)"
  by (simp add: jfield_def)

lemma jfield_append: "jfield k (a @ b) = (case jfield k b of None \<Rightarrow> jfield k a | Some v \<Rightarrow> Some v)"
  by (simp add: jfield_def map_add_def split: option.split)

lemma jfield_single: "jfield k [(k', v)] = (if k = k' then Some v else None)"
  by (simp add: jfield_def)

lemma jfield_Cons: "jfield k ((k', v) # r) = (case jfield k r of None \<Rightarrow> if k = k' then Some v else None | Some w \<Rightarrow> Some w)"
  using jfield_append[of k "[(k', v)]" r] by (simp add: jfield_single split: option.split)

lemma jfield_jopt: "jfield k (jopt k' f x) = (if k = k' then map_option f x else None)"
  by (cases x) (simp_all add: jopt_def jfield_single)

lemmas field_simps_js = str_field_def int_field_def opt_field_def jfield_Cons jfield_append jfield_single jfield_jopt

lemma reply_of_json_of: "reply_of_json (json_of_reply r) = Some r"
  by (simp add: json_of_reply_def field_simps_js)

lemma system_of_json_of: "system_of_json (json_of_system y) = Some y"
proof (cases y)
  case (CallNote st d a b)
  have "status_of_name (status_name st) = Some st"
    by (cases st) (simp_all add: status_of_name_def)
  with CallNote show ?thesis by (simp add: field_simps_js)
qed (simp_all add: field_simps_js)

lemma attachment_of_json_of: "attachment_of_json (json_of_attachment a) = Some a"
  by (simp add: json_of_attachment_def field_simps_js)

lemma opt_field_map:
  "jfield k kvs = map_option g x \<Longrightarrow> (\<And>y. f (g y) = Some y) \<Longrightarrow> opt_field f k kvs = Some x"
  by (cases x) (simp_all add: opt_field_def)

lemma plain_of_json_of: "plain_of_json (json_of_plain m) = Some m"
proof -
  define kvs where "kvs = [(js ''text'', JStr (pm_text m)), (js ''senderName'', JStr (pm_senderName m))]
     @ jopt (js ''senderAvatarUrl'') JStr (pm_senderAvatarUrl m)
     @ [(js ''sentAt'', JStr (pm_sentAt m))]
     @ jopt (js ''replyTo'') json_of_reply (pm_replyTo m)
     @ jopt (js ''system'') json_of_system (pm_system m)
     @ jopt (js ''attachment'') json_of_attachment (pm_attachment m)"
  note j = jfield_append jfield_Cons jfield_jopt jfield_Nil
  have s: "str_field (js ''text'') kvs = Some (pm_text m)"
    "str_field (js ''senderName'') kvs = Some (pm_senderName m)"
    "str_field (js ''sentAt'') kvs = Some (pm_sentAt m)"
    by (simp_all add: kvs_def str_field_def j)
  have "opt_field str_of_json (js ''senderAvatarUrl'') kvs = Some (pm_senderAvatarUrl m)"
    by (rule opt_field_map[where g = JStr]) (simp_all add: kvs_def j split: option.split)
  moreover have "opt_field reply_of_json (js ''replyTo'') kvs = Some (pm_replyTo m)"
    by (rule opt_field_map[where g = json_of_reply]) (simp_all add: kvs_def j reply_of_json_of split: option.split)
  moreover have "opt_field system_of_json (js ''system'') kvs = Some (pm_system m)"
    by (rule opt_field_map[where g = json_of_system]) (simp_all add: kvs_def j system_of_json_of split: option.split)
  moreover have "opt_field attachment_of_json (js ''attachment'') kvs = Some (pm_attachment m)"
    by (rule opt_field_map[where g = json_of_attachment]) (simp_all add: kvs_def j attachment_of_json_of split: option.split)
  moreover have "json_of_plain m = JObj kvs"
    by (simp only: json_of_plain_def kvs_def)
  ultimately show ?thesis using s by simp
qed


definition small_int :: "int \<Rightarrow> bool" where
  "small_int i = (\<bar>i\<bar> \<le> int max_safe)"

text \<open>The numbers of a message are safe integers (file sizes, seconds).\<close>

fun note_ok :: "system_note \<Rightarrow> bool" where
  "note_ok (CallNote st d a b) = small_int d"
| "note_ok _ = True"

definition plain_ok :: "plain_message \<Rightarrow> bool" where
  "plain_ok m = (pred_option note_ok (pm_system m) \<and>
     pred_option (\<lambda>a. small_int (at_size a) \<and> small_int (at_ciphertextSize a)) (pm_attachment m))"

lemma json_of_plain_ok: "plain_ok m \<Longrightarrow> json_ok (json_of_plain m)"
proof -
  assume m: "plain_ok m"
  have "json_ok (json_of_system y)" if "note_ok y" for y
    using that by (cases y) (auto simp: small_int_def)
  with m show ?thesis
    by (auto simp: json_of_plain_def jopt_def json_of_reply_def json_of_attachment_def plain_ok_def
        small_int_def split: option.splits)
qed

lemma decode_text_stringify: "json_ok v \<Longrightarrow> json_parse (text_decode (text_encode (stringify v))) = Inr v"
  by (simp add: text_decode_encode stringify_well_formed stringify_no_bom json_parse_stringify)

section \<open>Properties\<close>

text \<open>A plain message survives encoding and decoding: whatever text, names, reply,
  system note and attachment it holds, the receiver's \<open>decodeMessagePayload\<close> returns it, with
  or without a room secret.\<close>

theorem plain_message_roundtrip:
  assumes "plain_ok m"
  shows "bindR (encodePlainMessage m) (decodeMessagePayload wc secret) = Inr (json_of_plain m)
    \<and> plain_of_json (json_of_plain m) = Some m"
  using json_of_plain_ok[OF assms]
  by (simp add: encodePlainMessage_def decodeMessagePayload_def decode_text_stringify plain_of_json_of)

definition sample_message :: plain_message where
  "sample_message = \<lparr>pm_text = js ''hi'', pm_senderName = js ''Ann'', pm_senderAvatarUrl = None,
     pm_sentAt = js ''2024-01-01T00:00:00Z'', pm_replyTo = None,
     pm_system = Some (CallNote Missed 7 (js ''a'') (js ''b'')), pm_attachment = None\<rparr>"

text \<open>A stand-in for WebCrypto that satisfies both laws: the key is prepended, and checked.\<close>

definition sample_crypto :: webcrypto where
  "sample_crypto = \<lparr>wc_sha256 = (\<lambda>bs. replicate 31 7 @ [of_nat (length bs)]),
     wc_encrypt = (\<lambda>k iv bs. k @ bs),
     wc_decrypt = (\<lambda>k iv c. if take (length k) c = k then Some (drop (length k) c) else None)\<rparr>"

lemma sample_message_ok: "plain_ok sample_message"
  by (simp add: plain_ok_def sample_message_def small_int_def max_safe_def)

lemma sample_crypto_laws: "aes_law sample_crypto" "sha256_law sample_crypto"
  by (simp_all add: aes_law_def sha256_law_def sample_crypto_def)

theorem plain_message_roundtrip_witness:
  "bindR (encodePlainMessage sample_message) (decodeMessagePayload sample_crypto None)
    = Inr (json_of_plain sample_message)"
  using plain_message_roundtrip[OF sample_message_ok] by blast

text \<open>An encrypted message decrypts to itself under the same room secret, by the law of
  AES-GCM alone: the nonce and the ciphertext survive base64, the key is derived the same
  way on both sides, and the payload never takes the plain path.\<close>

theorem encrypted_message_roundtrip:
  assumes "aes_law wc" and "plain_ok m" and "secret \<noteq> []"
  shows "bindR (encryptMessage wc nonce secret m) (decodeMessagePayload wc (Some secret))
    = Inr (json_of_plain m)"
proof -
  have k: "\<exists>k. keyID wc secret = Inr k"
    by (simp add: keyID_def digestID_def)
  have d: "aes_decrypt wc key iv (wc_encrypt wc key iv bs) = Inr bs" for key iv bs
    using assms(1) by (simp add: aes_decrypt_def aes_law_def)
  have a: "js ''AES-GCM-256'' \<noteq> PLAIN_MESSAGE_ALGORITHM"
    by (simp add: PLAIN_MESSAGE_ALGORITHM_def)
  show ?thesis
    using k a assms(3) json_of_plain_ok[OF assms(2)]
    by (auto simp: encryptMessage_def decodeMessagePayload_def decryptMessage_def Let_def d decode_text_stringify)
qed

theorem encrypted_message_roundtrip_witness:
  "bindR (encryptMessage sample_crypto [1, 2, 3] (js ''secret'') sample_message)
     (decodeMessagePayload sample_crypto (Some (js ''secret''))) = Inr (json_of_plain sample_message)"
  by (rule encrypted_message_roundtrip) (simp_all add: sample_crypto_laws sample_message_ok)

text \<open>Without a room secret nothing but the plain formats is decoded: any other payload, of a
  message or of a file, is refused with \<open>room_secret_required\<close> before its content is looked at,
  and a plain one is decoded the same way whether a secret is given or not.\<close>

theorem secret_required:
  "(\<not> truthy secret \<and> pl_algorithm p \<noteq> PLAIN_MESSAGE_ALGORITHM \<longrightarrow>
      decodeMessagePayload wc secret p = Inl (Err (js ''room_secret_required'')))
   \<and> (\<not> truthy secret \<and> alg \<noteq> PLAIN_FILE_ALGORITHM \<longrightarrow>
      decodeFilePayload wc secret enc nonce type alg = Inl (Err (js ''room_secret_required'')))
   \<and> (pl_algorithm p = PLAIN_MESSAGE_ALGORITHM \<longrightarrow>
      decodeMessagePayload wc secret p = decodeMessagePayload wc None p)"
  by (simp add: decodeMessagePayload_def decodeFilePayload_def)

theorem secret_required_witness:
  "decodeMessagePayload sample_crypto (Some [])
     \<lparr>pl_ciphertext = [], pl_nonce = [], pl_algorithm = js ''AES-GCM-256'', pl_keyId = []\<rparr>
   = Inl (Err (js ''room_secret_required''))"
  using secret_required[of "Some []"
      "\<lparr>pl_ciphertext = [], pl_nonce = [], pl_algorithm = js ''AES-GCM-256'', pl_keyId = []\<rparr>" sample_crypto]
  by (simp add: PLAIN_MESSAGE_ALGORITHM_def)

lemma blob_type_octet: "blob_type OCTET_STREAM = OCTET_STREAM"
  by code_simp

text \<open>An encrypted file decrypts to the same bytes, with the type the message declares, or
  the generic type when it declares none.\<close>

theorem encrypted_file_roundtrip:
  assumes "aes_law wc" and "secret \<noteq> []"
  shows "\<exists>b n alg. encryptFile wc nonce secret file = Inr (b, n, alg) \<and> bl_type b = OCTET_STREAM \<and>
    decodeFilePayload wc (Some secret) b n type alg
      = Inr \<lparr>bl_bytes = file, bl_type = (if type = [] then OCTET_STREAM else blob_type type)\<rparr>"
proof -
  have d: "aes_decrypt wc key iv (wc_encrypt wc key iv bs) = Inr bs" for key iv bs
    using assms(1) by (simp add: aes_decrypt_def aes_law_def)
  have a: "js ''AES-GCM-256'' \<noteq> PLAIN_FILE_ALGORITHM"
    by (simp add: PLAIN_FILE_ALGORITHM_def)
  show ?thesis
    using a assms(2)
    by (simp add: encryptFile_def decodeFilePayload_def decryptFile_def Let_def d mk_blob_def or_str_def
        blob_type_octet)
qed

theorem encrypted_file_roundtrip_witness:
  "\<exists>b n alg. encryptFile sample_crypto [9] (js ''s'') [1, 2, 3] = Inr (b, n, alg) \<and> bl_type b = OCTET_STREAM \<and>
    decodeFilePayload sample_crypto (Some (js ''s'')) b n [] alg = Inr \<lparr>bl_bytes = [1, 2, 3], bl_type = OCTET_STREAM\<rparr>"
  using encrypted_file_roundtrip[OF sample_crypto_laws(1), of "js ''s''" "[9]" "[1, 2, 3]" "[]"] by simp

text \<open>User ids and key ids have a fixed shape: 22 and 16 URL-safe characters, whatever
  the name, key or secret.\<close>

theorem digest_shape:
  assumes "sha256_law wc"
  shows "\<exists>t k. digestID wc value = Inr t \<and> keyID wc value = Inr k \<and>
    length t = 22 \<and> length k = 16 \<and> list_all url_safe t \<and> list_all url_safe k"
proof -
  define u where "u = url_body (wc_sha256 wc (text_encode value))"
  have "length u = 43"
    using assms by (simp add: u_def length_url_body sha256_law_def)
  moreover have "list_all url_safe u"
    using url_body_safe by (simp add: u_def list_all_iff)
  ultimately show ?thesis
    by (auto simp: digestID_def keyID_def u_def[symmetric] list_all_iff dest!: in_set_takeD)
qed

theorem digest_shape_witness:
  "\<exists>t k. digestID sample_crypto (js ''x'') = Inr t \<and> keyID sample_crypto (js ''x'') = Inr k \<and>
    length t = 22 \<and> length k = 16 \<and> list_all url_safe t \<and> list_all url_safe k"
  by (rule digest_shape) (rule sample_crypto_laws)

end
