(* ===== verification/Uri.thy ===== *)
theory Uri
  imports Json
begin

text \<open>
  \<open>encodeURIComponent\<close> and \<open>decodeURIComponent\<close> of the language standard: the
  routes of the application and every path of the REST client are built with the
  first and read with the second.  Encoding raises \<open>URIError\<close> on a lone surrogate,
  decoding on a malformed escape.
\<close>

section \<open>Encoding\<close>

definition alnum :: "nat \<Rightarrow> bool" where
  "alnum n = ((48 \<le> n \<and> n \<le> 57) \<or> (65 \<le> n \<and> n \<le> 90) \<or> (97 \<le> n \<and> n \<le> 122))"

text \<open>Letters, digits and \<open>- _ . ! ~ * ' ( )\<close> stand for themselves.\<close>

definition uri_plain :: "nat \<Rightarrow> bool" where
  "uri_plain n = (alnum n \<or> n \<in> set [45, 95, 46, 33, 126, 42, 39, 40, 41])"

definition hexu :: "nat \<Rightarrow> code_unit" where
  "hexu n = (if n < 10 then of_nat (48 + n) else of_nat (55 + n))"

definition pct :: "byte \<Rightarrow> jstr" where
  "pct b = [37, hexu (unat b div 16), hexu (unat b mod 16)]"

definition uri_scalar :: "nat \<Rightarrow> jstr" where
  "uri_scalar n = (if uri_plain n then [of_nat n] else concat (map pct (utf8_bytes n)))"

definition encodeURIComponent :: "jstr \<Rightarrow> jstr result" where
  "encodeURIComponent s = (if well_formed s then Inr (concat (map uri_scalar (scalars s))) else Inl URIError)"

section \<open>Decoding\<close>

fun pct_octet :: "jstr \<Rightarrow> (byte \<times> jstr) option" where
  "pct_octet (p # a # b # r) =
     (if p = 37
      then (case (hexval a, hexval b) of (Some i, Some j) \<Rightarrow> Some (of_nat (i * 16 + j), r) | _ \<Rightarrow> None)
      else None)"
| "pct_octet _ = None"

fun pct_octets :: "nat \<Rightarrow> jstr \<Rightarrow> (byte list \<times> jstr) option" where
  "pct_octets 0 s = Some ([], s)"
| "pct_octets (Suc k) s =
     (case pct_octet s of
        None \<Rightarrow> None
      | Some (b, r) \<Rightarrow> map_option (\<lambda>(bs, q). (b # bs, q)) (pct_octets k r))"

definition octet_count :: "byte \<Rightarrow> nat" where
  "octet_count b = (let n = unat b in
     if n < 128 then 1 else if 192 \<le> n \<and> n < 224 then 2 else if 224 \<le> n \<and> n < 240 then 3
     else if 240 \<le> n \<and> n < 248 then 4 else 0)"

fun octets_scalar :: "nat list \<Rightarrow> nat" where
  "octets_scalar [a] = a"
| "octets_scalar [a, b] = (a - 192) * 64 + (b - 128)"
| "octets_scalar [a, b, c] = ((a - 224) * 64 + (b - 128)) * 64 + (c - 128)"
| "octets_scalar [a, b, c, d] = (((a - 240) * 64 + (b - 128)) * 64 + (c - 128)) * 64 + (d - 128)"
| "octets_scalar _ = 0"

text \<open>One escaped scalar value; octets that are not the UTF-8 of one are refused.\<close>

definition pct_scalar :: "jstr \<Rightarrow> (nat \<times> jstr) option" where
  "pct_scalar s =
     (case pct_octet s of
        None \<Rightarrow> None
      | Some (b, r) \<Rightarrow>
          if octet_count b = 0 then None
          else case pct_octets (octet_count b - 1) r of
            None \<Rightarrow> None
          | Some (bs, q) \<Rightarrow>
              (let n = octets_scalar (map unat (b # bs))
               in if scalar_ok n \<and> utf8_bytes n = b # bs then Some (n, q) else None))"

lemma pct_octet_shorter: "pct_octet s = Some (b, r) \<Longrightarrow> length r < length s"
  by (cases s rule: pct_octet.cases) (auto split: if_splits option.splits)

lemma pct_octets_shorter: "pct_octets k s = Some (bs, r) \<Longrightarrow> length r \<le> length s"
  by (induction k arbitrary: s bs) (fastforce split: option.splits dest: pct_octet_shorter)+

lemma pct_scalar_shorter: "pct_scalar s = Some (n, r) \<Longrightarrow> length r < length s"
  by (auto simp: pct_scalar_def Let_def split: option.splits if_splits
      dest!: pct_octet_shorter pct_octets_shorter)

function decodeURIComponent :: "jstr \<Rightarrow> jstr result" where
  "decodeURIComponent [] = Inr []"
| "decodeURIComponent (c # cs) =
     (if c \<noteq> 37 then bindR (decodeURIComponent cs) (\<lambda>t. Inr (c # t))
      else case pct_scalar (c # cs) of
        None \<Rightarrow> Inl URIError
      | Some (n, r) \<Rightarrow> bindR (decodeURIComponent r) (\<lambda>t. Inr (units_of_scalar n @ t)))"
  by pat_completeness auto
termination
  by (relation "measure length") (auto dest: pct_scalar_shorter)

section \<open>Decoding inverts encoding\<close>

lemma hexval_hexu: "n < 16 \<Longrightarrow> hexval (hexu n) = Some n"
proof -
  have "\<forall>n\<in>set [0..<16]. hexval (hexu n) = Some n" by code_simp
  then show "n < 16 \<Longrightarrow> hexval (hexu n) = Some n" by auto
qed

lemma pct_octet_pct: "pct_octet (pct b @ r) = Some (b, r)"
proof -
  have "unat b div 16 < 16" using unat_byte_less[of b] by auto
  moreover have "unat b div 16 * 16 + unat b mod 16 = unat b" by simp
  ultimately show ?thesis
    by (simp add: pct_def hexval_hexu del: div_mult_mod_eq of_nat_add)
qed

lemma pct_octets_pct: "pct_octets (length bs) (concat (map pct bs) @ r) = Some (bs, r)"
  by (induction bs) (simp_all add: pct_octet_pct)

lemma continuation_byte: "unat (of_nat (128 + m mod 64) :: byte) = 128 + m mod 64"
  by (rule unat_byte_of_nat) (use mod_less_divisor[of 64 m] in linarith)

lemma num_mult_64: "64 * 4096 = (262144 :: nat)"
  by simp

lemma utf8_bytes_shape:
  assumes "n < 1114112"
  shows "\<exists>b bs. utf8_bytes n = b # bs \<and> octet_count b = Suc (length bs) \<and>
    octets_scalar (map unat (b # bs)) = n"
proof -
  have d: "n div 4096 * 4096 + n div 64 mod 64 * 64 + n mod 64 = n"
  proof -
    have "n div 4096 * 4096 + n div 64 mod 64 * 64 = (n div 4096 * 64 + n div 64 mod 64) * 64" by simp
    also have "\<dots> = n div 64 * 64" by (simp only: split_64)
    finally show ?thesis by simp
  qed
  show ?thesis
  proof (cases "n < 128")
    case True
    then show ?thesis by (simp add: utf8_bytes_def octet_count_def Let_def unat_byte_of_nat)
  next
    case False
    note f1 = this
    show ?thesis
    proof (cases "n < 2048")
      case True
      then have "n div 64 < 32" by auto
      with f1 True show ?thesis
        by (simp add: utf8_bytes_def octet_count_def Let_def unat_byte_of_nat continuation_byte del: of_nat_add)
    next
      case False
      note f2 = this
      show ?thesis
      proof (cases "n < 65536")
        case True
        then have "n div 4096 < 16" by auto
        then show ?thesis using f1 f2 True d split_64[of n]
          by (simp add: utf8_bytes_def octet_count_def Let_def unat_byte_of_nat continuation_byte del: of_nat_add)
      next
        case False
        have "n div 262144 < 8" using assms by auto
        moreover have "n div 262144 * 262144 + n div 4096 mod 64 * 4096 = n div 4096 * 4096"
          using split_4096[of n] by (metis (no_types) add_mult_distrib mult.assoc num_mult_64)
        ultimately show ?thesis using f1 f2 False d
          by (simp add: utf8_bytes_def octet_count_def Let_def unat_byte_of_nat continuation_byte del: of_nat_add)
      qed
    qed
  qed
qed

lemma pct_scalar_bytes: "scalar_ok n \<Longrightarrow> pct_scalar (concat (map pct (utf8_bytes n)) @ r) = Some (n, r)"
proof -
  assume n: "scalar_ok n"
  then obtain b bs where b: "utf8_bytes n = b # bs" "octet_count b = Suc (length bs)"
    "octets_scalar (map unat (b # bs)) = n"
    using utf8_bytes_shape[of n] by (auto simp: scalar_ok_def)
  with n show ?thesis
    by (simp add: pct_scalar_def pct_octet_pct pct_octets_pct)
qed

lemma uri_plain_ascii: "uri_plain n \<Longrightarrow> n < 128 \<and> n \<noteq> 37"
  by (auto simp: uri_plain_def alnum_def)

lemma pct_bytes_hd: "scalar_ok n \<Longrightarrow> \<exists>t. concat (map pct (utf8_bytes n)) = 37 # t"
  using utf8_bytes_shape[of n] by (auto simp: scalar_ok_def pct_def)

lemma decode_uri_scalar:
  assumes "scalar_ok n"
  shows "decodeURIComponent (uri_scalar n @ s) = bindR (decodeURIComponent s) (\<lambda>t. Inr (units_of_scalar n @ t))"
proof (cases "uri_plain n")
  case True
  then have n: "n < 128" "n \<noteq> 37" using uri_plain_ascii by auto
  then have "(of_nat n :: code_unit) \<noteq> 37"
    using unat_unit_of_nat[of n] by auto
  with n True show ?thesis
    by (simp add: uri_scalar_def units_of_scalar_def)
next
  case False
  obtain t where t: "concat (map pct (utf8_bytes n)) = 37 # t"
    using pct_bytes_hd[OF assms] by blast
  have "pct_scalar (37 # t @ s) = Some (n, s)"
    using pct_scalar_bytes[OF assms, of s] t by simp
  with False t show ?thesis by (simp add: uri_scalar_def)
qed

lemma decode_uri_scalars:
  "list_all scalar_ok ns \<Longrightarrow>
   decodeURIComponent (concat (map uri_scalar ns)) = Inr (concat (map units_of_scalar ns))"
  by (induction ns) (simp_all add: decode_uri_scalar)

lemma encode_then_decode:
  assumes "well_formed s"
  shows "bindR (encodeURIComponent s) decodeURIComponent = Inr s"
proof -
  have "list_all scalar_ok (scalars s)" using scalars_ok by (simp add: list_all_iff)
  with assms show ?thesis
    by (simp add: encodeURIComponent_def decode_uri_scalars units_of_scalars)
qed

interpretation uri: codec encodeURIComponent decodeURIComponent well_formed
  by unfold_locales (use encode_then_decode in \<open>force simp: bindR_eq_Inr\<close>)

section \<open>What an encoded component can hold\<close>

definition uri_unit :: "code_unit \<Rightarrow> bool" where
  "uri_unit c = (uri_plain (unat c) \<or> c = 37)"

lemma hexu_plain: "n < 16 \<Longrightarrow> uri_unit (hexu n)"
proof -
  have "\<forall>n\<in>set [0..<16]. uri_unit (hexu n)" by code_simp
  then show "n < 16 \<Longrightarrow> uri_unit (hexu n)" by auto
qed

lemma pct_units: "list_all uri_unit (pct b)"
proof -
  have "unat b div 16 < 16" using unat_byte_less[of b] by auto
  then show ?thesis by (simp add: pct_def hexu_plain) (simp add: uri_unit_def)
qed

lemma uri_scalar_units: "c \<in> set (uri_scalar n) \<Longrightarrow> uri_unit c"
proof (cases "uri_plain n")
  case True
  then have "unat (of_nat n :: code_unit) = n" using uri_plain_ascii by (intro unat_unit_of_nat) force
  with True show "c \<in> set (uri_scalar n) \<Longrightarrow> uri_unit c" by (simp add: uri_scalar_def uri_unit_def)
next
  case False
  then show "c \<in> set (uri_scalar n) \<Longrightarrow> uri_unit c"
    using pct_units by (auto simp: uri_scalar_def list_all_iff)
qed

lemma encode_units: "encodeURIComponent s = Inr t \<Longrightarrow> c \<in> set t \<Longrightarrow> uri_unit c"
  by (auto simp: encodeURIComponent_def uri_scalar_units split: if_splits)

lemma encode_no_delimiter:
  "encodeURIComponent s = Inr t \<Longrightarrow> 47 \<notin> set t \<and> 63 \<notin> set t \<and> 35 \<notin> set t"
  using encode_units[of s t 47] encode_units[of s t 63] encode_units[of s t 35]
  by (auto simp: uri_unit_def uri_plain_def alnum_def)

lemma encode_nonempty: "encodeURIComponent s = Inr t \<Longrightarrow> s \<noteq> [] \<Longrightarrow> t \<noteq> []"
proof -
  assume e: "encodeURIComponent s = Inr t" and s: "s \<noteq> []"
  have "uri_scalar n \<noteq> []" if "scalar_ok n" for n
    using pct_bytes_hd[OF that] by (auto simp: uri_scalar_def simp del: concat_eq_Nil_conv)
  moreover have "scalars s \<noteq> []" using s by (cases s rule: scalars.cases) auto
  ultimately show "t \<noteq> []"
    using e scalars_ok[of _ s] by (cases "scalars s") (auto simp: encodeURIComponent_def split: if_splits)
qed

section \<open>Decoding piece by piece\<close>

lemma pct_octet_append: "pct_octet s = Some (b, r) \<Longrightarrow> pct_octet (s @ t) = Some (b, r @ t)"
  by (cases s rule: pct_octet.cases) (auto split: if_splits option.splits)

lemma pct_octets_append: "pct_octets k s = Some (bs, r) \<Longrightarrow> pct_octets k (s @ t) = Some (bs, r @ t)"
proof (induction k arbitrary: s bs)
  case (Suc k)
  then obtain b q bs' where "pct_octet s = Some (b, q)" "pct_octets k q = Some (bs', r)" "bs = b # bs'"
    by (auto split: option.splits)
  with Suc.IH[of q bs'] show ?case by (simp add: pct_octet_append)
qed simp

lemma pct_scalar_append:
  assumes "pct_scalar s = Some (n, r)"
  shows "pct_scalar (s @ t) = Some (n, r @ t)"
proof -
  from assms obtain b q where b: "pct_octet s = Some (b, q)" "octet_count b \<noteq> 0"
    by (auto simp: pct_scalar_def split: option.splits if_splits)
  with assms obtain bs where bs: "pct_octets (octet_count b - 1) q = Some (bs, r)"
    by (auto simp: pct_scalar_def Let_def split: option.splits if_splits)
  with b assms show ?thesis
    using pct_octet_append[OF b(1), of t] pct_octets_append[OF bs, of t]
    by (simp add: pct_scalar_def Let_def split: if_splits)
qed

lemma decode_append:
  "decodeURIComponent s = Inr x \<Longrightarrow> decodeURIComponent (s @ t) = bindR (decodeURIComponent t) (\<lambda>y. Inr (x @ y))"
proof (induction s arbitrary: x rule: decodeURIComponent.induct)
  case 1
  then show ?case by (cases "decodeURIComponent t") simp_all
next
  case (2 c cs)
  show ?case
  proof (cases "c = 37")
    case False
    with 2 show ?thesis by (cases "decodeURIComponent t") (auto simp: bindR_eq_Inr)
  next
    case True
    with "2.prems" obtain n r y where n: "pct_scalar (c # cs) = Some (n, r)" "decodeURIComponent r = Inr y"
      "x = units_of_scalar n @ y"
      by (auto simp: bindR_eq_Inr split: option.splits)
    with pct_scalar_append[OF n(1), of t] "2.IH"(2) [OF _ n(1) refl n(2)] True show ?thesis
      by (cases "decodeURIComponent t") simp_all
  qed
qed

lemma decode_Nil: "decodeURIComponent s = Inr [] \<Longrightarrow> s = []"
  by (cases s) (auto simp: bindR_eq_Inr units_of_scalar_def Let_def split: if_splits option.splits)

end
