(* ===== verification/Messenger.thy ===== *)
theory Messenger
  imports Crypto Uri
begin

text \<open>
  \<open>types/messenger.ts\<close> and the data types of \<open>lib/api.ts\<close> it is written over: the
  messages before and after decryption, the realtime events, invite tokens, the
  formatting helpers and the routes, with the route reader of
  \<open>components/MessengerApp.tsx\<close>.  \<open>Date.parse\<close> is the argument \<open>dp\<close>, None for NaN.
\<close>

section \<open>Messages\<close>

record reaction =
  re_emoji :: jstr
  re_count :: int

record read_receipt =
  rc_userId :: jstr
  rc_readAt :: jstr

record encrypted_message =
  em_id :: jstr
  em_roomId :: jstr
  em_senderId :: jstr
  em_ciphertext :: jstr
  em_nonce :: jstr
  em_algorithm :: jstr
  em_keyId :: jstr
  em_createdAt :: jstr
  em_editedAt :: "jstr option"
  em_deletedAt :: "jstr option"
  em_readBy :: "jstr list option"
  em_readReceipts :: "read_receipt list option"
  em_read :: "bool option"
  em_reactions :: "reaction list option"

datatype message_status = Sending | Sent | Read | Failed

record decrypted_message =
  dm_id :: jstr
  dm_roomId :: jstr
  dm_senderId :: jstr
  dm_body :: "plain_message option"
  dm_createdAt :: jstr
  dm_editedAt :: "jstr option"
  dm_deletedAt :: "jstr option"
  dm_readBy :: "jstr list option"
  dm_readReceipts :: "read_receipt list option"
  dm_read :: "bool option"
  dm_reactions :: "reaction list option"
  dm_status :: "message_status option"
  dm_failed :: "bool option"

record message_draft =
  md_clientId :: jstr
  md_roomId :: jstr
  md_text :: jstr
  md_file :: "(jstr \<times> blob) option"
  md_createdAt :: jstr
  md_replyTo :: "reply_ref option"

section \<open>Realtime events\<close>

record call_offer =
  co_callId :: jstr
  co_roomId :: jstr
  co_fromUserId :: jstr
  co_toUserId :: jstr
  co_displayName :: jstr

record call_ref =
  cr_callId :: jstr
  cr_roomId :: jstr
  cr_fromUserId :: jstr
  cr_toUserId :: jstr

datatype presence_status = Online | Offline

datatype decline_reason = Busy | DeclinedByUser

datatype realtime_event =
    EvTyping (ev_userId: jstr) jstr bool jstr
  | EvPresence (ev_userId: jstr) jstr presence_status jstr "bool option"
  | EvProfileUpdated (ev_userId: jstr) jstr "jstr option"
  | EvChatsChanged "jstr option" "jstr option" jstr
  | EvRoomsChanged "jstr option" "jstr option" jstr
  | EvFriendsChanged "jstr option" jstr
  | EvSessionsChanged "jstr option" jstr
  | EvSessionRevoked "jstr option" "jstr option" jstr
  | EvMessageRead jstr jstr jstr
  | EvMessageCreated jstr jstr jstr jstr
  | EvCallOffer call_offer
  | EvCallAnswer call_ref
  | EvCallIce call_ref json
  | EvCallAudio call_ref jstr int
  | EvCallHangup call_ref
  | EvCallDecline call_ref "decline_reason option"

datatype call_state = CIdle | CCalling | CRinging | CConnecting | CConnected | CFailed

datatype app_view = VChat | VRooms | VProfile | VContacts | VSettings | VCalls

section \<open>Storage keys and formatting\<close>

definition ROOM_SECRETS_KEY :: jstr where
  "ROOM_SECRETS_KEY = js ''zk.roomSecrets.v1''"

definition LOCAL_DELETED_MESSAGES_KEY :: jstr where
  "LOCAL_DELETED_MESSAGES_KEY = js ''quietline.deletedMessages.v1''"

definition MAX_FILE_BYTES :: nat where
  "MAX_FILE_BYTES = 100 * 1024 * 1024"

definition accountScopedKey :: "jstr \<Rightarrow> jstr \<Rightarrow> jstr" where
  "accountScopedKey base accountId = base @ js ''.'' @ accountId"

type_synonym storage = "jstr \<Rightarrow> jstr option"

text \<open>A missing, empty or malformed entry reads as null.\<close>

definition readStoredJSON :: "storage \<Rightarrow> jstr \<Rightarrow> json option" where
  "readStoredJSON ls key =
     (let raw = ls key
      in if truthy raw then (case json_parse (the raw) of Inr v \<Rightarrow> Some v | Inl _ \<Rightarrow> None) else None)"

definition maskedRoomId :: "jstr \<Rightarrow> jstr" where
  "maskedRoomId roomId =
     (if length roomId \<le> 8 then replicate (length roomId) 42
      else js_slice 0 4 roomId @ replicate (min 14 (length roomId - 8)) 42 @ js_last 4 roomId)"

text \<open>\<open>x.toFixed(1)\<close> of the exact quotient \<open>bytes / 2^20\<close>: the nearest tenth, ties up.\<close>

definition formatBytes :: "nat \<Rightarrow> jstr" where
  "formatBytes bytes =
     (if 1024 * 1024 \<le> bytes
      then (let tenths = (bytes * 20 + 1024 * 1024) div (2 * 1024 * 1024)
            in digits_of (tenths div 10) @ js ''.'' @ digits_of (tenths mod 10) @ js '' MB'')
      else if 1024 \<le> bytes then digits_of ((bytes + 1023) div 1024) @ js '' KB''
      else digits_of bytes @ js '' B'')"

definition formatLastSeen :: "(jstr \<Rightarrow> jstr) \<Rightarrow> jstr option \<Rightarrow> jstr" where
  "formatLastSeen toLocaleString value = (if truthy value then toLocaleString (the value) else [])"

definition messageVersion :: "(jstr \<Rightarrow> int option) \<Rightarrow> jstr option \<Rightarrow> jstr option \<Rightarrow> jstr \<Rightarrow> int option" where
  "messageVersion dp deletedAt editedAt createdAt = dp (or_opt deletedAt (or_opt editedAt createdAt))"

definition reactionSignature :: "reaction list option \<Rightarrow> jstr" where
  "reactionSignature reactions =
     js_join (js ''|'') (map (\<lambda>r. re_emoji r @ js '':'' @ js_of_int (re_count r)) (nullish reactions []))"

definition isPersistedMessageID :: "jstr \<Rightarrow> bool" where
  "isPersistedMessageID messageID = (\<not> js_starts (js ''local-'') messageID)"

section \<open>Invite tokens\<close>

text \<open>The members of a decoded payload are taken as they are, whatever their JSON type;
  \<open>json_truthy\<close> is the truth value of a JSON value.\<close>

record invite_payload =
  ip_roomId :: json
  ip_secret :: json

fun json_truthy :: "json \<Rightarrow> bool" where
  "json_truthy JNull = False"
| "json_truthy (JBool b) = b"
| "json_truthy (JInt i) = (i \<noteq> 0)"
| "json_truthy (JNum l) = list_ex (\<lambda>c. is_digit c \<and> c \<noteq> 48) (takeWhile (\<lambda>c. c \<noteq> 101 \<and> c \<noteq> 69) l)"
| "json_truthy (JStr s) = (s \<noteq> [])"
| "json_truthy _ = True"

text \<open>\<open>payload.k\<close>: null throws, a value without the member gives undefined.\<close>

fun json_member :: "jstr \<Rightarrow> json \<Rightarrow> json option result" where
  "json_member k JNull = Inl TypeError"
| "json_member k (JObj kvs) = Inr (jfield k kvs)"
| "json_member k _ = Inr None"

definition INVITE_PREFIX :: jstr where
  "INVITE_PREFIX = js ''ql_''"

definition invite_json :: "jstr \<Rightarrow> jstr \<Rightarrow> json" where
  "invite_json roomId secret =
     JObj [(js ''roomId'', JStr roomId), (js ''secret'', JStr secret), (js ''version'', JInt 1)]"

definition createInviteToken :: "jstr \<Rightarrow> jstr \<Rightarrow> jstr result" where
  "createInviteToken roomId secret =
     bindR (base64UrlEncode (stringify (invite_json roomId secret))) (\<lambda>t. Inr (INVITE_PREFIX @ t))"

definition invite_of_json :: "json \<Rightarrow> invite_payload option result" where
  "invite_of_json payload =
     bindR (json_member (js ''roomId'') payload) (\<lambda>r.
     bindR (json_member (js ''secret'') payload) (\<lambda>s.
     Inr (case (r, s) of
            (Some roomId, Some secret) \<Rightarrow>
              if json_truthy roomId \<and> json_truthy secret
              then Some \<lparr>ip_roomId = roomId, ip_secret = secret\<rparr> else None
          | _ \<Rightarrow> None)))"

definition parseInviteToken :: "jstr \<Rightarrow> invite_payload option" where
  "parseInviteToken value =
     (let trimmed = js_trim value
      in if trimmed = [] then None
         else if js_starts INVITE_PREFIX trimmed then
           (case bindR (base64UrlDecode (drop (length INVITE_PREFIX) trimmed)) (\<lambda>t.
                 bindR (json_parse t) invite_of_json) of
              Inr p \<Rightarrow> p
            | Inl _ \<Rightarrow> None)
         else (case js_split 58 trimmed of
                 roomId # secret # _ \<Rightarrow>
                   if roomId \<noteq> [] \<and> secret \<noteq> []
                   then Some \<lparr>ip_roomId = JStr roomId, ip_secret = JStr secret\<rparr> else None
               | _ \<Rightarrow> None))"

section \<open>Routes\<close>

record app_route =
  ar_view :: "app_view option"
  ar_roomId :: "jstr option"
  ar_messageId :: "jstr option"

definition buildAppPath :: "bool \<Rightarrow> app_route \<Rightarrow> jstr result" where
  "buildAppPath hasWindow options =
     (if \<not> hasWindow then Inr (js ''/'')
      else let view = nullish (ar_view options) VRooms
      in if view = VProfile \<or> view = VSettings then Inr (js ''/profile'')
      else if view = VChat \<and> truthy (ar_roomId options) then
        bindR (encodeURIComponent (the (ar_roomId options))) (\<lambda>r.
          let chatPath = js ''/chats/'' @ r
          in if truthy (ar_messageId options)
             then bindR (encodeURIComponent (the (ar_messageId options)))
                    (\<lambda>m. Inr (chatPath @ js ''/messages/'' @ m))
             else Inr chatPath)
      else Inr (js ''/chats''))"

text \<open>A URL that is parsed has its dot segments resolved: the path of \<open>new URL(path, origin)\<close>, of a
  replaced history entry and of a \<open>fetch\<close>.  (Escaped dots, which a URL resolves too, do not occur in the
  paths built here: \<open>encodeURIComponent\<close> escapes the percent sign.)\<close>

fun url_segments :: "jstr list \<Rightarrow> jstr list \<Rightarrow> jstr list" where
  "url_segments acc [] = rev acc"
| "url_segments acc (p # ps) =
     (if p = js ''..'' then url_segments (if ps = [] then [] # tl acc else tl acc) ps
      else if p = js ''.'' then url_segments (if ps = [] then [] # acc else acc) ps
      else url_segments (p # acc) ps)"

definition resolve_path :: "jstr \<Rightarrow> jstr" where
  "resolve_path p = js ''/'' @ js_join (js ''/'') (url_segments [] (js_split 47 (tl p)))"

definition buildAppURL :: "bool \<Rightarrow> jstr \<Rightarrow> app_route \<Rightarrow> jstr result" where
  "buildAppURL hasWindow origin options =
     (if \<not> hasWindow then Inr []
      else bindR (buildAppPath hasWindow options) (\<lambda>p. Inr (origin @ resolve_path p)))"

text \<open>The path of the page after the history entry is replaced, None when nothing is done;
  \<open>history.replaceState\<close> resolves dot segments as \<open>new URL\<close> does.\<close>

definition replaceAppURL :: "bool \<Rightarrow> app_route \<Rightarrow> jstr option result" where
  "replaceAppURL hasWindow options =
     (if \<not> hasWindow then Inr None
      else bindR (buildAppPath hasWindow options) (\<lambda>p. Inr (Some (resolve_path p))))"

definition view_name :: "app_view \<Rightarrow> jstr" where
  "view_name v = (case v of VChat \<Rightarrow> js ''chat'' | VRooms \<Rightarrow> js ''rooms'' | VProfile \<Rightarrow> js ''profile''
     | VContacts \<Rightarrow> js ''contacts'' | VSettings \<Rightarrow> js ''settings'' | VCalls \<Rightarrow> js ''calls'')"

definition APP_VIEWS :: "app_view list" where
  "APP_VIEWS = [VChat, VRooms, VProfile, VContacts, VSettings]"

definition appViewFromParam :: "jstr option \<Rightarrow> app_view" where
  "appViewFromParam value =
     (if value = Some (js ''chats'') then VRooms
      else case find (\<lambda>v. Some (view_name v) = value) APP_VIEWS of Some v \<Rightarrow> v | None \<Rightarrow> VRooms)"

fun mapR :: "('a \<Rightarrow> 'b result) \<Rightarrow> 'a list \<Rightarrow> 'b list result" where
  "mapR f [] = Inr []"
| "mapR f (x # xs) = bindR (f x) (\<lambda>y. bindR (mapR f xs) (\<lambda>ys. Inr (y # ys)))"

definition nth_opt :: "'a list \<Rightarrow> nat \<Rightarrow> 'a option" where
  "nth_opt xs i = (if i < length xs then Some (xs ! i) else None)"

definition appRouteFromPath :: "jstr \<Rightarrow> app_route result" where
  "appRouteFromPath pathname =
     bindR (mapR decodeURIComponent (filter (\<lambda>p. p \<noteq> []) (js_split 47 pathname))) (\<lambda>parts.
     Inr (if nth_opt parts 0 = Some (js ''profile'')
          then \<lparr>ar_view = Some VSettings, ar_roomId = None, ar_messageId = None\<rparr>
          else if nth_opt parts 0 \<noteq> Some (js ''chats'')
          then \<lparr>ar_view = None, ar_roomId = None, ar_messageId = None\<rparr>
          else let roomId = nth_opt parts 1
               in \<lparr>ar_view = Some (if truthy roomId then VChat else VRooms), ar_roomId = roomId,
                   ar_messageId = (if nth_opt parts 2 = Some (js ''messages'') then nth_opt parts 3 else None)\<rparr>))"


section \<open>Invites and routes are read back\<close>

lemma js_trim_pad:
  assumes "list_all js_space a" "list_all js_space b" "js_trim t = t"
  shows "js_trim (a @ t @ b) = t"
proof (cases "t = []")
  case True
  have "\<forall>c \<in> set (a @ b). js_space c"
    using assms by (auto simp: list_all_iff)
  then have "dropWhile js_space (a @ b) = []"
    by (simp only: dropWhile_eq_Nil_conv)
  with True show ?thesis by (simp only: js_trim_def append_Nil) simp
next
  case False
  from assms(1) have d: "dropWhile js_space (a @ t @ b) = dropWhile js_space (t @ b)"
    by (induction a) auto
  have n: "\<not> js_space (hd t)" "\<not> js_space (last t)"
  proof -
    have "length (dropWhile js_space t) = length t"
    proof (rule le_antisym)
      have "length t = length (js_trim t)" using assms(3) by simp
      also have "\<dots> \<le> length (dropWhile js_space t)"
        using length_dropWhile_le[of js_space "rev (dropWhile js_space t)"] by (simp add: js_trim_def)
      finally show "length t \<le> length (dropWhile js_space t)" .
    qed (rule length_dropWhile_le)
    then show h: "\<not> js_space (hd t)"
      using False length_dropWhile_le[of js_space "tl t"] by (cases t) (auto split: if_splits)
    have "dropWhile js_space t = t" using h False by (cases t) auto
    with assms(3) have "dropWhile js_space (rev t) = rev t"
      by (simp add: js_trim_def) (metis rev_rev_ident)
    then have "\<not> js_space (hd (rev t))"
      using False by (metis dropWhile_eq_self_iff rev_is_Nil_conv)
    then show "\<not> js_space (last t)" using False by (simp add: hd_rev)
  qed
  have "dropWhile js_space (t @ b) = t @ b" using n(1) False by (cases t) auto
  moreover have "dropWhile js_space (rev b @ rev t) = rev t"
  proof -
    have "dropWhile js_space (rev b @ rev t) = dropWhile js_space (rev t)"
      by (rule dropWhile_append2) (use assms(2) in \<open>auto simp: list_all_iff\<close>)
    also have "\<dots> = rev t"
      using n(2) False by (cases t rule: rev_cases) auto
    finally show ?thesis .
  qed
  ultimately show ?thesis by (simp add: js_trim_def d)
qed

lemma url_safe_not_space: "url_safe c \<Longrightarrow> \<not> js_space c"
  by (auto simp: url_safe_def js_space_def Let_def)

lemma invite_token_eq:
  "createInviteToken roomId secret = Inr (INVITE_PREFIX @ url_body (text_encode (stringify (invite_json roomId secret))))"
  by (simp add: createInviteToken_def base64UrlEncode_eq toBase64URL_def)

lemma trim_token: "js_trim (INVITE_PREFIX @ url_body bs) = INVITE_PREFIX @ url_body bs"
proof (rule js_trim_id)
  show "\<not> js_space (hd (INVITE_PREFIX @ url_body bs))"
    by (simp add: INVITE_PREFIX_def js_lit js_space_def Let_def)
  show "\<not> js_space (last (INVITE_PREFIX @ url_body bs))"
  proof (cases "url_body bs = []")
    case True
    then show ?thesis by (simp add: INVITE_PREFIX_def js_lit js_space_def Let_def)
  next
    case False
    then show ?thesis using url_body_safe[of "last (url_body bs)" bs] url_safe_not_space by auto
  qed
qed (simp add: INVITE_PREFIX_def js_lit)

lemma invite_json_ok: "json_ok (invite_json roomId secret)"
  by (simp add: invite_json_def max_safe_def)

lemma invite_of_invite_json:
  "roomId \<noteq> [] \<Longrightarrow> secret \<noteq> [] \<Longrightarrow>
   invite_of_json (invite_json roomId secret) = Inr (Some \<lparr>ip_roomId = JStr roomId, ip_secret = JStr secret\<rparr>)"
  by (simp add: invite_json_def invite_of_json_def jfield_Cons)

text \<open>C40. An invite token is read back to the room and secret it was made from, whatever
  characters they hold and whatever white space the user pastes around it.\<close>

theorem invite_roundtrip:
  assumes "roomId \<noteq> []" "secret \<noteq> []" "list_all js_space before" "list_all js_space after"
  shows "\<exists>token. createInviteToken roomId secret = Inr token \<and>
    parseInviteToken (before @ token @ after) = Some \<lparr>ip_roomId = JStr roomId, ip_secret = JStr secret\<rparr>"
proof -
  define body where "body = stringify (invite_json roomId secret)"
  have t: "bindR (base64UrlDecode (url_body (text_encode body))) (\<lambda>t. bindR (json_parse t) invite_of_json)
      = Inr (Some \<lparr>ip_roomId = JStr roomId, ip_secret = JStr secret\<rparr>)"
    using invite_of_invite_json[OF assms(1,2)] invite_json_ok[of roomId secret]
    by (simp add: base64UrlDecode_eq body_def text_decode_encode stringify_well_formed stringify_no_bom
        json_parse_stringify)
  have "js_trim (before @ (INVITE_PREFIX @ url_body (text_encode body)) @ after)
      = INVITE_PREFIX @ url_body (text_encode body)"
    using js_trim_pad[OF assms(3,4) trim_token] .
  moreover have "INVITE_PREFIX \<noteq> []" by (simp add: INVITE_PREFIX_def)
  ultimately show ?thesis
    using t by (simp add: invite_token_eq body_def[symmetric] parseInviteToken_def Let_def)
qed

theorem invite_roundtrip_witness:
  "\<exists>token. createInviteToken (js ''r1'') (js ''s:2'') = Inr token \<and>
    parseInviteToken (js '' '' @ token @ [10]) = Some \<lparr>ip_roomId = JStr (js ''r1''), ip_secret = JStr (js ''s:2'')\<rparr>"
  by (rule invite_roundtrip) (simp_all add: js_lit js_space_def)

text \<open>What \<open>parseInviteToken\<close> accepts has a truthy room id and secret; the old
  \<open>roomId:secret\<close> form is read when neither part is empty or padded and the id has no colon.\<close>

theorem invite_accepts:
  "(parseInviteToken value = Some p \<longrightarrow> json_truthy (ip_roomId p) \<and> json_truthy (ip_secret p))
   \<and> (roomId \<noteq> [] \<and> secret \<noteq> [] \<and> 58 \<notin> set roomId \<and> 58 \<notin> set secret \<and> js_trim roomId = roomId
      \<and> \<not> js_space (hd roomId) \<and> \<not> js_space (last secret) \<and> \<not> js_starts INVITE_PREFIX (roomId @ 58 # secret)
      \<longrightarrow> parseInviteToken (roomId @ 58 # secret) = Some \<lparr>ip_roomId = JStr roomId, ip_secret = JStr secret\<rparr>)"
proof (intro conjI impI)
  assume "parseInviteToken value = Some p"
  then show "json_truthy (ip_roomId p)" "json_truthy (ip_secret p)"
    by (auto simp: parseInviteToken_def invite_of_json_def bindR_def Let_def
        split: if_splits sum.splits list.splits option.splits)
next
  assume h: "roomId \<noteq> [] \<and> secret \<noteq> [] \<and> 58 \<notin> set roomId \<and> 58 \<notin> set secret \<and> js_trim roomId = roomId
      \<and> \<not> js_space (hd roomId) \<and> \<not> js_space (last secret) \<and> \<not> js_starts INVITE_PREFIX (roomId @ 58 # secret)"
  then have "js_trim (roomId @ 58 # secret) = roomId @ 58 # secret"
    by (intro js_trim_id) auto
  with h show "parseInviteToken (roomId @ 58 # secret) = Some \<lparr>ip_roomId = JStr roomId, ip_secret = JStr secret\<rparr>"
    by (simp add: parseInviteToken_def Let_def js_split_append js_split_no_sep)
qed

theorem invite_accepts_witness:
  "parseInviteToken (js ''a'' @ 58 # js ''b'') = Some \<lparr>ip_roomId = JStr (js ''a''), ip_secret = JStr (js ''b'')\<rparr>"
  using invite_accepts[of "[]" "\<lparr>ip_roomId = JNull, ip_secret = JNull\<rparr>" "js ''a''" "js ''b''"]
  by (simp add: js_lit js_space_def js_trim_def js_starts_def INVITE_PREFIX_def)

text \<open>The mask of a room id shows at most its first and last four characters and never
  more than 22: two ids of the same length that agree there have the same mask, and of an id of
  at most eight characters only the length shows.\<close>

theorem mask_hides:
  "length (maskedRoomId a) \<le> 22
   \<and> (length a = length b \<and> (length a \<le> 8 \<or> take 4 a = take 4 b \<and> js_last 4 a = js_last 4 b)
      \<longrightarrow> maskedRoomId a = maskedRoomId b)"
  by (auto simp: maskedRoomId_def js_slice_def length_js_last)

theorem mask_hides_witness:
  "maskedRoomId (js ''room-secret-0042'') = maskedRoomId (js ''room-public-0042'')"
  using mask_hides[of "js ''room-secret-0042''" "js ''room-public-0042''"]
  by (simp add: js_lit js_last_def)

lemma decode_plain: "37 \<notin> set s \<Longrightarrow> decodeURIComponent s = Inr s"
  by (induction s) auto

lemma decode_literals:
  "decodeURIComponent (js ''chats'') = Inr (js ''chats'')"
  "decodeURIComponent (js ''messages'') = Inr (js ''messages'')"
  by (rule decode_plain; simp add: js_lit)+

lemma split_path:
  assumes "47 \<notin> set a" "47 \<notin> set b"
  shows "js_split 47 (js ''/chats/'' @ a) = [[], js ''chats'', a]"
    and "js_split 47 (js ''/chats/'' @ a @ js ''/messages/'' @ b) = [[], js ''chats'', a, js ''messages'', b]"
proof -
  have c: "47 \<notin> set (js ''chats'')" "47 \<notin> set (js ''messages'')" by (simp_all add: js_lit)
  have p: "js ''/chats/'' = 47 # js ''chats'' @ [47]" "js ''/messages/'' = 47 # js ''messages'' @ [47]"
    by (simp_all add: js_lit)
  show "js_split 47 (js ''/chats/'' @ a) = [[], js ''chats'', a]"
    using assms c by (simp add: p js_split_append js_split_no_sep)
  show "js_split 47 (js ''/chats/'' @ a @ js ''/messages/'' @ b) = [[], js ''chats'', a, js ''messages'', b]"
    using assms c by (simp add: p js_split_append js_split_no_sep)
qed

lemma route_back:
  assumes "roomId \<noteq> []" "well_formed roomId" "well_formed messageId"
  shows "bindR (buildAppPath True \<lparr>ar_view = Some VChat, ar_roomId = Some roomId, ar_messageId = nonempty messageId\<rparr>)
      appRouteFromPath
    = Inr \<lparr>ar_view = Some VChat, ar_roomId = Some roomId, ar_messageId = nonempty messageId\<rparr>"
proof -
  obtain r m where r: "encodeURIComponent roomId = Inr r" "decodeURIComponent r = Inr roomId"
    and m: "encodeURIComponent messageId = Inr m" "decodeURIComponent m = Inr messageId"
    using uri.enc_dec assms by metis
  have n: "r \<noteq> []" "messageId \<noteq> [] \<Longrightarrow> m \<noteq> []" "47 \<notin> set r" "47 \<notin> set m"
    using encode_nonempty encode_no_delimiter r(1) m(1) assms(1) by blast+
  have ne: "js ''chats'' \<noteq> js ''profile''" by simp
  show ?thesis
  proof (cases "messageId = []")
    case True
    with n assms(1) r show ?thesis
      by (simp add: buildAppPath_def nonempty_def appRouteFromPath_def split_path(1) decode_literals nth_opt_def Let_def)
  next
    case False
    with n assms(1) r m show ?thesis
      by (simp add: buildAppPath_def nonempty_def appRouteFromPath_def split_path(2) decode_literals nth_opt_def Let_def)
  qed
qed

section \<open>Dot segments\<close>

definition dot_segment :: "jstr \<Rightarrow> bool" where
  "dot_segment s = (s = js ''.'' \<or> s = js ''..'')"

lemma url_segments_no_dots: "\<not> list_ex dot_segment ps \<Longrightarrow> url_segments acc ps = rev acc @ ps"
  by (induction ps arbitrary: acc) (auto simp: dot_segment_def)

lemma resolve_path_id: "\<not> list_ex dot_segment (js_split 47 p) \<Longrightarrow> resolve_path (47 # p) = 47 # p"
  by (simp add: resolve_path_def url_segments_no_dots js_lit js_join_split)

lemma decode_dot: "decodeURIComponent s = Inr t \<Longrightarrow> dot_segment s \<Longrightarrow> dot_segment t"
  by (auto simp: dot_segment_def js_lit)

lemma resolve_literals: "resolve_path (js ''/chats'') = js ''/chats''" "resolve_path (js ''/profile'') = js ''/profile''"
  by (simp_all add: resolve_path_def js_lit)

lemma encode_dot: "encodeURIComponent s = Inr t \<Longrightarrow> dot_segment t \<Longrightarrow> dot_segment s"
  using uri.dec_enc decode_dot by (auto simp: encodeURIComponent_def split: if_splits)

lemma path_back:
  assumes "roomId \<noteq> []" "well_formed roomId" "well_formed messageId" "\<not> dot_segment roomId" "\<not> dot_segment messageId"
    and "route = \<lparr>ar_view = Some VChat, ar_roomId = Some roomId, ar_messageId = nonempty messageId\<rparr>"
  shows "\<exists>p. replaceAppURL True route = Inr (Some p) \<and> appRouteFromPath p = Inr route"
proof -
  obtain r m where r: "encodeURIComponent roomId = Inr r" and m: "encodeURIComponent messageId = Inr m"
    using uri.enc_dec assms by metis
  have d: "\<not> dot_segment r" "\<not> dot_segment m" "47 \<notin> set r" "47 \<notin> set m"
    using r m assms(4,5) encode_dot encode_no_delimiter by blast+
  have c: "\<not> dot_segment (js ''chats'')" "\<not> dot_segment (js ''messages'')" by (simp_all add: dot_segment_def js_lit)
  obtain p where p: "buildAppPath True route = Inr p" "appRouteFromPath p = Inr route"
    using route_back[OF assms(1-3)] assms(6) by (auto simp: bindR_eq_Inr)
  have "resolve_path p = p"
  proof (cases "messageId = []")
    case True
    then have "p = js ''/chats/'' @ r" using p(1) r assms(1,6) by (simp add: buildAppPath_def nonempty_def Let_def)
    moreover obtain q where "js ''/chats/'' @ r = 47 # q" by (simp add: js_lit)
    ultimately show ?thesis
      using split_path(1)[OF d(3,3)] c d by (auto intro!: resolve_path_id)
  next
    case False
    then have "p = js ''/chats/'' @ r @ js ''/messages/'' @ m"
      using p(1) r m assms(1,6) by (simp add: buildAppPath_def nonempty_def Let_def)
    moreover obtain q where "js ''/chats/'' @ r @ js ''/messages/'' @ m = 47 # q" by (simp add: js_lit)
    ultimately show ?thesis
      using split_path(2)[OF d(3,4)] c d by (auto intro!: resolve_path_id)
  qed
  with p show ?thesis by (auto simp: replaceAppURL_def)
qed

text \<open>The address the application writes for a chat, with or without a message, is the address it
  reads at the next load: slashes, percent signs and any other character of the ids are escaped
  and restored.  The ids \<open>.\<close> and \<open>..\<close> are the exception: they are not escaped, and the browser
  resolves them away (\<open>dot_routes\<close>).\<close>

theorem route_roundtrip:
  assumes "roomId \<noteq> []" "well_formed roomId" "well_formed messageId" "\<not> dot_segment roomId" "\<not> dot_segment messageId"
  shows "\<exists>p. replaceAppURL True \<lparr>ar_view = Some VChat, ar_roomId = Some roomId, ar_messageId = nonempty messageId\<rparr> = Inr (Some p)
    \<and> appRouteFromPath p = Inr \<lparr>ar_view = Some VChat, ar_roomId = Some roomId, ar_messageId = nonempty messageId\<rparr>"
  by (rule path_back [OF assms refl])

theorem route_roundtrip_witness:
  "\<exists>p. replaceAppURL True \<lparr>ar_view = Some VChat, ar_roomId = Some (js ''a/b''), ar_messageId = nonempty (js ''m%'')\<rparr> = Inr (Some p)
    \<and> appRouteFromPath p = Inr \<lparr>ar_view = Some VChat, ar_roomId = Some (js ''a/b''), ar_messageId = nonempty (js ''m%'')\<rparr>"
  by (rule route_roundtrip) (simp_all add: dot_segment_def js_lit high_surrogate_def low_surrogate_def)

lemma dot_routes:
  "bindR (replaceAppURL True \<lparr>ar_view = Some VChat, ar_roomId = Some (js ''.''), ar_messageId = None\<rparr>) (\<lambda>p. appRouteFromPath (the p))
     = Inr \<lparr>ar_view = Some VRooms, ar_roomId = None, ar_messageId = None\<rparr>"
  "bindR (replaceAppURL True \<lparr>ar_view = Some VChat, ar_roomId = Some (js ''..''), ar_messageId = None\<rparr>) (\<lambda>p. appRouteFromPath (the p))
     = Inr \<lparr>ar_view = None, ar_roomId = None, ar_messageId = None\<rparr>"
proof -
  have e: "encodeURIComponent (js ''.'') = Inr (js ''.'')" "encodeURIComponent (js ''..'') = Inr (js ''..'')"
    by (simp_all add: js_lit encodeURIComponent_def uri_scalar_def uri_plain_def high_surrogate_def low_surrogate_def)
  have p: "resolve_path (js ''/chats/'' @ js ''.'') = js ''/chats/''" "resolve_path (js ''/chats/'' @ js ''..'') = js ''/''"
    by (simp_all add: resolve_path_def js_lit)
  have a: "appRouteFromPath (js ''/chats/'') = Inr \<lparr>ar_view = Some VRooms, ar_roomId = None, ar_messageId = None\<rparr>"
    "appRouteFromPath (js ''/'') = Inr \<lparr>ar_view = None, ar_roomId = None, ar_messageId = None\<rparr>"
    by (simp_all add: appRouteFromPath_def js_lit nth_opt_def)
  show "bindR (replaceAppURL True \<lparr>ar_view = Some VChat, ar_roomId = Some (js ''.''), ar_messageId = None\<rparr>) (\<lambda>p. appRouteFromPath (the p))
     = Inr \<lparr>ar_view = Some VRooms, ar_roomId = None, ar_messageId = None\<rparr>"
    using e p a by (simp add: replaceAppURL_def buildAppPath_def Let_def)
  show "bindR (replaceAppURL True \<lparr>ar_view = Some VChat, ar_roomId = Some (js ''..''), ar_messageId = None\<rparr>) (\<lambda>p. appRouteFromPath (the p))
     = Inr \<lparr>ar_view = None, ar_roomId = None, ar_messageId = None\<rparr>"
    using e p a by (simp add: replaceAppURL_def buildAppPath_def Let_def)
qed

end
