(* ===== verification/Api.thy ===== *)
theory Api
  imports Messenger
begin

text \<open>
  \<open>lib/api.ts\<close>: the REST client.  Each endpoint is the request it sends, built from
  its input; \<open>request_of\<close> is the client as one function over all of them.  What
  \<open>fetch\<close> answers is a \<open>response\<close>; \<open>readJSON\<close> and \<open>readVoid\<close> are the two ways the source
  reads it.  A path is a template of literals and encoded ids.  \<open>base\<close> is \<open>BASE\<close>.
\<close>

section \<open>Data\<close>

record identity =
  iy_userId :: jstr
  iy_displayName :: jstr
  iy_identityPublicKey :: jstr
  iy_createdAt :: jstr
  iy_lastSeenAt :: jstr

datatype theme = Light | Dark

record principal =
  pr_clientId :: jstr
  pr_userId :: jstr
  pr_sessionId :: "jstr option"
  pr_username :: jstr
  pr_displayName :: jstr
  pr_friendCode :: "jstr option"
  pr_theme :: theme
  pr_avatarUrl :: "jstr option"
  pr_totpEnabled :: bool
  pr_scopes :: "jstr list"
  pr_expires :: int

record auth_session =
  as_accessToken :: jstr
  as_tokenType :: jstr
  as_expiresAt :: int
  as_principal :: principal

record account_session =
  ac_sessionId :: jstr
  ac_userId :: jstr
  ac_username :: jstr
  ac_deviceName :: "jstr option"
  ac_userAgent :: "jstr option"
  ac_ipAddress :: "jstr option"
  ac_location :: "jstr option"
  ac_createdAt :: jstr
  ac_expiresAt :: jstr
  ac_revokedAt :: "jstr option"
  ac_current :: "bool option"

record room =
  ro_roomId :: jstr
  ro_name :: jstr
  ro_members :: "jstr list"
  ro_memberProfiles :: "identity list option"
  ro_roomSecret :: "jstr option"
  ro_lastMessageAt :: "jstr option"
  ro_unreadCount :: "int option"
  ro_createdAt :: jstr

datatype friend_status = Pending | Accepted

datatype friend_direction = Incoming | Outgoing

record friend =
  fr_userId :: jstr
  fr_displayName :: jstr
  fr_status :: friend_status
  fr_direction :: friend_direction
  fr_createdAt :: jstr

record push_preferences =
  pp_messages :: bool
  pp_chats :: bool
  pp_sessions :: bool
  pp_friends :: bool

record push_subscription =
  ps_id :: jstr
  ps_endpoint :: jstr
  ps_userAgent :: "jstr option"
  ps_preferences :: push_preferences
  ps_createdAt :: jstr
  ps_lastUsedAt :: "jstr option"

record message_envelope =
  me_id :: jstr
  me_topic :: jstr
  me_data :: realtime_event
  me_source :: jstr
  me_createdAt :: jstr

record call_log =
  cl_id :: jstr
  cl_roomId :: jstr
  cl_callerId :: jstr
  cl_calleeId :: jstr
  cl_status :: call_status
  cl_durationSec :: int
  cl_startedAt :: jstr
  cl_endedAt :: jstr

section \<open>Requests and responses\<close>

datatype http_method = GET | POST | PUT | DELETE | PATCH

datatype form_part = FormFile jstr blob jstr | FormText jstr jstr

datatype req_body = NoBody | TextBody jstr | FormBody "form_part list"

record request =
  rq_method :: http_method
  rq_url :: jstr
  rq_headers :: "(jstr \<times> jstr) list"
  rq_credentials :: bool
  rq_body :: req_body

record response =
  rs_ok :: bool
  rs_status :: nat
  rs_json :: "json result"
  rs_blob :: "blob result"

datatype piece = Lit jstr | Enc jstr

fun piece_text :: "piece \<Rightarrow> jstr result" where
  "piece_text (Lit s) = Inr s"
| "piece_text (Enc s) = encodeURIComponent s"

definition url_template :: "piece list \<Rightarrow> jstr result" where
  "url_template ps = bindR (mapR piece_text ps) (\<lambda>ts. Inr (concat ts))"

definition send :: "http_method \<Rightarrow> piece list \<Rightarrow> (jstr \<times> jstr) list \<Rightarrow> bool \<Rightarrow> req_body \<Rightarrow> request result" where
  "send m ps hs cred body = bindR (url_template ps) (\<lambda>u.
     Inr \<lparr>rq_method = m, rq_url = u, rq_headers = hs, rq_credentials = cred, rq_body = body\<rparr>)"

definition API_BASE :: "jstr option \<Rightarrow> jstr" where
  "API_BASE env = nullish env (js ''http://localhost:8080'')"

definition WS_BASE :: "jstr option \<Rightarrow> jstr" where
  "WS_BASE env = nullish env (js ''ws://localhost:8080'')"

definition jsonHeader :: "jstr \<times> jstr" where
  "jsonHeader = (js ''Content-Type'', js ''application/json'')"

definition bearer :: "jstr \<Rightarrow> jstr \<times> jstr" where
  "bearer token = (js ''Authorization'', js ''Bearer '' @ token)"

definition authHeaders :: "jstr \<Rightarrow> (jstr \<times> jstr) list" where
  "authHeaders token = [jsonHeader, bearer token]"

definition json_body :: "(jstr \<times> json) list \<Rightarrow> req_body" where
  "json_body kvs = TextBody (stringify (JObj kvs))"

text \<open>\<open>String(v)\<close> of a JSON value, the message an \<open>Error\<close> gets; the text of a numeral that is
  not a safe integer is kept as written.\<close>

fun json_string :: "json \<Rightarrow> jstr" where
  "json_string JNull = js ''null''"
| "json_string (JBool b) = (if b then js ''true'' else js ''false'')"
| "json_string (JInt i) = js_of_int i"
| "json_string (JNum l) = l"
| "json_string (JStr s) = s"
| "json_string (JArr vs) = js_join (js '','') (map (\<lambda>v. if v = JNull then [] else json_string v) vs)"
| "json_string (JObj kvs) = js ''[object Object]''"

text \<open>The error branch shared by every reader: a body that is no JSON counts as
  \<open>unknown_error\<close>, an \<open>error\<close> member that is absent or null as the default.\<close>

definition response_error :: "jstr \<Rightarrow> response \<Rightarrow> 'a result" where
  "response_error dflt res =
     (let err = (case rs_json res of Inr v \<Rightarrow> v | Inl _ \<Rightarrow> JObj [(js ''error'', JStr (js ''unknown_error''))])
      in bindR (json_member (js ''error'') err) (\<lambda>e.
           Inl (Err (case e of None \<Rightarrow> dflt | Some v \<Rightarrow> if v = JNull then dflt else json_string v))))"

definition readJSON :: "response \<Rightarrow> json result" where
  "readJSON res =
     (if \<not> rs_ok res
      then (if rs_status res = 401 then Inl (AuthError (js ''unauthorized''))
            else response_error (js ''request_failed'') res)
      else rs_json res)"

text \<open>The reader of the calls that return nothing, each with its own default.\<close>

definition readVoid :: "jstr \<Rightarrow> response \<Rightarrow> unit result" where
  "readVoid dflt res =
     (if \<not> rs_ok res
      then (if rs_status res = 401 then Inl (AuthError (js ''unauthorized'')) else response_error dflt res)
      else Inr ())"

definition readBlob :: "response \<Rightarrow> blob result" where
  "readBlob res =
     (if \<not> rs_ok res
      then (if rs_status res = 401 then Inl (AuthError (js ''unauthorized''))
            else response_error (js ''download_failed'') res)
      else rs_blob res)"

definition healthResult :: "response \<Rightarrow> json result" where
  "healthResult res = (if \<not> rs_ok res then Inl (Err (js ''health check failed'')) else rs_json res)"

section \<open>Endpoints\<close>

definition fetchHealth :: "jstr \<Rightarrow> request result" where
  "fetchHealth base =
     send GET [Lit base, Lit (js ''/healthz'')]
       [] False NoBody"

definition registerUser :: "jstr \<Rightarrow> jstr \<Rightarrow> jstr \<Rightarrow> jstr \<Rightarrow> request result" where
  "registerUser base username password displayName =
     send POST [Lit base, Lit (js ''/v1/auth/register'')]
       [jsonHeader] True (json_body [(js ''username'', JStr username), (js ''password'', JStr password), (js ''displayName'', JStr displayName)])"

definition loginUser :: "jstr \<Rightarrow> jstr \<Rightarrow> jstr \<Rightarrow> (jstr option) \<Rightarrow> request result" where
  "loginUser base username password totpCode =
     send POST [Lit base, Lit (js ''/v1/auth/login'')]
       [jsonHeader] True (json_body ([(js ''username'', JStr username), (js ''password'', JStr password)]
         @ jopt (js ''totpCode'') JStr totpCode))"

definition refreshSession :: "jstr \<Rightarrow> request result" where
  "refreshSession base =
     send POST [Lit base, Lit (js ''/v1/auth/refresh'')]
       [] True NoBody"

definition logoutSession :: "jstr \<Rightarrow> request result" where
  "logoutSession base =
     send POST [Lit base, Lit (js ''/v1/auth/logout'')]
       [] True NoBody"

definition updateDisplayName :: "jstr \<Rightarrow> jstr \<Rightarrow> jstr \<Rightarrow> request result" where
  "updateDisplayName base token displayName =
     send PUT [Lit base, Lit (js ''/v1/me/display-name'')]
       (authHeaders token) False (json_body [(js ''displayName'', JStr displayName)])"

definition theme_name :: "theme \<Rightarrow> jstr" where
  "theme_name t = (case t of Light \<Rightarrow> js ''light'' | Dark \<Rightarrow> js ''dark'')"

definition updateTheme :: "jstr \<Rightarrow> jstr \<Rightarrow> theme \<Rightarrow> request result" where
  "updateTheme base token theme =
     send PUT [Lit base, Lit (js ''/v1/me/theme'')]
       (authHeaders token) False (json_body [(js ''theme'', JStr (theme_name theme))])"

definition fetchCurrentPrincipal :: "jstr \<Rightarrow> jstr \<Rightarrow> request result" where
  "fetchCurrentPrincipal base token =
     send GET [Lit base, Lit (js ''/v1/me'')]
       (authHeaders token) False NoBody"

definition uploadAvatar :: "jstr \<Rightarrow> jstr \<Rightarrow> blob \<Rightarrow> request result" where
  "uploadAvatar base token avatar =
     send PUT [Lit base, Lit (js ''/v1/me/avatar'')]
       [bearer token] False (FormBody [FormFile (js ''avatar'') avatar (js ''avatar.webp'')])"

definition beginTOTPSetup :: "jstr \<Rightarrow> jstr \<Rightarrow> request result" where
  "beginTOTPSetup base token =
     send POST [Lit base, Lit (js ''/v1/me/2fa/setup'')]
       (authHeaders token) False (json_body [])"

definition confirmTOTP :: "jstr \<Rightarrow> jstr \<Rightarrow> jstr \<Rightarrow> request result" where
  "confirmTOTP base token code =
     send POST [Lit base, Lit (js ''/v1/me/2fa/confirm'')]
       (authHeaders token) False (json_body [(js ''code'', JStr code)])"

definition disableTOTP :: "jstr \<Rightarrow> jstr \<Rightarrow> jstr \<Rightarrow> jstr \<Rightarrow> request result" where
  "disableTOTP base token password code =
     send DELETE [Lit base, Lit (js ''/v1/me/2fa'')]
       (authHeaders token) False (json_body [(js ''password'', JStr password), (js ''code'', JStr code)])"

definition fetchAccountSessions :: "jstr \<Rightarrow> jstr \<Rightarrow> request result" where
  "fetchAccountSessions base token =
     send GET [Lit base, Lit (js ''/v1/me/sessions'')]
       (authHeaders token) False NoBody"

definition revokeAccountSession :: "jstr \<Rightarrow> jstr \<Rightarrow> jstr \<Rightarrow> request result" where
  "revokeAccountSession base token sessionId =
     send DELETE [Lit base, Lit (js ''/v1/me/sessions/''), Enc sessionId]
       [bearer token] False NoBody"

definition revokeOtherAccountSessions :: "jstr \<Rightarrow> jstr \<Rightarrow> request result" where
  "revokeOtherAccountSessions base token =
     send DELETE [Lit base, Lit (js ''/v1/me/sessions/others'')]
       [bearer token] False NoBody"

definition fetchPushPublicKey :: "jstr \<Rightarrow> jstr \<Rightarrow> request result" where
  "fetchPushPublicKey base token =
     send GET [Lit base, Lit (js ''/v1/me/push-public-key'')]
       (authHeaders token) False NoBody"

definition fetchCallIceServers :: "jstr \<Rightarrow> jstr \<Rightarrow> request result" where
  "fetchCallIceServers base token =
     send GET [Lit base, Lit (js ''/v1/calls/ice-servers'')]
       (authHeaders token) False NoBody"

definition fetchPushSubscriptions :: "jstr \<Rightarrow> jstr \<Rightarrow> request result" where
  "fetchPushSubscriptions base token =
     send GET [Lit base, Lit (js ''/v1/me/push-subscriptions'')]
       (authHeaders token) False NoBody"

definition json_of_preferences :: "push_preferences \<Rightarrow> json" where
  "json_of_preferences p = JObj [(js ''messages'', JBool (pp_messages p)), (js ''chats'', JBool (pp_chats p)),
     (js ''sessions'', JBool (pp_sessions p)), (js ''friends'', JBool (pp_friends p))]"

definition savePushSubscription :: "jstr \<Rightarrow> jstr \<Rightarrow> jstr \<Rightarrow> jstr \<Rightarrow> jstr \<Rightarrow> push_preferences \<Rightarrow> request result" where
  "savePushSubscription base token endpoint p256dh auth preferences =
     send POST [Lit base, Lit (js ''/v1/me/push-subscriptions'')]
       (authHeaders token) False (json_body [(js ''endpoint'', JStr endpoint),
         (js ''keys'', JObj [(js ''p256dh'', JStr p256dh), (js ''auth'', JStr auth)]),
         (js ''preferences'', json_of_preferences preferences)])"

definition updatePushSubscription :: "jstr \<Rightarrow> jstr \<Rightarrow> jstr \<Rightarrow> push_preferences \<Rightarrow> request result" where
  "updatePushSubscription base token subId preferences =
     send PUT [Lit base, Lit (js ''/v1/me/push-subscriptions/''), Enc subId]
       (authHeaders token) False (json_body [(js ''preferences'', json_of_preferences preferences)])"

definition deletePushSubscription :: "jstr \<Rightarrow> jstr \<Rightarrow> jstr \<Rightarrow> request result" where
  "deletePushSubscription base token subId =
     send DELETE [Lit base, Lit (js ''/v1/me/push-subscriptions/''), Enc subId]
       [bearer token] False NoBody"

definition sendTestPush :: "jstr \<Rightarrow> jstr \<Rightarrow> request result" where
  "sendTestPush base token =
     send POST [Lit base, Lit (js ''/v1/me/push-test'')]
       (authHeaders token) False (json_body [])"

definition fetchCurrentIdentity :: "jstr \<Rightarrow> jstr \<Rightarrow> request result" where
  "fetchCurrentIdentity base token =
     send GET [Lit base, Lit (js ''/v1/me/identity'')]
       (authHeaders token) False NoBody"

definition fetchFriends :: "jstr \<Rightarrow> jstr \<Rightarrow> request result" where
  "fetchFriends base token =
     send GET [Lit base, Lit (js ''/v1/chat/friends'')]
       (authHeaders token) False NoBody"

definition requestFriend :: "jstr \<Rightarrow> jstr \<Rightarrow> jstr \<Rightarrow> request result" where
  "requestFriend base token friendCode =
     send POST [Lit base, Lit (js ''/v1/chat/friends'')]
       (authHeaders token) False (json_body [(js ''friendCode'', JStr friendCode)])"

definition respondFriend :: "jstr \<Rightarrow> jstr \<Rightarrow> jstr \<Rightarrow> bool \<Rightarrow> request result" where
  "respondFriend base token userId accept =
     send POST [Lit base, Lit (js ''/v1/chat/friends/''), Enc userId, Lit (js ''/''), Lit (if accept then js ''accept'' else js ''decline'')]
       (authHeaders token) False (json_body [])"

definition upsertIdentity :: "jstr \<Rightarrow> jstr \<Rightarrow> jstr \<Rightarrow> jstr \<Rightarrow> jstr \<Rightarrow> request result" where
  "upsertIdentity base token userId displayName identityPublicKey =
     send PUT [Lit base, Lit (js ''/v1/chat/identities/''), Enc userId]
       (authHeaders token) False (json_body [(js ''displayName'', JStr displayName), (js ''identityPublicKey'', JStr identityPublicKey)])"

definition fetchIdentity :: "jstr \<Rightarrow> jstr \<Rightarrow> jstr \<Rightarrow> request result" where
  "fetchIdentity base userId token =
     send GET [Lit base, Lit (js ''/v1/chat/identities/''), Enc userId]
       (authHeaders token) False NoBody"

definition touchIdentity :: "jstr \<Rightarrow> jstr \<Rightarrow> jstr \<Rightarrow> request result" where
  "touchIdentity base userId token =
     send PUT [Lit base, Lit (js ''/v1/chat/identities/''), Enc userId, Lit (js ''/last-seen'')]
       (authHeaders token) False (json_body [])"

definition createRoom :: "jstr \<Rightarrow> jstr \<Rightarrow> (jstr option) \<Rightarrow> jstr \<Rightarrow> (jstr list) \<Rightarrow> (jstr option) \<Rightarrow> request result" where
  "createRoom base token roomId name members roomSecret =
     send POST [Lit base, Lit (js ''/v1/chat/rooms'')]
       (authHeaders token) False (json_body (jopt (js ''roomId'') JStr roomId
         @ [(js ''name'', JStr name), (js ''members'', JArr (map JStr members))]
         @ jopt (js ''roomSecret'') JStr roomSecret))"

definition fetchRooms :: "jstr \<Rightarrow> jstr \<Rightarrow> request result" where
  "fetchRooms base token =
     send GET [Lit base, Lit (js ''/v1/chat/rooms'')]
       (authHeaders token) False NoBody"

definition leaveRoom :: "jstr \<Rightarrow> jstr \<Rightarrow> jstr \<Rightarrow> jstr \<Rightarrow> request result" where
  "leaveRoom base token roomId userId =
     send DELETE [Lit base, Lit (js ''/v1/chat/rooms/''), Enc roomId, Lit (js ''/members/''), Enc userId]
       [bearer token] False NoBody"

definition inviteFriendToRoom :: "jstr \<Rightarrow> jstr \<Rightarrow> jstr \<Rightarrow> jstr \<Rightarrow> request result" where
  "inviteFriendToRoom base token roomId userId =
     send POST [Lit base, Lit (js ''/v1/chat/rooms/''), Enc roomId, Lit (js ''/friends'')]
       (authHeaders token) False (json_body [(js ''userId'', JStr userId)])"

definition markRoomRead :: "jstr \<Rightarrow> jstr \<Rightarrow> jstr \<Rightarrow> request result" where
  "markRoomRead base token roomId =
     send POST [Lit base, Lit (js ''/v1/chat/rooms/''), Enc roomId, Lit (js ''/read'')]
       (authHeaders token) False (json_body [])"

definition fetchMessages :: "jstr \<Rightarrow> jstr \<Rightarrow> jstr \<Rightarrow> jstr option \<Rightarrow> request result" where
  "fetchMessages base roomId token before =
     send GET ([Lit base, Lit (js ''/v1/chat/rooms/''), Enc roomId, Lit (js ''/messages'')]
         @ (if truthy before then [Lit (js ''?before=''), Enc (the before)] else []))
       (authHeaders token) False NoBody"

definition fetchMessageContext :: "jstr \<Rightarrow> jstr \<Rightarrow> jstr \<Rightarrow> jstr \<Rightarrow> request result" where
  "fetchMessageContext base roomId messageId token =
     send GET [Lit base, Lit (js ''/v1/chat/rooms/''), Enc roomId, Lit (js ''/messages/''), Enc messageId, Lit (js ''/context'')]
       (authHeaders token) False NoBody"

definition fetchAttachmentMessages :: "jstr \<Rightarrow> jstr \<Rightarrow> jstr \<Rightarrow> request result" where
  "fetchAttachmentMessages base roomId token =
     send GET [Lit base, Lit (js ''/v1/chat/rooms/''), Enc roomId, Lit (js ''/attachments'')]
       (authHeaders token) False NoBody"

definition sendEncryptedMessage :: "jstr \<Rightarrow> jstr \<Rightarrow> jstr \<Rightarrow> jstr \<Rightarrow> payload \<Rightarrow> request result" where
  "sendEncryptedMessage base token roomId senderId p =
     send POST [Lit base, Lit (js ''/v1/chat/rooms/''), Enc roomId, Lit (js ''/messages'')]
       (authHeaders token) False (json_body [(js ''senderId'', JStr senderId), (js ''ciphertext'', JStr (pl_ciphertext p)),
         (js ''nonce'', JStr (pl_nonce p)), (js ''algorithm'', JStr (pl_algorithm p)), (js ''keyId'', JStr (pl_keyId p))])"

definition updateEncryptedMessage :: "jstr \<Rightarrow> jstr \<Rightarrow> jstr \<Rightarrow> jstr \<Rightarrow> payload \<Rightarrow> request result" where
  "updateEncryptedMessage base token roomId messageId p =
     send PUT [Lit base, Lit (js ''/v1/chat/rooms/''), Enc roomId, Lit (js ''/messages/''), Enc messageId]
       (authHeaders token) False (json_body [(js ''ciphertext'', JStr (pl_ciphertext p)), (js ''nonce'', JStr (pl_nonce p)),
         (js ''algorithm'', JStr (pl_algorithm p)), (js ''keyId'', JStr (pl_keyId p))])"

definition deleteEncryptedMessageForAll :: "jstr \<Rightarrow> jstr \<Rightarrow> jstr \<Rightarrow> jstr \<Rightarrow> request result" where
  "deleteEncryptedMessageForAll base token roomId messageId =
     send DELETE [Lit base, Lit (js ''/v1/chat/rooms/''), Enc roomId, Lit (js ''/messages/''), Enc messageId]
       [bearer token] False NoBody"

definition toggleMessageReaction :: "jstr \<Rightarrow> jstr \<Rightarrow> jstr \<Rightarrow> jstr \<Rightarrow> jstr \<Rightarrow> request result" where
  "toggleMessageReaction base token roomId messageId emoji =
     send POST [Lit base, Lit (js ''/v1/chat/rooms/''), Enc roomId, Lit (js ''/messages/''), Enc messageId, Lit (js ''/reactions'')]
       (authHeaders token) False (json_body [(js ''emoji'', JStr emoji)])"

definition uploadEncryptedFile :: "jstr \<Rightarrow> jstr \<Rightarrow> jstr \<Rightarrow> blob \<Rightarrow> request result" where
  "uploadEncryptedFile base token roomId file =
     send POST [Lit base, Lit (js ''/v1/chat/files'')]
       [bearer token] False (FormBody [FormFile (js ''file'') file (js ''encrypted.bin''), FormText (js ''roomId'') roomId])"

definition downloadEncryptedFile :: "jstr \<Rightarrow> jstr \<Rightarrow> jstr \<Rightarrow> jstr \<Rightarrow> request result" where
  "downloadEncryptedFile base token fileId roomId =
     send GET [Lit base, Lit (js ''/v1/chat/files/''), Enc fileId, Lit (js ''?roomId=''), Enc roomId]
       [bearer token] False NoBody"

definition updateRoomName :: "jstr \<Rightarrow> jstr \<Rightarrow> jstr \<Rightarrow> jstr \<Rightarrow> request result" where
  "updateRoomName base token roomId name =
     send PATCH [Lit base, Lit (js ''/v1/chat/rooms/''), Enc roomId, Lit (js ''/name'')]
       (authHeaders token) False (json_body [(js ''name'', JStr name)])"

definition appendCallLog :: "jstr \<Rightarrow> jstr \<Rightarrow> jstr \<Rightarrow> jstr \<Rightarrow> jstr \<Rightarrow> call_status \<Rightarrow> int \<Rightarrow> (jstr option) \<Rightarrow> (jstr option) \<Rightarrow> request result" where
  "appendCallLog base token roomId callerId calleeId status durationSec startedAt endedAt =
     send POST [Lit base, Lit (js ''/v1/calls'')]
       (authHeaders token) False (json_body ([(js ''roomId'', JStr roomId), (js ''callerId'', JStr callerId), (js ''calleeId'', JStr calleeId),
           (js ''status'', JStr (status_name status)), (js ''durationSec'', JInt durationSec)]
         @ jopt (js ''startedAt'') JStr startedAt @ jopt (js ''endedAt'') JStr endedAt))"

definition listCallLogs :: "jstr \<Rightarrow> jstr \<Rightarrow> request result" where
  "listCallLogs base token =
     send GET [Lit base, Lit (js ''/v1/calls'')]
       (authHeaders token) False NoBody"

section \<open>Results\<close>

text \<open>\<open>page.messages ?? []\<close> and \<open>Boolean(page.hasMore)\<close>.\<close>

definition nullish_json :: "json option \<Rightarrow> json \<Rightarrow> json" where
  "nullish_json v d = (case v of None \<Rightarrow> d | Some w \<Rightarrow> if w = JNull then d else w)"

definition messagePageResult :: "response \<Rightarrow> (json \<times> bool) result" where
  "messagePageResult res =
     bindR (readJSON res) (\<lambda>page.
     bindR (json_member (js ''messages'') page) (\<lambda>ms.
     bindR (json_member (js ''hasMore'') page) (\<lambda>more.
     Inr (nullish_json ms (JArr []), (case more of None \<Rightarrow> False | Some v \<Rightarrow> json_truthy v)))))"

definition attachmentMessagesResult :: "response \<Rightarrow> json result" where
  "attachmentMessagesResult res =
     bindR (readJSON res) (\<lambda>page.
     bindR (json_member (js ''messages'') page) (\<lambda>ms. Inr (nullish_json ms (JArr []))))"

text \<open>What a login answers: a session or a second-factor challenge, told apart by the member
  \<open>twoFactorRequired\<close>; \<open>in\<close> raises on a value that is no object.\<close>

fun isTwoFactorChallenge :: "json \<Rightarrow> bool result" where
  "isTwoFactorChallenge (JObj kvs) =
     Inr (case jfield (js ''twoFactorRequired'') kvs of None \<Rightarrow> False | Some v \<Rightarrow> json_truthy v)"
| "isTwoFactorChallenge (JArr vs) = Inr False"
| "isTwoFactorChallenge _ = Inl TypeError"

definition absoluteAvatarUrl :: "jstr \<Rightarrow> jstr option \<Rightarrow> jstr" where
  "absoluteAvatarUrl base avatarUrl =
     (if \<not> truthy avatarUrl then []
      else if js_starts (js ''http://'') (the avatarUrl) \<or> js_starts (js ''https://'') (the avatarUrl)
      then the avatarUrl
      else base @ the avatarUrl)"

definition logoutSessionResult :: "response \<Rightarrow> unit result" where
  "logoutSessionResult res = readVoid (js ''logout_failed'') res"

definition revokeAccountSessionResult :: "response \<Rightarrow> unit result" where
  "revokeAccountSessionResult res = readVoid (js ''revoke_failed'') res"

definition revokeOtherAccountSessionsResult :: "response \<Rightarrow> unit result" where
  "revokeOtherAccountSessionsResult res = readVoid (js ''revoke_failed'') res"

definition deletePushSubscriptionResult :: "response \<Rightarrow> unit result" where
  "deletePushSubscriptionResult res = readVoid (js ''push_delete_failed'') res"

definition sendTestPushResult :: "response \<Rightarrow> unit result" where
  "sendTestPushResult res = readVoid (js ''push_test_failed'') res"

definition respondFriendResult :: "response \<Rightarrow> unit result" where
  "respondFriendResult res = readVoid (js ''friend_response_failed'') res"

definition leaveRoomResult :: "response \<Rightarrow> unit result" where
  "leaveRoomResult res = readVoid (js ''leave_failed'') res"

definition inviteFriendToRoomResult :: "response \<Rightarrow> unit result" where
  "inviteFriendToRoomResult res = readVoid (js ''invite_friend_failed'') res"

definition markRoomReadResult :: "response \<Rightarrow> unit result" where
  "markRoomReadResult res = readVoid (js ''mark_read_failed'') res"

section \<open>The client as one function\<close>

datatype (plugins only: size) api_call =
    CallFetchHealth
  | CallRegisterUser jstr jstr jstr
  | CallLoginUser jstr jstr "jstr option"
  | CallRefreshSession
  | CallLogoutSession
  | CallUpdateDisplayName jstr jstr
  | CallUpdateTheme jstr theme
  | CallFetchCurrentPrincipal jstr
  | CallUploadAvatar jstr blob
  | CallBeginTOTPSetup jstr
  | CallConfirmTOTP jstr jstr
  | CallDisableTOTP jstr jstr jstr
  | CallFetchAccountSessions jstr
  | CallRevokeAccountSession jstr jstr
  | CallRevokeOtherAccountSessions jstr
  | CallFetchPushPublicKey jstr
  | CallFetchCallIceServers jstr
  | CallFetchPushSubscriptions jstr
  | CallSavePushSubscription jstr jstr jstr jstr push_preferences
  | CallUpdatePushSubscription jstr jstr push_preferences
  | CallDeletePushSubscription jstr jstr
  | CallSendTestPush jstr
  | CallFetchCurrentIdentity jstr
  | CallFetchFriends jstr
  | CallRequestFriend jstr jstr
  | CallRespondFriend jstr jstr bool
  | CallUpsertIdentity jstr jstr jstr jstr
  | CallFetchIdentity jstr jstr
  | CallTouchIdentity jstr jstr
  | CallCreateRoom jstr "jstr option" jstr "jstr list" "jstr option"
  | CallFetchRooms jstr
  | CallLeaveRoom jstr jstr jstr
  | CallInviteFriendToRoom jstr jstr jstr
  | CallMarkRoomRead jstr jstr
  | CallFetchMessages jstr jstr "jstr option"
  | CallFetchMessageContext jstr jstr jstr
  | CallFetchAttachmentMessages jstr jstr
  | CallSendEncryptedMessage jstr jstr jstr payload
  | CallUpdateEncryptedMessage jstr jstr jstr payload
  | CallDeleteEncryptedMessageForAll jstr jstr jstr
  | CallToggleMessageReaction jstr jstr jstr jstr
  | CallUploadEncryptedFile jstr jstr blob
  | CallDownloadEncryptedFile jstr jstr jstr
  | CallUpdateRoomName jstr jstr jstr
  | CallAppendCallLog jstr jstr jstr jstr call_status int "jstr option" "jstr option"
  | CallListCallLogs jstr

primrec request_of :: "jstr \<Rightarrow> api_call \<Rightarrow> request result" where
  "request_of base CallFetchHealth = fetchHealth base"
| "request_of base (CallRegisterUser username password displayName) = registerUser base username password displayName"
| "request_of base (CallLoginUser username password totpCode) = loginUser base username password totpCode"
| "request_of base CallRefreshSession = refreshSession base"
| "request_of base CallLogoutSession = logoutSession base"
| "request_of base (CallUpdateDisplayName token displayName) = updateDisplayName base token displayName"
| "request_of base (CallUpdateTheme token theme) = updateTheme base token theme"
| "request_of base (CallFetchCurrentPrincipal token) = fetchCurrentPrincipal base token"
| "request_of base (CallUploadAvatar token avatar) = uploadAvatar base token avatar"
| "request_of base (CallBeginTOTPSetup token) = beginTOTPSetup base token"
| "request_of base (CallConfirmTOTP token code) = confirmTOTP base token code"
| "request_of base (CallDisableTOTP token password code) = disableTOTP base token password code"
| "request_of base (CallFetchAccountSessions token) = fetchAccountSessions base token"
| "request_of base (CallRevokeAccountSession token sessionId) = revokeAccountSession base token sessionId"
| "request_of base (CallRevokeOtherAccountSessions token) = revokeOtherAccountSessions base token"
| "request_of base (CallFetchPushPublicKey token) = fetchPushPublicKey base token"
| "request_of base (CallFetchCallIceServers token) = fetchCallIceServers base token"
| "request_of base (CallFetchPushSubscriptions token) = fetchPushSubscriptions base token"
| "request_of base (CallSavePushSubscription token endpoint p256dh auth preferences) = savePushSubscription base token endpoint p256dh auth preferences"
| "request_of base (CallUpdatePushSubscription token subId preferences) = updatePushSubscription base token subId preferences"
| "request_of base (CallDeletePushSubscription token subId) = deletePushSubscription base token subId"
| "request_of base (CallSendTestPush token) = sendTestPush base token"
| "request_of base (CallFetchCurrentIdentity token) = fetchCurrentIdentity base token"
| "request_of base (CallFetchFriends token) = fetchFriends base token"
| "request_of base (CallRequestFriend token friendCode) = requestFriend base token friendCode"
| "request_of base (CallRespondFriend token userId accept) = respondFriend base token userId accept"
| "request_of base (CallUpsertIdentity token userId displayName identityPublicKey) = upsertIdentity base token userId displayName identityPublicKey"
| "request_of base (CallFetchIdentity userId token) = fetchIdentity base userId token"
| "request_of base (CallTouchIdentity userId token) = touchIdentity base userId token"
| "request_of base (CallCreateRoom token roomId name members roomSecret) = createRoom base token roomId name members roomSecret"
| "request_of base (CallFetchRooms token) = fetchRooms base token"
| "request_of base (CallLeaveRoom token roomId userId) = leaveRoom base token roomId userId"
| "request_of base (CallInviteFriendToRoom token roomId userId) = inviteFriendToRoom base token roomId userId"
| "request_of base (CallMarkRoomRead token roomId) = markRoomRead base token roomId"
| "request_of base (CallFetchMessages roomId token before) = fetchMessages base roomId token before"
| "request_of base (CallFetchMessageContext roomId messageId token) = fetchMessageContext base roomId messageId token"
| "request_of base (CallFetchAttachmentMessages roomId token) = fetchAttachmentMessages base roomId token"
| "request_of base (CallSendEncryptedMessage token roomId senderId p) = sendEncryptedMessage base token roomId senderId p"
| "request_of base (CallUpdateEncryptedMessage token roomId messageId p) = updateEncryptedMessage base token roomId messageId p"
| "request_of base (CallDeleteEncryptedMessageForAll token roomId messageId) = deleteEncryptedMessageForAll base token roomId messageId"
| "request_of base (CallToggleMessageReaction token roomId messageId emoji) = toggleMessageReaction base token roomId messageId emoji"
| "request_of base (CallUploadEncryptedFile token roomId file) = uploadEncryptedFile base token roomId file"
| "request_of base (CallDownloadEncryptedFile token fileId roomId) = downloadEncryptedFile base token fileId roomId"
| "request_of base (CallUpdateRoomName token roomId name) = updateRoomName base token roomId name"
| "request_of base (CallAppendCallLog token roomId callerId calleeId status durationSec startedAt endedAt) = appendCallLog base token roomId callerId calleeId status durationSec startedAt endedAt"
| "request_of base (CallListCallLogs token) = listCallLogs base token"

text \<open>The token a call is made with; the authentication calls and the health check have none.\<close>

primrec token_of :: "api_call \<Rightarrow> jstr option" where
  "token_of CallFetchHealth = None"
| "token_of (CallRegisterUser _ _ _) = None"
| "token_of (CallLoginUser _ _ _) = None"
| "token_of CallRefreshSession = None"
| "token_of CallLogoutSession = None"
| "token_of (CallUpdateDisplayName token _) = Some token"
| "token_of (CallUpdateTheme token _) = Some token"
| "token_of (CallFetchCurrentPrincipal token) = Some token"
| "token_of (CallUploadAvatar token _) = Some token"
| "token_of (CallBeginTOTPSetup token) = Some token"
| "token_of (CallConfirmTOTP token _) = Some token"
| "token_of (CallDisableTOTP token _ _) = Some token"
| "token_of (CallFetchAccountSessions token) = Some token"
| "token_of (CallRevokeAccountSession token _) = Some token"
| "token_of (CallRevokeOtherAccountSessions token) = Some token"
| "token_of (CallFetchPushPublicKey token) = Some token"
| "token_of (CallFetchCallIceServers token) = Some token"
| "token_of (CallFetchPushSubscriptions token) = Some token"
| "token_of (CallSavePushSubscription token _ _ _ _) = Some token"
| "token_of (CallUpdatePushSubscription token _ _) = Some token"
| "token_of (CallDeletePushSubscription token _) = Some token"
| "token_of (CallSendTestPush token) = Some token"
| "token_of (CallFetchCurrentIdentity token) = Some token"
| "token_of (CallFetchFriends token) = Some token"
| "token_of (CallRequestFriend token _) = Some token"
| "token_of (CallRespondFriend token _ _) = Some token"
| "token_of (CallUpsertIdentity token _ _ _) = Some token"
| "token_of (CallFetchIdentity _ token) = Some token"
| "token_of (CallTouchIdentity _ token) = Some token"
| "token_of (CallCreateRoom token _ _ _ _) = Some token"
| "token_of (CallFetchRooms token) = Some token"
| "token_of (CallLeaveRoom token _ _) = Some token"
| "token_of (CallInviteFriendToRoom token _ _) = Some token"
| "token_of (CallMarkRoomRead token _) = Some token"
| "token_of (CallFetchMessages _ token _) = Some token"
| "token_of (CallFetchMessageContext _ _ token) = Some token"
| "token_of (CallFetchAttachmentMessages _ token) = Some token"
| "token_of (CallSendEncryptedMessage token _ _ _) = Some token"
| "token_of (CallUpdateEncryptedMessage token _ _ _) = Some token"
| "token_of (CallDeleteEncryptedMessageForAll token _ _) = Some token"
| "token_of (CallToggleMessageReaction token _ _ _) = Some token"
| "token_of (CallUploadEncryptedFile token _ _) = Some token"
| "token_of (CallDownloadEncryptedFile token _ _) = Some token"
| "token_of (CallUpdateRoomName token _ _) = Some token"
| "token_of (CallAppendCallLog token _ _ _ _ _ _ _) = Some token"
| "token_of (CallListCallLogs token) = Some token"

primrec ids_of :: "api_call \<Rightarrow> jstr list" where
  "ids_of (CallRevokeAccountSession _ sessionId) = [sessionId]"
| "ids_of (CallUpdatePushSubscription _ subId _) = [subId]"
| "ids_of (CallDeletePushSubscription _ subId) = [subId]"
| "ids_of (CallRespondFriend _ userId _) = [userId]"
| "ids_of (CallUpsertIdentity _ userId _ _) = [userId]"
| "ids_of (CallFetchIdentity userId _) = [userId]"
| "ids_of (CallTouchIdentity userId _) = [userId]"
| "ids_of (CallLeaveRoom _ roomId userId) = [roomId, userId]"
| "ids_of (CallInviteFriendToRoom _ roomId _) = [roomId]"
| "ids_of (CallMarkRoomRead _ roomId) = [roomId]"
| "ids_of (CallFetchMessages roomId _ before) = roomId # (if truthy before then [the before] else [])"
| "ids_of (CallFetchMessageContext roomId messageId _) = [roomId, messageId]"
| "ids_of (CallFetchAttachmentMessages roomId _) = [roomId]"
| "ids_of (CallSendEncryptedMessage _ roomId _ _) = [roomId]"
| "ids_of (CallUpdateEncryptedMessage _ roomId messageId _) = [roomId, messageId]"
| "ids_of (CallDeleteEncryptedMessageForAll _ roomId messageId) = [roomId, messageId]"
| "ids_of (CallToggleMessageReaction _ roomId messageId _) = [roomId, messageId]"
| "ids_of (CallDownloadEncryptedFile _ fileId roomId) = [fileId, roomId]"
| "ids_of (CallUpdateRoomName _ roomId _) = [roomId]"
| "ids_of CallFetchHealth = []"
| "ids_of (CallRegisterUser _ _ _) = []"
| "ids_of (CallLoginUser _ _ _) = []"
| "ids_of CallRefreshSession = []"
| "ids_of CallLogoutSession = []"
| "ids_of (CallUpdateDisplayName _ _) = []"
| "ids_of (CallUpdateTheme _ _) = []"
| "ids_of (CallFetchCurrentPrincipal _) = []"
| "ids_of (CallUploadAvatar _ _) = []"
| "ids_of (CallBeginTOTPSetup _) = []"
| "ids_of (CallConfirmTOTP _ _) = []"
| "ids_of (CallDisableTOTP _ _ _) = []"
| "ids_of (CallFetchAccountSessions _) = []"
| "ids_of (CallRevokeOtherAccountSessions _) = []"
| "ids_of (CallFetchPushPublicKey _) = []"
| "ids_of (CallFetchCallIceServers _) = []"
| "ids_of (CallFetchPushSubscriptions _) = []"
| "ids_of (CallSavePushSubscription _ _ _ _ _) = []"
| "ids_of (CallSendTestPush _) = []"
| "ids_of (CallFetchCurrentIdentity _) = []"
| "ids_of (CallFetchFriends _) = []"
| "ids_of (CallRequestFriend _ _) = []"
| "ids_of (CallCreateRoom _ _ _ _ _) = []"
| "ids_of (CallFetchRooms _) = []"
| "ids_of (CallUploadEncryptedFile _ _ _) = []"
| "ids_of (CallAppendCallLog _ _ _ _ _ _ _ _) = []"
| "ids_of (CallListCallLogs _) = []"

datatype answer = AnsJson json | AnsNone | AnsPage json bool | AnsMessages json | AnsBlob blob

definition map_answer :: "('a \<Rightarrow> answer) \<Rightarrow> 'a result \<Rightarrow> answer result" where
  "map_answer f r = bindR r (\<lambda>x. Inr (f x))"

primrec answer_of :: "api_call \<Rightarrow> response \<Rightarrow> answer result" where
  "answer_of CallFetchHealth res = map_answer AnsJson (healthResult res)"
| "answer_of CallLogoutSession res = map_answer (\<lambda>_. AnsNone) (logoutSessionResult res)"
| "answer_of (CallRevokeAccountSession _ _) res = map_answer (\<lambda>_. AnsNone) (revokeAccountSessionResult res)"
| "answer_of (CallRevokeOtherAccountSessions _) res = map_answer (\<lambda>_. AnsNone) (revokeOtherAccountSessionsResult res)"
| "answer_of (CallDeletePushSubscription _ _) res = map_answer (\<lambda>_. AnsNone) (deletePushSubscriptionResult res)"
| "answer_of (CallSendTestPush _) res = map_answer (\<lambda>_. AnsNone) (sendTestPushResult res)"
| "answer_of (CallRespondFriend _ _ _) res = map_answer (\<lambda>_. AnsNone) (respondFriendResult res)"
| "answer_of (CallLeaveRoom _ _ _) res = map_answer (\<lambda>_. AnsNone) (leaveRoomResult res)"
| "answer_of (CallInviteFriendToRoom _ _ _) res = map_answer (\<lambda>_. AnsNone) (inviteFriendToRoomResult res)"
| "answer_of (CallMarkRoomRead _ _) res = map_answer (\<lambda>_. AnsNone) (markRoomReadResult res)"
| "answer_of (CallFetchMessages _ _ _) res = map_answer (\<lambda>(ms, more). AnsPage ms more) (messagePageResult res)"
| "answer_of (CallFetchMessageContext _ _ _) res = map_answer (\<lambda>(ms, more). AnsPage ms more) (messagePageResult res)"
| "answer_of (CallFetchAttachmentMessages _ _) res = map_answer AnsMessages (attachmentMessagesResult res)"
| "answer_of (CallDownloadEncryptedFile _ _ _) res = map_answer AnsBlob (readBlob res)"
| "answer_of (CallRegisterUser _ _ _) res = map_answer AnsJson (readJSON res)"
| "answer_of (CallLoginUser _ _ _) res = map_answer AnsJson (readJSON res)"
| "answer_of CallRefreshSession res = map_answer AnsJson (readJSON res)"
| "answer_of (CallUpdateDisplayName _ _) res = map_answer AnsJson (readJSON res)"
| "answer_of (CallUpdateTheme _ _) res = map_answer AnsJson (readJSON res)"
| "answer_of (CallFetchCurrentPrincipal _) res = map_answer AnsJson (readJSON res)"
| "answer_of (CallUploadAvatar _ _) res = map_answer AnsJson (readJSON res)"
| "answer_of (CallBeginTOTPSetup _) res = map_answer AnsJson (readJSON res)"
| "answer_of (CallConfirmTOTP _ _) res = map_answer AnsJson (readJSON res)"
| "answer_of (CallDisableTOTP _ _ _) res = map_answer AnsJson (readJSON res)"
| "answer_of (CallFetchAccountSessions _) res = map_answer AnsJson (readJSON res)"
| "answer_of (CallFetchPushPublicKey _) res = map_answer AnsJson (readJSON res)"
| "answer_of (CallFetchCallIceServers _) res = map_answer AnsJson (readJSON res)"
| "answer_of (CallFetchPushSubscriptions _) res = map_answer AnsJson (readJSON res)"
| "answer_of (CallSavePushSubscription _ _ _ _ _) res = map_answer AnsJson (readJSON res)"
| "answer_of (CallUpdatePushSubscription _ _ _) res = map_answer AnsJson (readJSON res)"
| "answer_of (CallFetchCurrentIdentity _) res = map_answer AnsJson (readJSON res)"
| "answer_of (CallFetchFriends _) res = map_answer AnsJson (readJSON res)"
| "answer_of (CallRequestFriend _ _) res = map_answer AnsJson (readJSON res)"
| "answer_of (CallUpsertIdentity _ _ _ _) res = map_answer AnsJson (readJSON res)"
| "answer_of (CallFetchIdentity _ _) res = map_answer AnsJson (readJSON res)"
| "answer_of (CallTouchIdentity _ _) res = map_answer AnsJson (readJSON res)"
| "answer_of (CallCreateRoom _ _ _ _ _) res = map_answer AnsJson (readJSON res)"
| "answer_of (CallFetchRooms _) res = map_answer AnsJson (readJSON res)"
| "answer_of (CallSendEncryptedMessage _ _ _ _) res = map_answer AnsJson (readJSON res)"
| "answer_of (CallUpdateEncryptedMessage _ _ _ _) res = map_answer AnsJson (readJSON res)"
| "answer_of (CallDeleteEncryptedMessageForAll _ _ _) res = map_answer AnsJson (readJSON res)"
| "answer_of (CallToggleMessageReaction _ _ _ _) res = map_answer AnsJson (readJSON res)"
| "answer_of (CallUploadEncryptedFile _ _ _) res = map_answer AnsJson (readJSON res)"
| "answer_of (CallUpdateRoomName _ _ _) res = map_answer AnsJson (readJSON res)"
| "answer_of (CallAppendCallLog _ _ _ _ _ _ _ _) res = map_answer AnsJson (readJSON res)"
| "answer_of (CallListCallLogs _) res = map_answer AnsJson (readJSON res)"


section \<open>Every call reaches its route\<close>

lemmas endpoint_defs =
  fetchHealth_def registerUser_def loginUser_def refreshSession_def logoutSession_def
  updateDisplayName_def updateTheme_def fetchCurrentPrincipal_def uploadAvatar_def
  beginTOTPSetup_def confirmTOTP_def disableTOTP_def fetchAccountSessions_def
  revokeAccountSession_def revokeOtherAccountSessions_def fetchPushPublicKey_def
  fetchCallIceServers_def fetchPushSubscriptions_def savePushSubscription_def
  updatePushSubscription_def deletePushSubscription_def sendTestPush_def fetchCurrentIdentity_def
  fetchFriends_def requestFriend_def respondFriend_def upsertIdentity_def fetchIdentity_def
  touchIdentity_def createRoom_def fetchRooms_def leaveRoom_def inviteFriendToRoom_def
  markRoomRead_def fetchMessages_def fetchMessageContext_def fetchAttachmentMessages_def
  sendEncryptedMessage_def updateEncryptedMessage_def deleteEncryptedMessageForAll_def
  toggleMessageReaction_def uploadEncryptedFile_def downloadEncryptedFile_def updateRoomName_def
  appendCallLog_def listCallLogs_def



lemma mapR_append: "mapR f (xs @ ys) = bindR (mapR f xs) (\<lambda>a. bindR (mapR f ys) (\<lambda>b. Inr (a @ b)))"
  by (induction xs) (auto simp: bindR_def split: sum.splits)

lemma request_ok_iff: "(\<exists>r. request_of base c = Inr r) = list_all well_formed (ids_of c)"
  by (cases c) (auto simp: endpoint_defs send_def url_template_def bindR_def encodeURIComponent_def mapR_append)


lemma request_headers:
  assumes "request_of base c = Inr r"
  shows "js_starts base (rq_url r)"
    and "map snd (filter (\<lambda>h. fst h = js ''Authorization'') (rq_headers r))
      = (case token_of c of None \<Rightarrow> [] | Some t \<Rightarrow> [js ''Bearer '' @ t])"
    and "rq_credentials r \<Longrightarrow> token_of c = None"
    and "rq_method r = GET \<Longrightarrow> rq_body r = NoBody"
  using assms
  by (cases c; auto simp: endpoint_defs send_def url_template_def bindR_eq_Inr authHeaders_def bearer_def
      jsonHeader_def)+

lemma mapR_Inr_length: "mapR f xs = Inr ys \<Longrightarrow> length ys = length xs"
  by (induction xs arbitrary: ys) (auto simp: bindR_eq_Inr)

lemma encode_error: "encodeURIComponent s = Inl e \<Longrightarrow> e = URIError"
  by (auto simp: encodeURIComponent_def split: if_splits)

lemma request_error: "request_of base c = Inl e \<Longrightarrow> e = URIError"
proof -
  have m: "mapR piece_text ps = Inl e' \<Longrightarrow> e' = URIError" for ps e'
    by (induction ps) (auto simp: bindR_def encodeURIComponent_def split: sum.splits if_splits elim!: piece_text.elims)
  show "request_of base c = Inl e \<Longrightarrow> e = URIError"
    by (cases c) (auto simp: endpoint_defs send_def url_template_def bindR_def dest!: m encode_error split: sum.splits)
qed








section \<open>Properties\<close>



text \<open>Credentials: a call made with a token carries it in exactly one \<open>Authorization\<close>
  header, a call made without one carries none, cookies go only with the authentication calls,
  and a GET has no body.\<close>

theorem calls_carry_their_token:
  assumes "request_of base c = Inr r"
  shows "map snd (filter (\<lambda>h. fst h = js ''Authorization'') (rq_headers r))
      = (case token_of c of None \<Rightarrow> [] | Some t \<Rightarrow> [js ''Bearer '' @ t])
    \<and> (rq_credentials r \<longrightarrow> token_of c = None) \<and> (rq_method r = GET \<longrightarrow> rq_body r = NoBody)"
  using request_headers[OF assms] by blast

theorem calls_carry_their_token_witness:
  "\<exists>r. request_of (js ''b'') (CallFetchRooms (js ''tok'')) = Inr r \<and>
    map snd (filter (\<lambda>h. fst h = js ''Authorization'') (rq_headers r)) = [js ''Bearer '' @ js ''tok'']"
proof -
  have "\<exists>r. request_of (js ''b'') (CallFetchRooms (js ''tok'')) = Inr r"
    unfolding request_ok_iff by simp
  then show ?thesis using calls_carry_their_token by fastforce
qed

text \<open>A request is built for every input whose ids are well-formed strings, and only for
  those; the one way to fail is the \<open>URIError\<close> of a lone surrogate.\<close>

theorem calls_fail_only_on_ill_formed_ids:
  "(case request_of base c of Inr r \<Rightarrow> list_all well_formed (ids_of c)
    | Inl e \<Rightarrow> e = URIError \<and> \<not> list_all well_formed (ids_of c))"
  using request_ok_iff[of base c] request_error[of base c] by (auto split: sum.splits)

lemma response_error_not_auth: "response_error dflt res = Inl e \<Longrightarrow> \<not> is_auth_error e"
  by (auto simp: response_error_def Let_def bindR_def split: sum.splits elim!: json_member.elims)

lemma response_error_fails: "response_error dflt res \<noteq> Inr x"
  by (auto simp: response_error_def Let_def bindR_eq_Inr)

lemma response_error_value: "\<exists>e. (response_error d res :: 'x result) = Inl e \<and> \<not> is_auth_error e"
  by (cases "response_error d res :: 'x result") (auto simp: response_error_fails response_error_not_auth)

text \<open>The outcome of a call that reads JSON, returns nothing or downloads: an answer that is
  not ok is always an error, and exactly the status 401 gives the \<open>AuthError\<close> that ends the
  session, whatever the body says.\<close>

theorem only_401_is_auth_error:
  assumes "\<not> rs_ok res"
  shows "(\<exists>e. readJSON res = Inl e \<and> is_auth_error e = (rs_status res = 401))
    \<and> (\<exists>e. readVoid dflt res = Inl e \<and> is_auth_error e = (rs_status res = 401))
    \<and> (\<exists>e. readBlob res = Inl e \<and> is_auth_error e = (rs_status res = 401))"
  using assms by (simp add: readJSON_def readVoid_def readBlob_def response_error_value)

definition sample_response :: response where
  "sample_response = \<lparr>rs_ok = False, rs_status = 401, rs_json = Inl SyntaxError, rs_blob = Inl TypeError\<rparr>"

theorem only_401_is_auth_error_witness:
  "\<exists>e. readVoid (js ''leave_failed'') sample_response = Inl e \<and> is_auth_error e"
  using only_401_is_auth_error[of sample_response "js ''leave_failed''"] by (auto simp: sample_response_def)

end
