(* ===== verification/Messages.thy ===== *)
theory Messages
  imports Api
begin

text \<open>
  The pure part of \<open>hooks/useMessages.ts\<close>: how pages, the live feed and the pending
  bubbles are merged into the lists the chat shows.  The maps keyed by message id
  follow one contract, the interface \<open>keyed_put\<close>: every id appears once, every value
  comes from the input.  \<open>keyed_best\<close> extends it: the value kept has the highest rank.
  Both sorts are interpretations of \<open>stable_sorting\<close>.
\<close>

section \<open>The interface of a map keyed by id\<close>

locale keyed_put =
  fixes key :: "'v \<Rightarrow> 'k"
    and put :: "'v \<Rightarrow> ('k, 'v) jmap \<Rightarrow> ('k, 'v) jmap"
  assumes put_new: "jm_get m (key x) = None \<Longrightarrow> put x m = jm_set (key x) x m"
    and put_old: "jm_get m (key x) = Some c \<Longrightarrow> put x m = m \<or> put x m = jm_set (key x) x m"
begin

lemma put_cases: "put x m = jm_set (key x) x m \<or> (put x m = m \<and> jm_get m (key x) \<noteq> None)"
  using put_new[of m x] put_old[of m x] by (cases "jm_get m (key x)") auto

lemma put_keys: "dom (jm_get (put x m)) = insert (key x) (dom (jm_get m))"
  using put_cases[of x m] by (auto simp: jmap_simps)

lemma put_distinct: "distinct (map fst m) \<Longrightarrow> distinct (map fst (put x m))"
  using put_cases[of x m] by (auto simp: jmap_simps)

lemma put_get: "jm_get (put x m) k = Some v \<Longrightarrow> (k = key x \<and> v = x) \<or> jm_get m k = Some v"
  using put_cases[of x m] by (auto simp: jmap_simps split: if_splits)

lemma fold_distinct: "distinct (map fst m) \<Longrightarrow> distinct (map fst (fold put xs m))"
  by (induction xs arbitrary: m) (auto simp: put_distinct)

lemma fold_keys: "dom (jm_get (fold put xs m)) = key ` set xs \<union> dom (jm_get m)"
  by (induction xs arbitrary: m) (auto simp: put_keys)

lemma fold_get:
  "jm_get (fold put xs m) k = Some v \<Longrightarrow> (v \<in> set xs \<and> key v = k) \<or> jm_get m k = Some v"
proof (induction xs arbitrary: m)
  case (Cons x xs)
  from Cons.IH[of "put x m"] Cons.prems put_get[of x m k v] show ?case by auto
qed simp

definition collected :: "'v list \<Rightarrow> 'v list" where
  "collected xs = jm_values (fold put xs [])"

lemma collected_iff: "v \<in> set (collected xs) \<longleftrightarrow> (\<exists>k. jm_get (fold put xs []) k = Some v)"
  by (simp add: collected_def in_jm_values fold_distinct)

lemma collected_subset: "set (collected xs) \<subseteq> set xs"
  using fold_get[of xs "[]"] by (auto simp: collected_iff)

lemma collected_keys: "key ` set (collected xs) = key ` set xs"
proof
  show "key ` set xs \<subseteq> key ` set (collected xs)"
  proof
    fix k assume "k \<in> key ` set xs"
    then obtain v where "jm_get (fold put xs []) k = Some v"
      using fold_keys[of xs "[]"] by auto
    then show "k \<in> key ` set (collected xs)"
      using fold_get[of xs "[]" k v] collected_iff by fastforce
  qed
qed (use collected_subset in auto)

lemma collected_distinct: "distinct (map key (collected xs))"
proof -
  have d: "distinct (map fst (fold put xs []))" by (simp add: fold_distinct)
  have "map key (collected xs) = map fst (fold put xs [])"
    unfolding collected_def jm_values_def map_map
  proof (rule map_cong[OF refl])
    fix kv assume "kv \<in> set (fold put xs [])"
    then have "jm_get (fold put xs []) (fst kv) = Some (snd kv)"
      using map_of_is_SomeI[OF d, of "fst kv" "snd kv"] by simp
    then show "(key \<circ> snd) kv = fst kv" using fold_get by fastforce
  qed
  with d show ?thesis by simp
qed

end

locale keyed_best = keyed_put +
  fixes ok :: "'a \<Rightarrow> bool" and rank :: "'a \<Rightarrow> int"
  assumes put_best: "ok x \<Longrightarrow> jm_get m (key x) = Some c \<Longrightarrow> ok c \<Longrightarrow> put x m = m \<Longrightarrow> rank x \<le> rank c"
    and put_worse: "ok x \<Longrightarrow> jm_get m (key x) = Some c \<Longrightarrow> ok c \<Longrightarrow> rank x < rank c \<Longrightarrow> put x m = m"
begin

definition best_in :: "('b, 'a) jmap \<Rightarrow> 'a \<Rightarrow> bool" where
  "best_in m x = (\<exists>v. jm_get m (key x) = Some v \<and> ok v \<and> rank x \<le> rank v)"

lemma put_best_in:
  assumes "ok x" "\<forall>k v. jm_get m k = Some v \<longrightarrow> ok v \<and> key v = k"
  shows "best_in (put x m) x" and "best_in m y \<Longrightarrow> best_in (put x m) y"
proof -
  show "best_in (put x m) x"
  proof (cases "jm_get m (key x)")
    case None
    with assms(1) show ?thesis by (simp add: best_in_def put_new jmap_simps)
  next
    case (Some c)
    with assms put_old[OF Some] put_best[OF assms(1) Some] show ?thesis
      by (auto simp: best_in_def jmap_simps)
  qed
  assume b: "best_in m y"
  then obtain v where v: "jm_get m (key y) = Some v" "ok v" "rank y \<le> rank v"
    by (auto simp: best_in_def)
  show "best_in (put x m) y"
  proof (cases "key y = key x")
    case True
    with v have c: "jm_get m (key x) = Some v" by simp
    show ?thesis
    proof (cases "rank x < rank v")
      case True
      then show ?thesis using b put_worse[OF assms(1) c v(2)] by simp
    next
      case False
      then show ?thesis using b v put_old[OF c] \<open>key y = key x\<close> assms(1)
        by (auto simp: best_in_def jmap_simps)
    qed
  next
    case False
    then show ?thesis using b put_cases[of x m] by (auto simp: best_in_def jmap_simps)
  qed
qed

lemma fold_best:
  assumes "\<forall>x\<in>set xs. ok x" "\<forall>k v. jm_get m k = Some v \<longrightarrow> ok v \<and> key v = k"
  shows "(\<forall>x\<in>set xs. best_in (fold put xs m) x) \<and> (\<forall>y. best_in m y \<longrightarrow> best_in (fold put xs m) y)"
  using assms
proof (induction xs arbitrary: m)
  case (Cons x xs)
  have k: "\<forall>k v. jm_get (put x m) k = Some v \<longrightarrow> ok v \<and> key v = k"
    using Cons.prems put_get[of x m] by auto
  from Cons.IH[OF _ k] Cons.prems put_best_in[of x m] show ?case by auto
qed simp

lemma collected_best:
  assumes "\<forall>x\<in>set xs. ok x" "x \<in> set xs" "v \<in> set (collected xs)" "key v = key x"
  shows "rank x \<le> rank v"
proof -
  have "best_in (fold put xs []) x" using fold_best[of xs "[]"] assms(1,2) by simp
  moreover obtain k where "jm_get (fold put xs []) k = Some v" using assms(3) collected_iff by blast
  ultimately show ?thesis using fold_get[of xs "[]" k v] assms(4) by (auto simp: best_in_def)
qed

end

section \<open>Pages\<close>

definition pagedMessages :: "encrypted_message list \<Rightarrow> encrypted_message list option \<Rightarrow> encrypted_message list" where
  "pagedMessages olderMessages historyMessages = olderMessages @ nullish historyMessages []"

text \<open>The cursor of the next older page: the earliest creation time, the empty string when there
  is no message; a comparison with NaN is false.\<close>

fun date_less :: "int option \<Rightarrow> int option \<Rightarrow> bool" where
  "date_less (Some x) (Some y) = (x < y)"
| "date_less _ _ = False"

definition oldestPagedMessageAt :: "(jstr \<Rightarrow> int option) \<Rightarrow> encrypted_message list \<Rightarrow> jstr" where
  "oldestPagedMessageAt dp paged =
     foldl (\<lambda>oldest msg. if oldest = [] \<or> date_less (dp (em_createdAt msg)) (dp oldest)
                          then em_createdAt msg else oldest) [] paged"

definition created_asc :: "(jstr \<Rightarrow> int option) \<Rightarrow> encrypted_message \<Rightarrow> encrypted_message \<Rightarrow> int" where
  "created_asc dp a b = date_diff (dp (em_createdAt a)) (dp (em_createdAt b))"

definition set_message :: "encrypted_message \<Rightarrow> (jstr, encrypted_message) jmap \<Rightarrow> (jstr, encrypted_message) jmap" where
  "set_message msg byID = jm_set (em_id msg) msg byID"

definition mergeMessagePages ::
    "(jstr \<Rightarrow> int option) \<Rightarrow> encrypted_message list \<Rightarrow> encrypted_message list \<Rightarrow> encrypted_message list" where
  "mergeMessagePages dp prev incoming =
     (let byID = fold set_message incoming [];
          byID = fold set_message prev byID
      in js_sort (created_asc dp) (jm_values byID))"

section \<open>The encrypted list\<close>

definition version_of :: "(jstr \<Rightarrow> int option) \<Rightarrow> encrypted_message \<Rightarrow> int option" where
  "version_of dp msg = messageVersion dp (em_deletedAt msg) (em_editedAt msg) (em_createdAt msg)"

fun date_eq :: "int option \<Rightarrow> int option \<Rightarrow> bool" where
  "date_eq (Some x) (Some y) = (x = y)"
| "date_eq _ _ = False"

definition is_read :: "encrypted_message \<Rightarrow> bool" where
  "is_read msg = (em_read msg = Some True)"

definition put_message ::
    "(jstr \<Rightarrow> int option) \<Rightarrow> encrypted_message \<Rightarrow> (jstr, encrypted_message) jmap \<Rightarrow> (jstr, encrypted_message) jmap" where
  "put_message dp msg byID =
     (case jm_get byID (em_id msg) of
        None \<Rightarrow> jm_set (em_id msg) msg byID
      | Some current \<Rightarrow>
          (let v = version_of dp msg; w = version_of dp current in
           if date_less w v
              \<or> (date_eq v w \<and> is_read msg \<and> \<not> is_read current)
              \<or> (date_eq v w \<and> reactionSignature (em_reactions msg) \<noteq> reactionSignature (em_reactions current))
           then jm_set (em_id msg) msg byID else byID))"

definition in_room :: "jstr \<Rightarrow> encrypted_message \<Rightarrow> bool" where
  "in_room activeRoomID msg = (em_roomId msg = activeRoomID)"

definition encryptedMessages ::
    "(jstr \<Rightarrow> int option) \<Rightarrow> jstr \<Rightarrow> bool \<Rightarrow> encrypted_message list \<Rightarrow> encrypted_message list \<Rightarrow>
     encrypted_message list \<Rightarrow> encrypted_message list" where
  "encryptedMessages dp activeRoomID isInContextMode contextMessages paged liveMessages =
     (let sourceMessages = (if isInContextMode then contextMessages else paged);
          byID = fold (put_message dp) (filter (in_room activeRoomID) sourceMessages) [];
          byID = (if \<not> isInContextMode
                  then fold (put_message dp) (filter (in_room activeRoomID) liveMessages) byID else byID)
      in js_sort (created_asc dp) (jm_values byID))"

section \<open>The attachment list\<close>

definition put_attachment ::
    "(jstr \<Rightarrow> int option) \<Rightarrow> encrypted_message \<Rightarrow> (jstr, encrypted_message) jmap \<Rightarrow> (jstr, encrypted_message) jmap" where
  "put_attachment dp msg byID =
     (case jm_get byID (em_id msg) of
        None \<Rightarrow> jm_set (em_id msg) msg byID
      | Some current \<Rightarrow>
          if date_less (version_of dp current) (version_of dp msg) \<or> date_eq (version_of dp msg) (version_of dp current)
          then jm_set (em_id msg) msg byID else byID)"

definition created_desc :: "(jstr \<Rightarrow> int option) \<Rightarrow> encrypted_message \<Rightarrow> encrypted_message \<Rightarrow> int" where
  "created_desc dp a b = date_diff (dp (em_createdAt b)) (dp (em_createdAt a))"

definition encryptedAttachmentMessages ::
    "(jstr \<Rightarrow> int option) \<Rightarrow> jstr \<Rightarrow> encrypted_message list option \<Rightarrow> encrypted_message list \<Rightarrow> encrypted_message list" where
  "encryptedAttachmentMessages dp activeRoomID attachmentHistory liveMessages =
     (let byID = fold (put_attachment dp) (filter (in_room activeRoomID) (nullish attachmentHistory [])) [];
          byID = fold (put_attachment dp) (filter (in_room activeRoomID) liveMessages) byID
      in js_sort (created_desc dp) (jm_values byID))"

section \<open>The displayed list\<close>

definition sent_at :: "decrypted_message \<Rightarrow> jstr option" where
  "sent_at msg = (case dm_body msg of None \<Rightarrow> None | Some b \<Rightarrow> nonempty (pm_sentAt b))"

definition confirmedSentAts :: "jstr option \<Rightarrow> decrypted_message list \<Rightarrow> jstr list" where
  "confirmedSentAts userId decryptedMessages =
     List.map_filter (\<lambda>msg. if Some (dm_senderId msg) = userId then sent_at msg else None) decryptedMessages"

definition set_decrypted :: "decrypted_message \<Rightarrow> (jstr, decrypted_message) jmap \<Rightarrow> (jstr, decrypted_message) jmap" where
  "set_decrypted msg byID = jm_set (dm_id msg) msg byID"

definition display_asc :: "(jstr \<Rightarrow> int option) \<Rightarrow> decrypted_message \<Rightarrow> decrypted_message \<Rightarrow> int" where
  "display_asc dp a b = date_diff (dp (dm_createdAt a)) (dp (dm_createdAt b))"

definition shown_pending :: "jstr \<Rightarrow> jstr list \<Rightarrow> jstr list \<Rightarrow> decrypted_message \<Rightarrow> bool" where
  "shown_pending activeRoomID deleted confirmed msg =
     (dm_roomId msg = activeRoomID \<and> dm_id msg \<notin> set deleted \<and>
      \<not> (case sent_at msg of None \<Rightarrow> False | Some s \<Rightarrow> s \<in> set confirmed))"

definition shown_decrypted :: "jstr \<Rightarrow> jstr list \<Rightarrow> decrypted_message \<Rightarrow> bool" where
  "shown_decrypted activeRoomID deleted msg = (dm_roomId msg = activeRoomID \<and> dm_id msg \<notin> set deleted)"

text \<open>\<open>deleted\<close> lists the keys of \<open>localDeletedMessageIDs\<close>.\<close>

definition displayMessages ::
    "(jstr \<Rightarrow> int option) \<Rightarrow> jstr option \<Rightarrow> jstr \<Rightarrow> jstr list \<Rightarrow> decrypted_message list \<Rightarrow>
     decrypted_message list \<Rightarrow> decrypted_message list" where
  "displayMessages dp userId activeRoomID deleted pendingMessages decryptedMessages =
     (let confirmed = confirmedSentAts userId decryptedMessages;
          byID = fold set_decrypted (filter (shown_pending activeRoomID deleted confirmed) pendingMessages) [];
          byID = fold set_decrypted (filter (shown_decrypted activeRoomID deleted) decryptedMessages) byID
      in js_sort (display_asc dp) (jm_values byID))"

section \<open>Search and previews\<close>

text \<open>\<open>[a, b, ...].filter(Boolean)\<close> on optional strings.\<close>

definition present :: "jstr option list \<Rightarrow> jstr list" where
  "present xs = List.map_filter (\<lambda>x. if truthy x then x else None) xs"

definition haystack :: "decrypted_message \<Rightarrow> jstr" where
  "haystack msg = js_join (js '' '') (present
     [map_option pm_senderName (dm_body msg), map_option pm_text (dm_body msg),
      Option.bind (dm_body msg) (\<lambda>b. map_option at_name (pm_attachment b)),
      Option.bind (dm_body msg) (\<lambda>b. map_option rr_text (pm_replyTo b))])"

definition visibleMessages :: "(jstr \<Rightarrow> jstr) \<Rightarrow> jstr \<Rightarrow> decrypted_message list \<Rightarrow> decrypted_message list" where
  "visibleMessages lower messageSearch display =
     (let query = lower (js_trim messageSearch)
      in if query = [] then display else filter (\<lambda>msg. js_includes (lower (haystack msg)) query) display)"

definition body_label :: "decrypted_message \<Rightarrow> jstr option" where
  "body_label msg =
     (let text = map_option pm_text (dm_body msg);
          name = Option.bind (dm_body msg) (\<lambda>b. map_option at_name (pm_attachment b))
      in if truthy text then text else if truthy name then name else None)"

definition messageReplyPreview :: "decrypted_message \<Rightarrow> reply_ref" where
  "messageReplyPreview msg =
     (let text = nullish (body_label msg) (js ''Message'')
      in \<lparr>rr_id = dm_id msg,
          rr_senderName = (case dm_body msg of None \<Rightarrow> dm_senderId msg | Some b \<Rightarrow> pm_senderName b),
          rr_text = (if 120 < length text then js_slice 0 117 text @ js ''...'' else text)\<rparr>)"

text \<open>The text \<open>copyMessageText\<close> writes to the clipboard, None when it does nothing.\<close>

definition copyMessageText :: "decrypted_message \<Rightarrow> jstr option" where
  "copyMessageText msg = body_label msg"


section \<open>The model provides the interfaces\<close>

definition dated :: "(jstr \<Rightarrow> int option) \<Rightarrow> encrypted_message \<Rightarrow> bool" where
  "dated dp msg = (dp (em_createdAt msg) \<noteq> None \<and> version_of dp msg \<noteq> None)"

definition created_at :: "(jstr \<Rightarrow> int option) \<Rightarrow> encrypted_message \<Rightarrow> int" where
  "created_at dp msg = the (dp (em_createdAt msg))"

definition version :: "(jstr \<Rightarrow> int option) \<Rightarrow> encrypted_message \<Rightarrow> int" where
  "version dp msg = the (version_of dp msg)"

lemma jm_set_same: "jm_set k v m = m \<Longrightarrow> jm_get m k = Some v"
  by (metis fun_upd_same jm_get_set)

interpretation page_put: keyed_put em_id set_message
  by unfold_locales (auto simp: set_message_def)

interpretation live_put: keyed_best em_id "put_message dp" "dated dp" "version dp" for dp
  by unfold_locales
    (auto simp: put_message_def dated_def version_def Let_def split: if_splits dest: jm_set_same)

interpretation attachment_put: keyed_best em_id "put_attachment dp" "dated dp" "version dp" for dp
  by unfold_locales
    (auto simp: put_attachment_def dated_def version_def Let_def split: if_splits dest: jm_set_same)

interpretation display_put: keyed_put dm_id set_decrypted
  by unfold_locales (auto simp: set_decrypted_def)

interpretation asc: stable_sorting "created_asc dp" "created_at dp" "dated dp" for dp
  by unfold_locales (auto simp: created_asc_def created_at_def dated_def)

interpretation desc: stable_sorting "created_desc dp" "\<lambda>m. - created_at dp m" "dated dp" for dp
  by unfold_locales (auto simp: created_desc_def created_at_def dated_def)

interpretation shown_asc: stable_sorting "display_asc dp" "\<lambda>m. the (dp (dm_createdAt m))"
  "\<lambda>m. dp (dm_createdAt m) \<noteq> None" for dp
  by unfold_locales (auto simp: display_asc_def)

section \<open>Properties\<close>

definition room_sources ::
    "jstr \<Rightarrow> bool \<Rightarrow> encrypted_message list \<Rightarrow> encrypted_message list \<Rightarrow> encrypted_message list \<Rightarrow> encrypted_message list" where
  "room_sources activeRoomID ctx contextMessages paged liveMessages =
     filter (in_room activeRoomID) (if ctx then contextMessages else paged @ liveMessages)"

lemma encryptedMessages_eq:
  "encryptedMessages dp rid ctx cms paged live
    = js_sort (created_asc dp) (live_put.collected dp (room_sources rid ctx cms paged live))"
  by (simp add: encryptedMessages_def live_put.collected_def room_sources_def Let_def)

lemma attachments_eq:
  "encryptedAttachmentMessages dp rid hist live
    = js_sort (created_desc dp) (attachment_put.collected dp (filter (in_room rid) (nullish hist [] @ live)))"
  by (simp add: encryptedAttachmentMessages_def attachment_put.collected_def Let_def)

lemma mergeMessagePages_eq:
  "mergeMessagePages dp prev incoming = js_sort (created_asc dp) (page_put.collected (incoming @ prev))"
  by (simp add: mergeMessagePages_def page_put.collected_def Let_def)

text \<open>C6. The list of a room: in time order, each message once, none lost and none of another
  room, and of several versions of a message (pages, edits, deletions, live events, in any order)
  the newest one; in context mode only the window counts.\<close>

theorem encrypted_list_correct:
  assumes "\<forall>m\<in>set (room_sources rid ctx cms paged live). dated dp m"
  shows "let shown = encryptedMessages dp rid ctx cms paged live;
             sources = room_sources rid ctx cms paged live
         in sorted (map (created_at dp) shown) \<and> distinct (map em_id shown)
          \<and> em_id ` set shown = em_id ` set sources \<and> set shown \<subseteq> set sources
          \<and> (\<forall>y\<in>set shown. \<forall>x\<in>set sources. em_id x = em_id y \<longrightarrow> version dp x \<le> version dp y)"
proof -
  define shown where "shown = encryptedMessages dp rid ctx cms paged live"
  define sources where "sources = room_sources rid ctx cms paged live"
  have ok: "\<forall>m\<in>set sources. dated dp m" using assms by (simp add: sources_def)
  have sub: "set (live_put.collected dp sources) \<subseteq> set sources"
    by (rule live_put.collected_subset)
  then have "sorted (map (created_at dp) shown)"
    using ok unfolding shown_def encryptedMessages_eq sources_def
    by (intro asc.js_sort_sorted) blast
  moreover have set: "set shown = set (live_put.collected dp sources)"
    by (simp add: shown_def encryptedMessages_eq sources_def)
  moreover have "distinct (map em_id shown)"
    by (simp add: shown_def encryptedMessages_eq distinct_map_js_sort live_put.collected_distinct)
  moreover have "em_id ` set shown = em_id ` set sources"
    by (simp only: set live_put.collected_keys)
  moreover have "\<forall>y\<in>set shown. \<forall>x\<in>set sources. em_id x = em_id y \<longrightarrow> version dp x \<le> version dp y"
    using live_put.collected_best[OF ok] set by fastforce
  ultimately show ?thesis
    using sub unfolding Let_def shown_def[symmetric] sources_def[symmetric] by simp
qed

text \<open>The attachment list keeps the same promises, newest first.\<close>

theorem attachment_list_correct:
  assumes "\<forall>m\<in>set (nullish hist [] @ live). dated dp m"
  shows "let shown = encryptedAttachmentMessages dp rid hist live;
             sources = filter (in_room rid) (nullish hist [] @ live)
         in sorted (map (\<lambda>m. - created_at dp m) shown) \<and> distinct (map em_id shown)
          \<and> em_id ` set shown = em_id ` set sources \<and> set shown \<subseteq> set sources
          \<and> (\<forall>y\<in>set shown. \<forall>x\<in>set sources. em_id x = em_id y \<longrightarrow> version dp x \<le> version dp y)"
proof -
  define shown where "shown = encryptedAttachmentMessages dp rid hist live"
  define sources where "sources = filter (in_room rid) (nullish hist [] @ live)"
  have ok: "\<forall>m\<in>set sources. dated dp m" using assms(1) by (auto simp: sources_def)
  have sub: "set (attachment_put.collected dp sources) \<subseteq> set sources"
    by (rule attachment_put.collected_subset)
  then have "sorted (map (\<lambda>m. - created_at dp m) shown)"
    using ok unfolding shown_def attachments_eq sources_def
    by (intro desc.js_sort_sorted) blast
  moreover have set: "set shown = set (attachment_put.collected dp sources)"
    by (simp add: shown_def attachments_eq sources_def)
  moreover have "distinct (map em_id shown)"
    by (simp add: shown_def attachments_eq distinct_map_js_sort attachment_put.collected_distinct)
  moreover have "em_id ` set shown = em_id ` set sources"
    by (simp only: set attachment_put.collected_keys)
  moreover have "\<forall>y\<in>set shown. \<forall>x\<in>set sources. em_id x = em_id y \<longrightarrow> version dp x \<le> version dp y"
    using attachment_put.collected_best[OF ok] set by fastforce
  ultimately show ?thesis
    using sub unfolding Let_def shown_def[symmetric] sources_def[symmetric] by simp
qed

lemma set_message_prev:
  "jm_get (fold set_message ms m) k = Some v \<Longrightarrow> k \<in> em_id ` set ms \<Longrightarrow> v \<in> set ms"
  by (induction ms rule: rev_induct) (auto simp: set_message_def jmap_simps split: if_splits)

text \<open>Merging an older page keeps every message of both pages, once and in time order, and
  of a message in both the copy of the first argument.\<close>

theorem merge_pages_correct:
  assumes "\<forall>m\<in>set (prev @ incoming). dated dp m"
  shows "let merged = mergeMessagePages dp prev incoming
         in sorted (map (created_at dp) merged) \<and> distinct (map em_id merged)
          \<and> em_id ` set merged = em_id ` set prev \<union> em_id ` set incoming
          \<and> (\<forall>y\<in>set merged. y \<in> set prev \<or> (y \<in> set incoming \<and> em_id y \<notin> em_id ` set prev))"
proof -
  define merged where "merged = mergeMessagePages dp prev incoming"
  have sub: "set (page_put.collected (incoming @ prev)) \<subseteq> set (incoming @ prev)"
    by (rule page_put.collected_subset)
  have "sorted (map (created_at dp) merged)"
    using assms(1) sub unfolding merged_def mergeMessagePages_eq by (intro asc.js_sort_sorted) auto
  moreover have "set merged = set (page_put.collected (incoming @ prev))"
    by (simp add: merged_def mergeMessagePages_eq)
  moreover have "distinct (map em_id merged)"
    by (simp add: merged_def mergeMessagePages_eq distinct_map_js_sort page_put.collected_distinct)
  moreover have "y \<in> set prev \<or> (y \<in> set incoming \<and> em_id y \<notin> em_id ` set prev)"
    if y: "y \<in> set (page_put.collected (incoming @ prev))" for y
  proof -
    obtain k where k: "jm_get (fold set_message prev (fold set_message incoming [])) k = Some y"
      using y page_put.collected_iff[of y "incoming @ prev"] by auto
    then have "em_id y = k" using page_put.fold_get[of "incoming @ prev" "[]" k y] by auto
    then show ?thesis
      using k set_message_prev[OF k] sub y by auto
  qed
  ultimately show ?thesis
    using page_put.collected_keys[of "incoming @ prev"]
    unfolding Let_def merged_def[symmetric] by (simp only: set_append image_Un) (simp add: Un_commute)
qed


definition sample_em :: "jstr \<Rightarrow> jstr \<Rightarrow> jstr \<Rightarrow> encrypted_message" where
  "sample_em i room at = \<lparr>em_id = i, em_roomId = room, em_senderId = js ''u'', em_ciphertext = [], em_nonce = [],
     em_algorithm = PLAIN_MESSAGE_ALGORITHM, em_keyId = js ''plain'', em_createdAt = at, em_editedAt = None,
     em_deletedAt = None, em_readBy = None, em_readReceipts = None, em_read = None, em_reactions = None\<rparr>"

text \<open>A stand-in for \<open>Date.parse\<close> in the witnesses: the length of the text is the time.\<close>

definition sample_dp :: "jstr \<Rightarrow> int option" where
  "sample_dp s = (if s = [] then None else Some (int (length s)))"

lemma sample_dated: "t \<noteq> [] \<Longrightarrow> dated sample_dp (sample_em i r t)"
  by (simp add: dated_def sample_em_def sample_dp_def version_of_def messageVersion_def or_str_def)

theorem encrypted_list_correct_witness:
  "let shown = encryptedMessages sample_dp (js ''r'') False [] [sample_em (js ''a'') (js ''r'') (js ''22'')]
       [sample_em (js ''b'') (js ''r'') (js ''1'')]
   in sorted (map (created_at sample_dp) shown) \<and> distinct (map em_id shown) \<and> js ''a'' \<in> em_id ` set shown"
proof -
  have "\<forall>m\<in>set (room_sources (js ''r'') False [] [sample_em (js ''a'') (js ''r'') (js ''22'')]
       [sample_em (js ''b'') (js ''r'') (js ''1'')]). dated sample_dp m"
    by (auto simp: room_sources_def sample_dated)
  from encrypted_list_correct[OF this] show ?thesis
    by (simp add: Let_def room_sources_def in_room_def sample_em_def)
qed

theorem attachment_list_correct_witness:
  "let shown = encryptedAttachmentMessages sample_dp (js ''r'') None
       [sample_em (js ''a'') (js ''r'') (js ''22''), sample_em (js ''b'') (js ''r'') (js ''1'')]
   in sorted (map (\<lambda>m. - created_at sample_dp m) shown) \<and> em_id ` set shown = {js ''a'', js ''b''}"
proof -
  have "\<forall>m\<in>set (nullish None [] @
       [sample_em (js ''a'') (js ''r'') (js ''22''), sample_em (js ''b'') (js ''r'') (js ''1'')]). dated sample_dp m"
    by (auto simp: sample_dated)
  from attachment_list_correct[OF this, of "js ''r''"] show ?thesis
    by (simp add: Let_def in_room_def sample_em_def)
qed

theorem merge_pages_correct_witness:
  "em_id ` set (mergeMessagePages sample_dp [sample_em (js ''a'') (js ''r'') (js ''22'')]
     [sample_em (js ''b'') (js ''r'') (js ''1'')]) = {js ''a'', js ''b''}"
proof -
  have "\<forall>m\<in>set ([sample_em (js ''a'') (js ''r'') (js ''22'')] @ [sample_em (js ''b'') (js ''r'') (js ''1'')]).
      dated sample_dp m"
    by (auto simp: sample_dated)
  from merge_pages_correct[OF this] show ?thesis
    by (simp add: Let_def sample_em_def insert_commute)
qed

lemma set_decrypted_last:
  "jm_get (fold set_decrypted ms m) k = Some v \<Longrightarrow> k \<in> dm_id ` set ms \<Longrightarrow> v \<in> set ms"
  by (induction ms rule: rev_induct) (auto simp: set_decrypted_def jmap_simps split: if_splits)

lemma displayMessages_eq:
  "displayMessages dp uid rid deleted pending decrypted
    = js_sort (display_asc dp) (display_put.collected
        (filter (shown_pending rid deleted (confirmedSentAts uid decrypted)) pending
         @ filter (shown_decrypted rid deleted) decrypted))"
  by (simp add: displayMessages_def display_put.collected_def Let_def)

lemma confirmed_mem:
  "m \<in> set decrypted \<Longrightarrow> Some (dm_senderId m) = uid \<Longrightarrow> sent_at m = Some s \<Longrightarrow>
   s \<in> set (confirmedSentAts uid decrypted)"
  by (force simp: confirmedSentAts_def List.map_filter_def)

text \<open>C7. The displayed list: each id once, only the active room, nothing the user deleted; every
  decrypted message of the room that was not deleted is shown, and the bubble of a message being
  sent disappears the moment its confirmed copy (same sender, same \<open>sentAt\<close>) is decrypted, so
  the two are never shown together.\<close>

theorem display_list_correct:
  assumes "\<forall>m\<in>set (pending @ decrypted). dp (dm_createdAt m) \<noteq> None"
  shows "let shown = displayMessages dp uid rid deleted pending decrypted
         in sorted (map (\<lambda>m. the (dp (dm_createdAt m))) shown) \<and> distinct (map dm_id shown)
          \<and> (\<forall>m\<in>set shown. dm_roomId m = rid \<and> dm_id m \<notin> set deleted)
          \<and> (\<forall>d\<in>set decrypted. dm_roomId d = rid \<and> dm_id d \<notin> set deleted
               \<longrightarrow> (\<exists>m\<in>set shown. m \<in> set decrypted \<and> dm_id m = dm_id d))
          \<and> (\<forall>p\<in>set shown. \<forall>d\<in>set decrypted. p \<notin> set decrypted \<and> Some (dm_senderId d) = uid
               \<and> sent_at d \<noteq> None \<longrightarrow> sent_at p \<noteq> sent_at d)"
proof -
  define ps where "ps = filter (shown_pending rid deleted (confirmedSentAts uid decrypted)) pending"
  define ds where "ds = filter (shown_decrypted rid deleted) decrypted"
  define shown where "shown = displayMessages dp uid rid deleted pending decrypted"
  have eq: "shown = js_sort (display_asc dp) (display_put.collected (ps @ ds))"
    by (simp add: shown_def displayMessages_eq ps_def ds_def)
  have set: "set shown = set (display_put.collected (ps @ ds))" by (simp add: eq)
  have sub: "set shown \<subseteq> set ps \<union> set ds"
    using display_put.collected_subset[of "ps @ ds"] set by auto
  have "sorted (map (\<lambda>m. the (dp (dm_createdAt m))) shown)"
    unfolding eq using assms display_put.collected_subset[of "ps @ ds"]
    by (intro shown_asc.js_sort_sorted) (auto simp: ps_def ds_def)
  moreover have "distinct (map dm_id shown)"
    by (simp add: eq distinct_map_js_sort display_put.collected_distinct)
  moreover have "\<forall>m\<in>set shown. dm_roomId m = rid \<and> dm_id m \<notin> set deleted"
    using sub by (auto simp: ps_def ds_def shown_pending_def shown_decrypted_def)
  moreover have "\<exists>m\<in>set shown. m \<in> set decrypted \<and> dm_id m = dm_id d"
    if "d \<in> set decrypted" "dm_roomId d = rid" "dm_id d \<notin> set deleted" for d
  proof -
    have d: "dm_id d \<in> dm_id ` set ds" using that by (auto simp: ds_def shown_decrypted_def)
    then have "dm_id d \<in> dom (jm_get (fold set_decrypted (ps @ ds) []))"
      using display_put.fold_keys[of "ps @ ds" "[]"] by auto
    then obtain v where v: "jm_get (fold set_decrypted (ps @ ds) []) (dm_id d) = Some v" by auto
    then have "v \<in> set shown" using set display_put.collected_iff by blast
    moreover have "v \<in> set ds" using v set_decrypted_last[OF _ d] by simp
    moreover have "dm_id v = dm_id d" using v display_put.fold_get[of "ps @ ds" "[]"] by auto
    ultimately show ?thesis by (auto simp: ds_def)
  qed
  moreover have "sent_at p \<noteq> sent_at d"
    if "p \<in> set shown" "d \<in> set decrypted" "p \<notin> set decrypted" "Some (dm_senderId d) = uid" "sent_at d \<noteq> None" for p d
  proof -
    from \<open>sent_at d \<noteq> None\<close> obtain s where s: "sent_at d = Some s" by blast
    then have "s \<in> set (confirmedSentAts uid decrypted)" using confirmed_mem that by blast
    moreover have "p \<in> set ps" using sub that by (auto simp: ds_def)
    ultimately show ?thesis using s by (auto simp: ps_def shown_pending_def)
  qed
  ultimately show ?thesis
    unfolding Let_def shown_def[symmetric] by (intro conjI ballI impI) blast+
qed

definition sample_dm :: "jstr \<Rightarrow> jstr \<Rightarrow> jstr \<Rightarrow> decrypted_message" where
  "sample_dm i room at = \<lparr>dm_id = i, dm_roomId = room, dm_senderId = js ''u'',
     dm_body = Some (sample_message\<lparr>pm_sentAt := at\<rparr>), dm_createdAt = at, dm_editedAt = None, dm_deletedAt = None,
     dm_readBy = None, dm_readReceipts = None, dm_read = None, dm_reactions = None, dm_status = None, dm_failed = None\<rparr>"

lemma sample_dm_sel [simp]: "dm_id (sample_dm i r a) = i" "dm_roomId (sample_dm i r a) = r"
    "dm_createdAt (sample_dm i r a) = a"
  by (simp_all add: sample_dm_def)

theorem display_list_correct_witness:
  "let shown = displayMessages sample_dp (Some (js ''u'')) (js ''r'') []
      [sample_dm (js ''local-1'') (js ''r'') (js ''1'')] [sample_dm (js ''m1'') (js ''r'') (js ''1'')]
   in (\<exists>m\<in>set shown. dm_id m = js ''m1'') \<and> (\<forall>m\<in>set shown. dm_roomId m = js ''r'')"
proof -
  have "\<forall>m\<in>set ([sample_dm (js ''local-1'') (js ''r'') (js ''1'')] @ [sample_dm (js ''m1'') (js ''r'') (js ''1'')]).
      sample_dp (dm_createdAt m) \<noteq> None"
    by (simp add: sample_dp_def)
  from display_list_correct[OF this, of "Some (js ''u'')" "js ''r''" "[]"] show ?thesis
    by (auto simp: Let_def intro!: bexI[of _ "sample_dm (js ''m1'') (js ''r'') (js ''1'')"])
qed

lemma reply_preview_short: "length (rr_text (messageReplyPreview msg)) \<le> 120"
  by (simp add: messageReplyPreview_def Let_def js_slice_def)

end
