(* ===== verification/MessageState.thy ===== *)
theory MessageState
  imports Messages
begin

text \<open>
  The stateful part of \<open>hooks/useMessages.ts\<close>.  \<open>msg_state\<close> holds the hook's state and
  refs, \<open>msg_env\<close> what a render closes over (session, identity, active room, query data).
  An asynchronous operation is a start, which returns the calls it makes, and a
  completion, which gets the answer; functional updates (\<open>setX(prev => ...)\<close>) act on the
  state at completion.  Effects are listed in order.  Text keys stand for \<open>t(key)\<close>.
\<close>

section \<open>State\<close>

record file_ref =
  fl_name :: jstr
  fl_blob :: blob

definition fl_size :: "file_ref \<Rightarrow> nat" where
  "fl_size f = length (bl_bytes (fl_blob f))"

record draft =
  df_clientId :: jstr
  df_roomId :: jstr
  df_text :: jstr
  df_file :: "file_ref option"
  df_createdAt :: jstr
  df_replyTo :: "reply_ref option"

record msg_state =
  ms_live :: "encrypted_message list"
  ms_pending :: "decrypted_message list"
  ms_deleted :: "jstr list"
  ms_reply :: "decrypted_message option"
  ms_editTarget :: "decrypted_message option"
  ms_editText :: jstr
  ms_deleteTarget :: "decrypted_message option"
  ms_deleteForEveryone :: bool
  ms_file :: "file_ref option"
  ms_previews :: "(jstr, jstr) jmap"
  ms_decrypted :: "decrypted_message list"
  ms_attachments :: "decrypted_message list"
  ms_older :: "encrypted_message list"
  ms_hasMore :: bool
  ms_loading :: bool
  ms_decrypting :: bool
  ms_context :: "encrypted_message list"
  ms_contextMore :: bool
  ms_inContext :: bool
  ms_text :: jstr
  ms_loader :: jstr
  ms_cache :: "(jstr, jstr \<times> decrypted_message) jmap"
  ms_typingTimer :: bool
  ms_sending :: bool

record msg_env =
  ev_session :: "auth_session option"
  ev_identity :: "identity option"
  ev_room :: jstr
  ev_secret :: jstr
  ev_history :: "(encrypted_message list \<times> bool) option"
  ev_attachmentHistory :: "encrypted_message list option"

datatype msg_effect =
    FxCall api_call
  | FxAuthExpired
  | FxRequestError js_error jstr
  | FxNotify jstr jstr
  | FxRealtime realtime_event
  | FxInvalidate jstr jstr
  | FxClipboard jstr
  | FxRevokeURL jstr
  | FxSaveAs jstr jstr
  | FxClearTimer
  | FxSetTimer nat

definition ev_token :: "msg_env \<Rightarrow> jstr option" where
  "ev_token env = map_option as_accessToken (ev_session env)"

definition ev_paged :: "msg_env \<Rightarrow> msg_state \<Rightarrow> encrypted_message list" where
  "ev_paged env st = pagedMessages (ms_older st) (map_option fst (ev_history env))"

definition initial_state :: msg_state where
  "initial_state = \<lparr>ms_live = [], ms_pending = [], ms_deleted = [], ms_reply = None, ms_editTarget = None,
     ms_editText = [], ms_deleteTarget = None, ms_deleteForEveryone = False, ms_file = None, ms_previews = [],
     ms_decrypted = [], ms_attachments = [], ms_older = [], ms_hasMore = False, ms_loading = False,
     ms_decrypting = False, ms_context = [], ms_contextMore = False, ms_inContext = False, ms_text = [],
     ms_loader = [], ms_cache = [], ms_typingTimer = False, ms_sending = False\<rparr>"

section \<open>Changing rooms and loading pages\<close>

text \<open>The effect of \<open>[activeRoomID, session?.accessToken]\<close>.\<close>

definition resetRoom :: "msg_state \<Rightarrow> msg_state" where
  "resetRoom st = st\<lparr>ms_older := [], ms_hasMore := False, ms_loading := False, ms_attachments := [],
     ms_context := [], ms_contextMore := False, ms_inContext := False, ms_loader := [], ms_cache := []\<rparr>"

definition syncHasMore :: "msg_env \<Rightarrow> msg_state \<Rightarrow> msg_state" where
  "syncHasMore env st =
     (if ms_older st = []
      then st\<lparr>ms_hasMore := (case ev_history env of None \<Rightarrow> False | Some (_, hasMore) \<Rightarrow> hasMore)\<rparr> else st)"

definition exitContextMode :: "msg_state \<Rightarrow> msg_state" where
  "exitContextMode st = st\<lparr>ms_context := [], ms_contextMore := False, ms_inContext := False, ms_loader := []\<rparr>"

definition request_failed :: "js_error \<Rightarrow> jstr \<Rightarrow> msg_effect" where
  "request_failed err title = (if is_auth_error err then FxAuthExpired else FxRequestError err title)"

datatype page_kind = ContextPage | OlderPage

text \<open>\<open>loadMoreMessages\<close> up to its request: None when a guard returns.\<close>

definition loadMoreStart ::
    "(jstr \<Rightarrow> int option) \<Rightarrow> msg_env \<Rightarrow> msg_state \<Rightarrow> (msg_state \<times> page_kind \<times> api_call) option" where
  "loadMoreStart dp env st =
     (if ms_inContext st then
        (if ev_session env = None \<or> ev_room env = [] \<or> ms_loading st \<or> \<not> ms_contextMore st then None
         else case ms_context st of
           [] \<Rightarrow> None
         | m # _ \<Rightarrow>
             if em_createdAt m = [] then None
             else Some (st\<lparr>ms_loading := True\<rparr>, ContextPage,
               CallFetchMessages (ev_room env) (the (ev_token env)) (Some (em_createdAt m))))
      else
        (let oldest = oldestPagedMessageAt dp (ev_paged env st)
         in if ev_session env = None \<or> ev_room env = [] \<or> oldest = [] \<or> ms_loading st \<or> \<not> ms_hasMore st then None
            else Some (st\<lparr>ms_loading := True\<rparr>, OlderPage,
              CallFetchMessages (ev_room env) (the (ev_token env)) (Some oldest))))"

definition loadMoreDone ::
    "(jstr \<Rightarrow> int option) \<Rightarrow> page_kind \<Rightarrow> (encrypted_message list \<times> bool) result \<Rightarrow> msg_state \<Rightarrow> msg_state \<times> msg_effect list" where
  "loadMoreDone dp kind res st =
     (case res of
        Inl err \<Rightarrow> (st\<lparr>ms_loading := False\<rparr>, [request_failed err (js ''roomError'')])
      | Inr (messages, hasMore) \<Rightarrow>
          ((case kind of
              ContextPage \<Rightarrow> st\<lparr>ms_context := mergeMessagePages dp messages (ms_context st), ms_contextMore := hasMore\<rparr>
            | OlderPage \<Rightarrow> st\<lparr>ms_older := mergeMessagePages dp (ms_older st) messages, ms_hasMore := hasMore\<rparr>)
           \<lparr>ms_loading := False\<rparr>, []))"

section \<open>Jumping to a message\<close>

text \<open>
  The highlighted-message effect with React's protocol: its dependencies are compared at every
  render; a change runs the cleanup of the previous run, which cancels its fetch, and then the
  body.  \<open>hd_handlers\<close> is the identity of the two handler functions passed in.  \<open>hl_run\<close> is
  the run whose fetch is not cancelled.
\<close>

record hl_deps =
  hd_room :: jstr
  hd_handlers :: nat
  hd_highlight :: jstr
  hd_paged :: "encrypted_message list"
  hd_session :: "auth_session option"

record hl_state =
  hl_deps :: "hl_deps option"
  hl_run :: "nat option"
  hl_next :: nat

definition has_message :: "jstr \<Rightarrow> encrypted_message list \<Rightarrow> bool" where
  "has_message i ms = list_ex (\<lambda>m. em_id m = i) ms"

definition highlightBody :: "hl_deps \<Rightarrow> hl_state \<Rightarrow> msg_state \<Rightarrow> hl_state \<times> msg_state \<times> api_call list" where
  "highlightBody d hl st =
     (let loaderKey = hd_room d @ js '':'' @ hd_highlight d
      in if hd_session d = None \<or> hd_room d = [] \<or> hd_highlight d = [] \<or> ms_loading st
            \<or> has_message (hd_highlight d) (hd_paged d) \<or> has_message (hd_highlight d) (ms_context st)
            \<or> ms_loader st = loaderKey
         then (hl, st, [])
         else (hl\<lparr>hl_run := Some (hl_next hl), hl_next := Suc (hl_next hl)\<rparr>,
               st\<lparr>ms_loader := loaderKey, ms_loading := True\<rparr>,
               [CallFetchMessageContext (hd_room d) (hd_highlight d) (as_accessToken (the (hd_session d)))]))"

definition highlightRender :: "hl_deps \<Rightarrow> hl_state \<Rightarrow> msg_state \<Rightarrow> hl_state \<times> msg_state \<times> api_call list" where
  "highlightRender d hl st =
     (if hl_deps hl = Some d then (hl, st, [])
      else highlightBody d (hl\<lparr>hl_deps := Some d, hl_run := None\<rparr>) st)"

text \<open>The answer to the fetch of run \<open>i\<close>.\<close>

definition highlightDone ::
    "nat \<Rightarrow> (encrypted_message list \<times> bool) result \<Rightarrow> hl_state \<Rightarrow> msg_state \<Rightarrow> msg_state \<times> msg_effect list" where
  "highlightDone i res hl st =
     (let cancelled = (hl_run hl \<noteq> Some i)
      in case res of
           Inr (messages, hasMore) \<Rightarrow>
             if cancelled then (st, [])
             else (st\<lparr>ms_context := messages, ms_contextMore := hasMore, ms_inContext := True, ms_loading := False\<rparr>, [])
         | Inl err \<Rightarrow>
             (if cancelled then st else st\<lparr>ms_loader := [], ms_loading := False\<rparr>,
              [request_failed err (js ''roomError'')]))"

section \<open>Decryption\<close>

text \<open>The cache key, a template string; \<open>NaN\<close> and \<open>undefined\<close> print as their names.\<close>

definition cache_key :: "(jstr \<Rightarrow> int option) \<Rightarrow> msg_env \<Rightarrow> encrypted_message \<Rightarrow> jstr" where
  "cache_key dp env msg =
     (case version_of dp msg of None \<Rightarrow> js ''NaN'' | Some v \<Rightarrow> js_of_int v) @ js '':''
     @ reactionSignature (em_reactions msg) @ js '':'' @ (if is_read msg then js ''1'' else js ''0'') @ js '':''
     @ (case ev_identity env of None \<Rightarrow> js ''undefined'' | Some i \<Rightarrow> iy_userId i)"

definition needs_decrypt :: "(jstr \<Rightarrow> int option) \<Rightarrow> msg_env \<Rightarrow> msg_state \<Rightarrow> encrypted_message \<Rightarrow> bool" where
  "needs_decrypt dp env st msg = (map_option fst (jm_get (ms_cache st) (em_id msg)) \<noteq> Some (cache_key dp env msg))"

definition payload_of :: "encrypted_message \<Rightarrow> payload" where
  "payload_of msg = \<lparr>pl_ciphertext = em_ciphertext msg, pl_nonce = em_nonce msg,
     pl_algorithm = em_algorithm msg, pl_keyId = em_keyId msg\<rparr>"

text \<open>\<open>decodeMessagePayload\<close> with the cast to \<open>PlainMessage\<close>; a value that is not of the type is
  outside the model and counts as a failure.\<close>

definition decode_body :: "webcrypto \<Rightarrow> jstr \<Rightarrow> encrypted_message \<Rightarrow> plain_message result" where
  "decode_body wc secret msg = bindR (decodeMessagePayload wc (Some secret) (payload_of msg))
     (\<lambda>v. case plain_of_json v of Some b \<Rightarrow> Inr b | None \<Rightarrow> Inl TypeError)"

definition decrypted_of :: "encrypted_message \<Rightarrow> plain_message option \<Rightarrow> message_status option \<Rightarrow> bool option \<Rightarrow> decrypted_message" where
  "decrypted_of msg body status failed =
     \<lparr>dm_id = em_id msg, dm_roomId = em_roomId msg, dm_senderId = em_senderId msg, dm_body = body,
      dm_createdAt = em_createdAt msg, dm_editedAt = em_editedAt msg, dm_deletedAt = em_deletedAt msg,
      dm_readBy = Some (nullish (em_readBy msg) []), dm_readReceipts = Some (nullish (em_readReceipts msg) []),
      dm_read = Some (is_read msg), dm_reactions = Some (nullish (em_reactions msg) []),
      dm_status = status, dm_failed = failed\<rparr>"

definition decryptMessageOf :: "webcrypto \<Rightarrow> msg_env \<Rightarrow> encrypted_message \<Rightarrow> decrypted_message" where
  "decryptMessageOf wc env msg =
     (let status = (if Some (em_senderId msg) = map_option iy_userId (ev_identity env)
                    then Some (if is_read msg then Read else Sent) else None)
      in case decode_body wc (ev_secret env) msg of
           Inr b \<Rightarrow> decrypted_of msg (Some b) status None
         | Inl _ \<Rightarrow> decrypted_of msg None status (Some True))"

definition cached_list :: "(jstr, jstr \<times> decrypted_message) jmap \<Rightarrow> encrypted_message list \<Rightarrow> decrypted_message list" where
  "cached_list cache msgs = List.map_filter (\<lambda>msg. map_option snd (jm_get cache (em_id msg))) msgs"

text \<open>The effect of \<open>[activeSecret, encryptedMessages, identity?.userId]\<close>: the state after its
  synchronous part and the messages it starts to decrypt.\<close>

definition decryptStart ::
    "(jstr \<Rightarrow> int option) \<Rightarrow> msg_env \<Rightarrow> encrypted_message list \<Rightarrow> msg_state \<Rightarrow> msg_state \<times> encrypted_message list" where
  "decryptStart dp env encrypted st =
     (if encrypted = [] then (st\<lparr>ms_decrypted := [], ms_decrypting := False\<rparr>, [])
      else let toDecrypt = filter (needs_decrypt dp env st) encrypted
      in if toDecrypt = []
         then (st\<lparr>ms_decrypted := cached_list (ms_cache st) encrypted, ms_decrypting := False\<rparr>, [])
         else (if ms_cache st = [] then st\<lparr>ms_decrypting := True\<rparr> else st, toDecrypt))"

definition decryptDone ::
    "(jstr \<Rightarrow> int option) \<Rightarrow> webcrypto \<Rightarrow> msg_env \<Rightarrow> encrypted_message list \<Rightarrow> encrypted_message list \<Rightarrow> bool \<Rightarrow>
     msg_state \<Rightarrow> msg_state" where
  "decryptDone dp wc env encrypted toDecrypt cancelled st =
     (if cancelled then st
      else let cache = fold (\<lambda>msg. jm_set (em_id msg) (cache_key dp env msg, decryptMessageOf wc env msg)) toDecrypt (ms_cache st)
      in st\<lparr>ms_cache := cache, ms_decrypted := cached_list cache encrypted, ms_decrypting := False\<rparr>)"

definition decryptAttachment :: "webcrypto \<Rightarrow> msg_env \<Rightarrow> encrypted_message \<Rightarrow> decrypted_message option" where
  "decryptAttachment wc env msg =
     (case decode_body wc (ev_secret env) msg of
        Inl _ \<Rightarrow> None
      | Inr b \<Rightarrow> if pm_attachment b = None \<or> truthy (em_deletedAt msg) then None
                else Some (decrypted_of msg (Some b) None None))"

definition attachmentsDone :: "webcrypto \<Rightarrow> msg_env \<Rightarrow> encrypted_message list \<Rightarrow> bool \<Rightarrow> msg_state \<Rightarrow> msg_state" where
  "attachmentsDone wc env encrypted cancelled st =
     (if cancelled then st else st\<lparr>ms_attachments := List.map_filter (decryptAttachment wc env) encrypted\<rparr>)"

text \<open>Pending messages whose server copy is decrypted are dropped.\<close>

definition dropConfirmed :: "msg_state \<Rightarrow> msg_state" where
  "dropConfirmed st =
     (if ms_pending st = [] then st
      else st\<lparr>ms_pending := filter (\<lambda>m. \<not> (dm_status m = Some Sent \<and> dm_id m \<in> dm_id ` set (ms_decrypted st))) (ms_pending st)\<rparr>)"

section \<open>Sending\<close>

definition stop_typing :: "identity \<Rightarrow> jstr \<Rightarrow> realtime_event" where
  "stop_typing i now = EvTyping (iy_userId i) (iy_displayName i) False now"

text \<open>\<open>submitMessage\<close>: the draft handed to \<open>sendMutation\<close>, None when a guard returns;
  \<open>uuid\<close> and \<open>now\<close> are \<open>crypto.randomUUID()\<close> and the ISO time.\<close>

definition pending_attachment :: "file_ref \<Rightarrow> encrypted_attachment" where
  "pending_attachment f = \<lparr>at_fileId = [], at_name = fl_name f, at_type = bl_type (fl_blob f),
     at_size = int (fl_size f), at_ciphertextSize = int (fl_size f), at_nonce = [], at_algorithm = PLAIN_FILE_ALGORITHM\<rparr>"

definition session_avatar :: "msg_env \<Rightarrow> jstr option" where
  "session_avatar env = Option.bind (ev_session env) (\<lambda>s. pr_avatarUrl (as_principal s))"

definition pending_of :: "msg_env \<Rightarrow> identity \<Rightarrow> draft \<Rightarrow> decrypted_message" where
  "pending_of env i d =
     \<lparr>dm_id = df_clientId d, dm_roomId = df_roomId d, dm_senderId = iy_userId i,
      dm_body = Some \<lparr>pm_text = df_text d, pm_senderName = iy_displayName i, pm_senderAvatarUrl = session_avatar env,
        pm_sentAt = df_createdAt d, pm_replyTo = df_replyTo d, pm_system = None,
        pm_attachment = map_option pending_attachment (df_file d)\<rparr>,
      dm_createdAt = df_createdAt d, dm_editedAt = None, dm_deletedAt = None, dm_readBy = None,
      dm_readReceipts = None, dm_read = None, dm_reactions = None, dm_status = Some Sending, dm_failed = None\<rparr>"

definition submitMessage ::
    "msg_env \<Rightarrow> jstr \<Rightarrow> jstr \<Rightarrow> msg_state \<Rightarrow> msg_state \<times> msg_effect list \<times> draft option" where
  "submitMessage env uuid now st =
     (let text = js_trim (ms_text st)
      in case ev_identity env of
           None \<Rightarrow> (st, [], None)
         | Some i \<Rightarrow>
             if (text = [] \<and> ms_file st = None) \<or> ev_room env = [] \<or> ms_sending st then (st, [], None)
             else if (case ms_file st of None \<Rightarrow> False | Some f \<Rightarrow> MAX_FILE_BYTES < fl_size f)
             then (st, [FxNotify (js ''fileTooLarge'') (js ''fileTooLargeMessage'')], None)
             else let d = \<lparr>df_clientId = js ''local-'' @ uuid, df_roomId = ev_room env, df_text = text,
                            df_file = ms_file st, df_createdAt = now,
                            df_replyTo = map_option messageReplyPreview (ms_reply st)\<rparr>
                  in (st\<lparr>ms_pending := ms_pending st @ [pending_of env i d], ms_text := [], ms_file := None,
                         ms_reply := None, ms_sending := True\<rparr>, [], Some d))"

text \<open>\<open>sendMutation.mutationFn\<close>: the first call (the upload when there is a file), the message that
  is sent, with \<open>uploaded\<close> the file id and size the upload answered, and the second call.\<close>

definition sendFirstCall :: "msg_env \<Rightarrow> draft \<Rightarrow> api_call option result" where
  "sendFirstCall env d =
     (if ev_identity env = None \<or> ev_session env = None then Inl (Err (js ''room_not_ready''))
      else Inr (map_option (\<lambda>f. CallUploadEncryptedFile (the (ev_token env)) (df_roomId d) (fl_blob f)) (df_file d)))"

definition sent_plain :: "msg_env \<Rightarrow> identity \<Rightarrow> draft \<Rightarrow> (jstr \<times> int) option \<Rightarrow> plain_message" where
  "sent_plain env i d uploaded =
     \<lparr>pm_text = df_text d, pm_senderName = iy_displayName i, pm_senderAvatarUrl = session_avatar env,
      pm_sentAt = df_createdAt d, pm_replyTo = df_replyTo d, pm_system = None,
      pm_attachment = (case (df_file d, uploaded) of
         (Some f, Some (upId, upSize)) \<Rightarrow> Some \<lparr>at_fileId = upId, at_name = fl_name f, at_type = bl_type (fl_blob f),
           at_size = int (fl_size f), at_ciphertextSize = upSize, at_nonce = [], at_algorithm = PLAIN_FILE_ALGORITHM\<rparr>
       | _ \<Rightarrow> None)\<rparr>"

definition sendSecondCall :: "msg_env \<Rightarrow> draft \<Rightarrow> (jstr \<times> int) option \<Rightarrow> api_call result" where
  "sendSecondCall env d uploaded =
     (case (ev_identity env, ev_token env) of
        (Some i, Some token) \<Rightarrow>
          bindR (encodePlainMessage (sent_plain env i d uploaded)) (\<lambda>p.
          Inr (CallSendEncryptedMessage token (df_roomId d) (iy_userId i) p))
      | _ \<Rightarrow> Inl (Err (js ''room_not_ready'')))"

text \<open>\<open>[...prev, message].slice(-200)\<close>.\<close>

definition liveAppend :: "encrypted_message \<Rightarrow> encrypted_message list \<Rightarrow> encrypted_message list" where
  "liveAppend message prev = js_last 200 (prev @ [message])"

definition map_pending :: "jstr \<Rightarrow> (decrypted_message \<Rightarrow> decrypted_message) \<Rightarrow> decrypted_message list \<Rightarrow> decrypted_message list" where
  "map_pending i f = map (\<lambda>item. if dm_id item = i then f item else item)"

definition sendSuccess ::
    "msg_env \<Rightarrow> jstr \<Rightarrow> jstr \<Rightarrow> encrypted_message \<Rightarrow> msg_state \<Rightarrow> msg_state \<times> msg_effect list" where
  "sendSuccess env now clientId message st0 =
     (let st1 = (if ms_inContext st0 then exitContextMode st0 else st0);
          st2 = st1\<lparr>ms_pending := map_pending clientId (\<lambda>item. item\<lparr>dm_id := em_id message, dm_status := Some Sent\<rparr>) (ms_pending st1)\<rparr>;
          st3 = st2\<lparr>ms_live := (if em_id message \<in> em_id ` set (ms_live st2) then ms_live st2 else liveAppend message (ms_live st2))\<rparr>
      in (st3\<lparr>ms_reply := None, ms_sending := False\<rparr>,
          FxInvalidate (js ''chat-attachments'') (em_roomId message)
          # (case ev_identity env of None \<Rightarrow> [] | Some i \<Rightarrow> [FxRealtime (stop_typing i now)])))"

definition sendFailure :: "js_error \<Rightarrow> jstr \<Rightarrow> msg_state \<Rightarrow> msg_state \<times> msg_effect list" where
  "sendFailure err clientId st =
     (st\<lparr>ms_pending := map_pending clientId (\<lambda>item. item\<lparr>dm_status := Some Failed\<rparr>) (ms_pending st), ms_sending := False\<rparr>,
      [FxRequestError err (js ''sendFailed'')])"

section \<open>Editing, deleting, reacting\<close>

definition editCall :: "msg_env \<Rightarrow> msg_state \<Rightarrow> api_call result" where
  "editCall env st =
     (case (ev_token env, ms_editTarget st) of
        (Some token, Some target) \<Rightarrow>
          (case dm_body target of
             Some b \<Rightarrow> bindR (encodePlainMessage (b\<lparr>pm_text := js_trim (ms_editText st)\<rparr>)) (\<lambda>p.
               Inr (CallUpdateEncryptedMessage token (dm_roomId target) (dm_id target) p))
           | None \<Rightarrow> Inl (Err (js ''message_not_ready'')))
      | _ \<Rightarrow> Inl (Err (js ''message_not_ready'')))"

definition editSuccess :: "encrypted_message \<Rightarrow> msg_state \<Rightarrow> msg_state \<times> msg_effect list" where
  "editSuccess message st =
     (st\<lparr>ms_live := liveAppend message (ms_live st), ms_editTarget := None, ms_editText := []\<rparr>,
      [FxInvalidate (js ''chat-attachments'') (em_roomId message)])"

definition editFailure :: "js_error \<Rightarrow> msg_state \<Rightarrow> msg_state \<times> msg_effect list" where
  "editFailure err st = (st, [FxRequestError err (js ''Could not edit message'')])"

text \<open>Inr None is the deletion for this user only, which makes no call.\<close>

definition deleteCall :: "msg_env \<Rightarrow> msg_state \<Rightarrow> api_call option result" where
  "deleteCall env st =
     (case (ev_token env, ms_deleteTarget st) of
        (Some token, Some target) \<Rightarrow>
          Inr (if \<not> ms_deleteForEveryone st then None
               else Some (CallDeleteEncryptedMessageForAll token (dm_roomId target) (dm_id target)))
      | _ \<Rightarrow> Inl (Err (js ''message_not_ready'')))"

definition deleteLocalSuccess :: "decrypted_message \<Rightarrow> msg_state \<Rightarrow> msg_state" where
  "deleteLocalSuccess message st =
     st\<lparr>ms_deleted := List.insert (dm_id message) (ms_deleted st), ms_deleteTarget := None, ms_deleteForEveryone := False\<rparr>"

definition deleteForAllSuccess :: "encrypted_message \<Rightarrow> msg_state \<Rightarrow> msg_state \<times> msg_effect list" where
  "deleteForAllSuccess message st =
     (st\<lparr>ms_live := liveAppend message (ms_live st), ms_deleteTarget := None, ms_deleteForEveryone := False\<rparr>,
      [FxInvalidate (js ''chat-attachments'') (em_roomId message)])"

definition deleteFailure :: "js_error \<Rightarrow> msg_state \<Rightarrow> msg_state \<times> msg_effect list" where
  "deleteFailure err st = (st, [FxRequestError err (js ''Could not delete message'')])"

definition reactionCall :: "msg_env \<Rightarrow> decrypted_message \<Rightarrow> jstr \<Rightarrow> api_call result" where
  "reactionCall env message emoji =
     (case ev_token env of
        None \<Rightarrow> Inl (Err (js ''message_not_ready''))
      | Some token \<Rightarrow> Inr (CallToggleMessageReaction token (dm_roomId message) (dm_id message) emoji))"

definition reactionSuccess :: "encrypted_message \<Rightarrow> msg_state \<Rightarrow> msg_state" where
  "reactionSuccess message st = st\<lparr>ms_live := liveAppend message (ms_live st)\<rparr>"

definition reactionFailure :: "js_error \<Rightarrow> msg_state \<Rightarrow> msg_state \<times> msg_effect list" where
  "reactionFailure err st = (st, [FxRequestError err (js ''Could not react'')])"

section \<open>Typing, files, dialogs\<close>

definition updateMessageText :: "msg_env \<Rightarrow> jstr \<Rightarrow> jstr \<Rightarrow> msg_state \<Rightarrow> msg_state \<times> msg_effect list" where
  "updateMessageText env now value st =
     (let st = st\<lparr>ms_text := value\<rparr>
      in case ev_identity env of
           None \<Rightarrow> (st, [])
         | Some i \<Rightarrow>
             if ev_room env = [] then (st, [])
             else (st\<lparr>ms_typingTimer := True\<rparr>,
                   [FxRealtime (EvTyping (iy_userId i) (iy_displayName i) (js_trim value \<noteq> []) now)]
                   @ (if ms_typingTimer st then [FxClearTimer] else []) @ [FxSetTimer 1200]))"

text \<open>The callback of the timer; the ref keeps the id of the fired timer.\<close>

definition typingTimerFired :: "identity \<Rightarrow> jstr \<Rightarrow> msg_effect list" where
  "typingTimerFired i now = [FxRealtime (stop_typing i now)]"

definition selectFile :: "file_ref option \<Rightarrow> msg_state \<Rightarrow> msg_state \<times> msg_effect list" where
  "selectFile file st =
     (if (case file of None \<Rightarrow> False | Some f \<Rightarrow> MAX_FILE_BYTES < fl_size f)
      then (st\<lparr>ms_file := None\<rparr>, [FxNotify (js ''fileTooLarge'') (js ''fileTooLargeMessage'')])
      else (st\<lparr>ms_file := file\<rparr>, []))"

definition openEditMessage :: "decrypted_message \<Rightarrow> msg_state \<Rightarrow> msg_state" where
  "openEditMessage msg st = st\<lparr>ms_editTarget := Some msg,
     ms_editText := (case dm_body msg of None \<Rightarrow> [] | Some b \<Rightarrow> pm_text b)\<rparr>"

definition openDeleteMessage :: "decrypted_message \<Rightarrow> msg_state \<Rightarrow> msg_state" where
  "openDeleteMessage msg st = st\<lparr>ms_deleteTarget := Some msg, ms_deleteForEveryone := False\<rparr>"

section \<open>Attachments\<close>

definition attachmentCall :: "msg_env \<Rightarrow> decrypted_message \<Rightarrow> (encrypted_attachment \<times> api_call) option" where
  "attachmentCall env msg =
     (case (ev_token env, Option.bind (dm_body msg) pm_attachment) of
        (Some token, Some a) \<Rightarrow> Some (a, CallDownloadEncryptedFile token (at_fileId a) (ev_room env))
      | _ \<Rightarrow> None)"

definition decodeAttachment :: "webcrypto \<Rightarrow> msg_env \<Rightarrow> encrypted_attachment \<Rightarrow> blob result \<Rightarrow> blob result" where
  "decodeAttachment wc env a downloaded =
     bindR downloaded (\<lambda>encrypted.
       decodeFilePayload wc (Some (ev_secret env)) encrypted (at_nonce a) (at_type a) (at_algorithm a))"

definition attachment_failed :: "js_error \<Rightarrow> jstr \<Rightarrow> (js_error \<Rightarrow> jstr) \<Rightarrow> msg_effect" where
  "attachment_failed err title text_of = (if is_auth_error err then FxAuthExpired else FxNotify title (text_of err))"

text \<open>\<open>url\<close> is what \<open>URL.createObjectURL\<close> returns, \<open>text_of\<close> the message of an error.\<close>

definition previewDone ::
    "(js_error \<Rightarrow> jstr) \<Rightarrow> jstr \<Rightarrow> jstr \<Rightarrow> blob result \<Rightarrow> msg_state \<Rightarrow> msg_state \<times> msg_effect list" where
  "previewDone text_of url msgId decoded st =
     (case decoded of
        Inl err \<Rightarrow> (st, [attachment_failed err (js ''previewFailed'') text_of])
      | Inr _ \<Rightarrow>
          (st\<lparr>ms_previews := jm_set msgId url (ms_previews st)\<rparr>,
           (case jm_get (ms_previews st) msgId of
              None \<Rightarrow> [] | Some old \<Rightarrow> if old = [] then [] else [FxRevokeURL old])))"

definition downloadDone ::
    "(js_error \<Rightarrow> jstr) \<Rightarrow> jstr \<Rightarrow> encrypted_attachment \<Rightarrow> blob result \<Rightarrow> msg_effect list" where
  "downloadDone text_of url a decoded =
     (case decoded of
        Inl err \<Rightarrow> [attachment_failed err (js ''downloadFailed'') text_of]
      | Inr _ \<Rightarrow> [FxSaveAs url (at_name a), FxRevokeURL url])"

section \<open>The hook as a step function\<close>

text \<open>Everything that can happen to the hook's state; \<open>MLive\<close> is a message arriving on the
  socket, appended by the caller with the same bound.\<close>

datatype msg_event =
    MReset
  | MSyncHasMore msg_env
  | MExitContext
  | MLoadMore msg_env
  | MLoadMoreDone page_kind "(encrypted_message list \<times> bool) result"
  | MDecrypt msg_env "encrypted_message list"
  | MDecryptDone msg_env "encrypted_message list" "encrypted_message list" bool
  | MAttachmentsDone msg_env "encrypted_message list" bool
  | MDropConfirmed
  | MSubmit msg_env jstr jstr
  | MSendSuccess msg_env jstr jstr encrypted_message
  | MSendFailure js_error jstr
  | MEditSuccess encrypted_message
  | MDeleteLocal decrypted_message
  | MDeleteForAll encrypted_message
  | MReactionSuccess encrypted_message
  | MTyping msg_env jstr jstr
  | MSelectFile "file_ref option"
  | MOpenEdit decrypted_message
  | MOpenDelete decrypted_message
  | MPreviewDone jstr jstr "blob result"
  | MLive encrypted_message

fun msg_step :: "(jstr \<Rightarrow> int option) \<Rightarrow> webcrypto \<Rightarrow> msg_state \<Rightarrow> msg_event \<Rightarrow> msg_state" where
  "msg_step dp wc st MReset = resetRoom st"
| "msg_step dp wc st (MSyncHasMore env) = syncHasMore env st"
| "msg_step dp wc st MExitContext = exitContextMode st"
| "msg_step dp wc st (MLoadMore env) = (case loadMoreStart dp env st of None \<Rightarrow> st | Some (st', _) \<Rightarrow> st')"
| "msg_step dp wc st (MLoadMoreDone kind res) = fst (loadMoreDone dp kind res st)"
| "msg_step dp wc st (MDecrypt env encrypted) = fst (decryptStart dp env encrypted st)"
| "msg_step dp wc st (MDecryptDone env encrypted todo cancelled) = decryptDone dp wc env encrypted todo cancelled st"
| "msg_step dp wc st (MAttachmentsDone env encrypted cancelled) = attachmentsDone wc env encrypted cancelled st"
| "msg_step dp wc st MDropConfirmed = dropConfirmed st"
| "msg_step dp wc st (MSubmit env uuid now) = fst (submitMessage env uuid now st)"
| "msg_step dp wc st (MSendSuccess env now cid m) = fst (sendSuccess env now cid m st)"
| "msg_step dp wc st (MSendFailure err cid) = fst (sendFailure err cid st)"
| "msg_step dp wc st (MEditSuccess m) = fst (editSuccess m st)"
| "msg_step dp wc st (MDeleteLocal m) = deleteLocalSuccess m st"
| "msg_step dp wc st (MDeleteForAll m) = fst (deleteForAllSuccess m st)"
| "msg_step dp wc st (MReactionSuccess m) = reactionSuccess m st"
| "msg_step dp wc st (MTyping env now v) = fst (updateMessageText env now v st)"
| "msg_step dp wc st (MSelectFile f) = fst (selectFile f st)"
| "msg_step dp wc st (MOpenEdit m) = openEditMessage m st"
| "msg_step dp wc st (MOpenDelete m) = openDeleteMessage m st"
| "msg_step dp wc st (MPreviewDone url i d) = fst (previewDone (\<lambda>_. []) url i d st)"
| "msg_step dp wc st (MLive m) = st\<lparr>ms_live := liveAppend m (ms_live st)\<rparr>"

definition file_allowed :: "file_ref option \<Rightarrow> bool" where
  "file_allowed f = (case f of None \<Rightarrow> True | Some x \<Rightarrow> fl_size x \<le> MAX_FILE_BYTES)"

definition msg_inv :: "msg_state \<Rightarrow> bool" where
  "msg_inv st = (length (ms_live st) \<le> 200 \<and> file_allowed (ms_file st) \<and> distinct (ms_deleted st)
     \<and> distinct (map fst (ms_cache st)) \<and> distinct (map fst (ms_previews st)))"

lemma liveAppend_bound: "length (liveAppend m xs) \<le> 200"
  by (simp add: liveAppend_def length_js_last)

lemma liveAppend_mem: "m \<in> set (liveAppend m xs)"
  by (simp add: liveAppend_def js_last_snoc)

lemma fold_cache_distinct:
  "distinct (map fst c) \<Longrightarrow> distinct (map fst (fold (\<lambda>m. jm_set (f m) (g m)) ms c))"
  by (induction ms arbitrary: c) (auto simp: jmap_simps)

lemma msg_step_inv: "msg_inv st \<Longrightarrow> msg_inv (msg_step dp wc st e)"
proof (cases e)
  case (MLoadMore env)
  then show "msg_inv st \<Longrightarrow> ?thesis"
    by (auto simp: msg_inv_def loadMoreStart_def Let_def split: option.splits list.splits if_splits)
next
  case (MLoadMoreDone kind res)
  then show "msg_inv st \<Longrightarrow> ?thesis"
    by (cases kind) (auto simp: msg_inv_def loadMoreDone_def split: sum.splits)
next
  case (MDecryptDone env enc todo c)
  then show "msg_inv st \<Longrightarrow> ?thesis"
    by (auto simp: msg_inv_def decryptDone_def Let_def fold_cache_distinct)
next
  case (MSubmit env uuid now)
  then show "msg_inv st \<Longrightarrow> ?thesis"
    by (auto simp: msg_inv_def submitMessage_def Let_def file_allowed_def split: option.splits)
next
  case (MSendSuccess env now cid m)
  then show "msg_inv st \<Longrightarrow> ?thesis"
    by (auto simp: msg_inv_def sendSuccess_def Let_def liveAppend_bound exitContextMode_def)
next
  case (MTyping env now v)
  then show "msg_inv st \<Longrightarrow> ?thesis"
    by (auto simp: msg_inv_def updateMessageText_def Let_def split: option.splits)
next
  case (MPreviewDone url i d)
  then show "msg_inv st \<Longrightarrow> ?thesis"
    by (auto simp: msg_inv_def previewDone_def jmap_simps split: sum.splits)
qed (auto simp: msg_inv_def resetRoom_def syncHasMore_def exitContextMode_def decryptStart_def Let_def
    attachmentsDone_def dropConfirmed_def sendFailure_def editSuccess_def deleteLocalSuccess_def
    deleteForAllSuccess_def reactionSuccess_def selectFile_def file_allowed_def openEditMessage_def
    openDeleteMessage_def liveAppend_bound split: option.splits)

interpretation hook: step_system "msg_step dp wc" msg_inv for dp wc
  by unfold_locales (rule msg_step_inv)

section \<open>Properties\<close>

text \<open>C8. Whatever happens, in whatever order the answers arrive: the live feed never holds more
  than 200 messages, a file above the limit is never attached, no message is deleted, cached
  or previewed twice.\<close>

theorem hook_invariant: "msg_inv (foldl (msg_step dp wc) initial_state es)"
  by (rule hook.run_inv) (simp add: msg_inv_def initial_state_def file_allowed_def)

lemma oldest_foldl:
  assumes "\<forall>m\<in>set ms. em_createdAt m \<noteq> [] \<and> dp (em_createdAt m) \<noteq> None" "acc \<noteq> [] \<longrightarrow> dp acc \<noteq> None"
    and "r = foldl (\<lambda>oldest msg. if oldest = [] \<or> date_less (dp (em_createdAt msg)) (dp oldest) then em_createdAt msg else oldest) acc ms"
  shows "(\<forall>m\<in>set ms. the (dp r) \<le> the (dp (em_createdAt m))) \<and> (acc \<noteq> [] \<longrightarrow> the (dp r) \<le> the (dp acc))"
  using assms
proof (induction ms arbitrary: acc)
  case (Cons m ms)
  let ?acc = "if acc = [] \<or> date_less (dp (em_createdAt m)) (dp acc) then em_createdAt m else acc"
  have r: "?acc \<noteq> []" "dp ?acc \<noteq> None" using Cons.prems(1,2) by auto
  have le: "the (dp ?acc) \<le> the (dp (em_createdAt m))" "acc \<noteq> [] \<longrightarrow> the (dp ?acc) \<le> the (dp acc)"
    using Cons.prems(1,2) by (auto simp: not_less)
  have "(\<forall>m\<in>set ms. the (dp r) \<le> the (dp (em_createdAt m))) \<and> (?acc \<noteq> [] \<longrightarrow> the (dp r) \<le> the (dp ?acc))"
    by (rule Cons.IH) (use Cons.prems r in auto)
  with r le show ?case by fastforce
qed simp

lemma oldest_foldl_mem:
  "foldl (\<lambda>oldest msg. if oldest = [] \<or> date_less (dp (em_createdAt msg)) (dp oldest) then em_createdAt msg else oldest) acc ms
     \<in> insert acc (em_createdAt ` set ms)"
proof (induction ms arbitrary: acc)
  case (Cons m ms)
  show ?case
    using Cons.IH[of "if acc = [] \<or> date_less (dp (em_createdAt m)) (dp acc) then em_createdAt m else acc"]
    by (auto split: if_splits)
qed simp

text \<open>What is paged: the context, or the pages of the room.\<close>

definition paging_list :: "msg_env \<Rightarrow> msg_state \<Rightarrow> encrypted_message list" where
  "paging_list env st = (if ms_inContext st then ms_context st else ev_paged env st)"

definition all_dated :: "(jstr \<Rightarrow> int option) \<Rightarrow> encrypted_message list \<Rightarrow> bool" where
  "all_dated dp ms = (\<forall>m\<in>set ms. em_createdAt m \<noteq> [] \<and> dp (em_createdAt m) \<noteq> None)"

lemma loadMore_cursor:
  assumes "loadMoreStart dp env st = Some (st', kind, call)"
  obtains token cursor where "call = CallFetchMessages (ev_room env) token (Some cursor)" "cursor \<noteq> []"
    "cursor \<in> em_createdAt ` set (paging_list env st)"
    "all_dated dp (paging_list env st) \<Longrightarrow> ms_inContext st \<longrightarrow> sorted (map (created_at dp) (ms_context st)) \<Longrightarrow>
       \<forall>m\<in>set (paging_list env st). the (dp cursor) \<le> created_at dp m"
proof (cases "ms_inContext st")
  case True
  with assms obtain m ms where m: "ms_context st = m # ms" "em_createdAt m \<noteq> []"
    "call = CallFetchMessages (ev_room env) (the (ev_token env)) (Some (em_createdAt m))"
    by (auto simp: loadMoreStart_def split: list.splits if_splits)
  show ?thesis
    by (rule that[OF m(3,2)]) (use True m in \<open>auto simp: paging_list_def created_at_def\<close>)
next
  case False
  then have p: "paging_list env st = ev_paged env st" by (simp add: paging_list_def)
  from False assms have m: "oldestPagedMessageAt dp (ev_paged env st) \<noteq> []"
    "call = CallFetchMessages (ev_room env) (the (ev_token env)) (Some (oldestPagedMessageAt dp (ev_paged env st)))"
    by (auto simp: loadMoreStart_def Let_def split: if_splits)
  show ?thesis
    by (rule that[OF m(2,1)])
      (use False m oldest_foldl_mem[of dp "[]" "ev_paged env st"] oldest_foldl[of "ev_paged env st" dp "[]" _]
        in \<open>auto simp: p oldestPagedMessageAt_def all_dated_def created_at_def\<close>)
qed

text \<open>The events that release the lock: the answer, and a change of room.\<close>

fun releases_page :: "msg_event \<Rightarrow> bool" where
  "releases_page (MLoadMoreDone _ _) = True"
| "releases_page MReset = True"
| "releases_page _ = False"

lemma loading_stays:
  "\<not> releases_page e \<Longrightarrow> ms_loading st \<Longrightarrow> ms_loading (msg_step dp wc st e)"
proof (cases e)
  case (MLoadMore env)
  then show "\<not> releases_page e \<Longrightarrow> ms_loading st \<Longrightarrow> ?thesis"
    by (auto simp: loadMoreStart_def Let_def split: option.splits list.splits if_splits)
next
  case (MSubmit env uuid now)
  then show "\<not> releases_page e \<Longrightarrow> ms_loading st \<Longrightarrow> ?thesis"
    by (auto simp: submitMessage_def Let_def split: option.splits)
next
  case (MTyping env now v)
  then show "\<not> releases_page e \<Longrightarrow> ms_loading st \<Longrightarrow> ?thesis"
    by (auto simp: updateMessageText_def Let_def split: option.splits)
next
  case (MPreviewDone url i d)
  then show "\<not> releases_page e \<Longrightarrow> ms_loading st \<Longrightarrow> ?thesis"
    by (auto simp: previewDone_def split: sum.splits)
qed (auto simp: syncHasMore_def exitContextMode_def decryptStart_def decryptDone_def sendSuccess_def Let_def
    attachmentsDone_def dropConfirmed_def sendFailure_def editSuccess_def deleteLocalSuccess_def
    deleteForAllSuccess_def reactionSuccess_def selectFile_def openEditMessage_def
    openDeleteMessage_def split: option.splits)

lemma loading_run:
  "list_all (\<lambda>e. \<not> releases_page e) es \<Longrightarrow> ms_loading st \<Longrightarrow> ms_loading (foldl (msg_step dp wc) st es)"
  by (induction es arbitrary: st) (auto simp: loading_stays)

text \<open>C30. One older page at a time: a start takes the lock and asks for what is older than the oldest
  message that is paged, among the pages of the room or in the context window, which lists the
  oldest first; whatever happens then, no other page is asked for until the answer, any answer, or
  a change of room releases the lock.\<close>

theorem load_more_single_flight:
  assumes "loadMoreStart dp env st = Some (st', kind, call)"
  shows "(\<exists>token cursor. call = CallFetchMessages (ev_room env) token (Some cursor) \<and> cursor \<noteq> []
        \<and> cursor \<in> em_createdAt ` set (paging_list env st)
        \<and> (all_dated dp (paging_list env st) \<and> (ms_inContext st \<longrightarrow> sorted (map (created_at dp) (ms_context st))) \<longrightarrow>
            (\<forall>m\<in>set (paging_list env st). the (dp cursor) \<le> created_at dp m)))
    \<and> (list_all (\<lambda>e. \<not> releases_page e) es \<longrightarrow> loadMoreStart dp env' (foldl (msg_step dp wc) st' es) = None)
    \<and> \<not> ms_loading (fst (loadMoreDone dp kind res st''))"
proof (intro conjI impI)
  have "ms_loading st'"
    using assms by (auto simp: loadMoreStart_def Let_def split: list.splits if_splits)
  then show "loadMoreStart dp env' (foldl (msg_step dp wc) st' es) = None" if "list_all (\<lambda>e. \<not> releases_page e) es"
    using loading_run[OF that] by (simp add: loadMoreStart_def Let_def)
  show "\<not> ms_loading (fst (loadMoreDone dp kind res st''))"
    by (auto simp: loadMoreDone_def split: sum.splits)
  show "\<exists>token cursor. call = CallFetchMessages (ev_room env) token (Some cursor) \<and> cursor \<noteq> []
        \<and> cursor \<in> em_createdAt ` set (paging_list env st)
        \<and> (all_dated dp (paging_list env st) \<and> (ms_inContext st \<longrightarrow> sorted (map (created_at dp) (ms_context st))) \<longrightarrow>
            (\<forall>m\<in>set (paging_list env st). the (dp cursor) \<le> created_at dp m))"
    by (rule loadMore_cursor[OF assms]) blast
qed

definition sample_session :: auth_session where
  "sample_session = \<lparr>as_accessToken = js ''tok'', as_tokenType = js ''Bearer'', as_expiresAt = 100,
     as_principal = \<lparr>pr_clientId = js ''c'', pr_userId = js ''u'', pr_sessionId = None, pr_username = js ''ann'',
       pr_displayName = js ''Ann'', pr_friendCode = None, pr_theme = Light, pr_avatarUrl = None,
       pr_totpEnabled = False, pr_scopes = [], pr_expires = 100\<rparr>\<rparr>"

definition sample_identity :: identity where
  "sample_identity = \<lparr>iy_userId = js ''u'', iy_displayName = js ''Ann'', iy_identityPublicKey = js ''k'',
     iy_createdAt = js ''1'', iy_lastSeenAt = js ''1''\<rparr>"

definition sample_env :: "jstr \<Rightarrow> (encrypted_message list \<times> bool) option \<Rightarrow> msg_env" where
  "sample_env room hist = \<lparr>ev_session = Some sample_session, ev_identity = Some sample_identity, ev_room = room,
     ev_secret = [], ev_history = hist, ev_attachmentHistory = None\<rparr>"

lemma em_createdAt_sample [simp]: "em_createdAt (sample_em i r t) = t"
  by (simp add: sample_em_def)

lemma sample_start:
  "loadMoreStart sample_dp (sample_env (js ''r'') (Some ([sample_em (js ''a'') (js ''r'') (js ''22'')], True)))
     (initial_state\<lparr>ms_hasMore := True\<rparr>)
   = Some (initial_state\<lparr>ms_hasMore := True, ms_loading := True\<rparr>, OlderPage,
       CallFetchMessages (js ''r'') (js ''tok'') (Some (js ''22'')))"
  by (simp add: loadMoreStart_def sample_env_def initial_state_def ev_paged_def pagedMessages_def
      oldestPagedMessageAt_def ev_token_def sample_session_def)

lemma sample_start_two:
  "loadMoreStart sample_dp (sample_env (js ''r'') (Some ([sample_em (js ''b'') (js ''r'') (js ''333''), sample_em (js ''a'') (js ''r'') (js ''22'')], True)))
     (initial_state\<lparr>ms_hasMore := True\<rparr>)
   = Some (initial_state\<lparr>ms_hasMore := True, ms_loading := True\<rparr>, OlderPage,
       CallFetchMessages (js ''r'') (js ''tok'') (Some (js ''22'')))"
  by (simp add: loadMoreStart_def sample_env_def initial_state_def ev_paged_def pagedMessages_def
      oldestPagedMessageAt_def ev_token_def sample_session_def sample_dp_def js_lit)

theorem load_more_single_flight_witness:
  "loadMoreStart sample_dp (sample_env (js ''r'') None)
     (foldl (msg_step sample_dp sample_crypto) (initial_state\<lparr>ms_hasMore := True, ms_loading := True\<rparr>) [MDropConfirmed, MExitContext]) = None
   \<and> the (sample_dp (js ''22'')) \<le> created_at sample_dp (sample_em (js ''b'') (js ''r'') (js ''333''))"
proof -
  define env where "env = sample_env (js ''r'') (Some ([sample_em (js ''b'') (js ''r'') (js ''333''), sample_em (js ''a'') (js ''r'') (js ''22'')], True))"
  define st where "st = initial_state\<lparr>ms_hasMore := True\<rparr>"
  have paged: "paging_list env st = [sample_em (js ''b'') (js ''r'') (js ''333''), sample_em (js ''a'') (js ''r'') (js ''22'')]"
    by (simp add: paging_list_def st_def env_def initial_state_def ev_paged_def sample_env_def pagedMessages_def)
  have "all_dated sample_dp (paging_list env st)"
    unfolding paged by (simp add: all_dated_def sample_dp_def)
  moreover have "\<not> ms_inContext st" "ev_room env = js ''r''"
    by (simp_all add: st_def env_def initial_state_def sample_env_def)
  ultimately show ?thesis
    using load_more_single_flight[OF sample_start_two[folded env_def st_def], of "[MDropConfirmed, MExitContext]"
      "sample_env (js ''r'') None" sample_crypto]
    unfolding paged st_def[symmetric] by simp
qed

subsection \<open>The life of a sent message\<close>

lemma submit_cases:
  assumes "submitMessage env uuid now st = (st', fx, Some d)"
  obtains i where "ev_identity env = Some i"
    and "st' = st\<lparr>ms_pending := ms_pending st @ [pending_of env i d], ms_text := [], ms_file := None,
           ms_reply := None, ms_sending := True\<rparr>"
    and "df_clientId d = js ''local-'' @ uuid" "df_roomId d = ev_room env" "df_createdAt d = now"
    and "df_file d = ms_file st" "df_text d = js_trim (ms_text st)" "\<not> ms_sending st" "ev_room env \<noteq> []"
    and "df_text d \<noteq> [] \<or> df_file d \<noteq> None"
  using assms by (auto simp: submitMessage_def Let_def split: option.splits if_splits)

text \<open>C1. The bubble of a message: it appears at once as \<open>Sending\<close>; when the server answers it
  takes the server's id as \<open>Sent\<close> and the message joins the live feed; when sending fails it
  stays, with its text, as \<open>Failed\<close>; no second message is submitted in between.\<close>

theorem sent_message_lifecycle:
  assumes "submitMessage env uuid now st = (st', fx, Some d)" "df_clientId d \<notin> dm_id ` set (ms_pending st)"
  shows "\<exists>bubble. ms_pending st' = ms_pending st @ [bubble] \<and> dm_id bubble = df_clientId d \<and> dm_status bubble = Some Sending
    \<and> (let ok = fst (sendSuccess env now' (df_clientId d) m st')
       in ms_pending ok = ms_pending st @ [bubble\<lparr>dm_id := em_id m, dm_status := Some Sent\<rparr>]
          \<and> em_id m \<in> em_id ` set (ms_live ok) \<and> \<not> ms_inContext ok)
    \<and> ms_pending (fst (sendFailure err (df_clientId d) st')) = ms_pending st @ [bubble\<lparr>dm_status := Some Failed\<rparr>]
    \<and> submitMessage env2 uuid2 now2 st' = (st', [], None)"
proof -
  from assms(1) obtain i where i: "ev_identity env = Some i"
    and st': "st' = st\<lparr>ms_pending := ms_pending st @ [pending_of env i d], ms_text := [], ms_file := None,
           ms_reply := None, ms_sending := True\<rparr>"
    by (rule submit_cases)
  have old: "map_pending (df_clientId d) f (ms_pending st) = ms_pending st" for f
    unfolding map_pending_def using assms(2) by (intro map_idI) (auto simp: image_iff)
  have new: "map_pending (df_clientId d) f (ms_pending st @ [pending_of env i d])
      = ms_pending st @ [f (pending_of env i d)]" for f
    using old[of f] by (simp add: map_pending_def pending_of_def)
  have live: "em_id m \<in> em_id ` set (liveAppend m ms)" for ms
    using liveAppend_mem[of m ms] by (rule imageI)
  show ?thesis
  proof (intro exI[of _ "pending_of env i d"] conjI)
    show "let ok = fst (sendSuccess env now' (df_clientId d) m st')
       in ms_pending ok = ms_pending st @ [(pending_of env i d)\<lparr>dm_id := em_id m, dm_status := Some Sent\<rparr>]
          \<and> em_id m \<in> em_id ` set (ms_live ok) \<and> \<not> ms_inContext ok"
      using live by (simp add: sendSuccess_def Let_def st' new exitContextMode_def)
    show "submitMessage env2 uuid2 now2 st' = (st', [], None)"
      by (auto simp: submitMessage_def Let_def st' split: option.splits)
  qed (simp_all add: st' pending_of_def sendFailure_def new[unfolded pending_of_def])
qed

lemma sample_submit:
  "submitMessage (sample_env (js ''r'') None) (js ''1'') (js ''t'') (initial_state\<lparr>ms_text := js ''hi''\<rparr>)
    = ((initial_state\<lparr>ms_pending := [pending_of (sample_env (js ''r'') None) sample_identity
          \<lparr>df_clientId = js ''local-1'', df_roomId = js ''r'', df_text = js ''hi'', df_file = None,
           df_createdAt = js ''t'', df_replyTo = None\<rparr>], ms_sending := True\<rparr>), [],
       Some \<lparr>df_clientId = js ''local-1'', df_roomId = js ''r'', df_text = js ''hi'', df_file = None,
           df_createdAt = js ''t'', df_replyTo = None\<rparr>)"
  by (simp add: submitMessage_def sample_env_def initial_state_def js_lit js_trim_def js_space_def Let_def)

theorem sent_message_lifecycle_witness:
  "\<exists>st d. submitMessage (sample_env (js ''r'') None) (js ''1'') (js ''t'') (initial_state\<lparr>ms_text := js ''hi''\<rparr>) = (st, [], Some d)
    \<and> submitMessage (sample_env (js ''r'') None) (js ''2'') (js ''t'') st = (st, [], None)"
  using sent_message_lifecycle[OF sample_submit, where ?env2.0 = "sample_env (js ''r'') None" and ?uuid2.0 = "js ''2''"
      and ?now2.0 = "js ''t''"] sample_submit
  by (auto simp: initial_state_def)

text \<open>What is sent is what the bubble shows: the receiver decodes the text, the sender's name, the
  reply and the attachment of the draft, and the \<open>sentAt\<close> by which the confirmed copy
  replaces the bubble is the bubble's own.\<close>

theorem sent_payload_matches_bubble:
  assumes "sendSecondCall env d uploaded = Inr call" and "small_int (snd (the uploaded))"
    and "pred_option (\<lambda>f. small_int (int (fl_size f))) (df_file d)"
  shows "\<exists>i token p. ev_identity env = Some i \<and> call = CallSendEncryptedMessage token (df_roomId d) (iy_userId i) p
    \<and> (\<forall>msg. em_ciphertext msg = pl_ciphertext p \<and> em_algorithm msg = pl_algorithm p \<longrightarrow>
        decode_body wc secret msg = Inr (sent_plain env i d uploaded)
        \<and> pm_text (sent_plain env i d uploaded) = df_text d
        \<and> sent_at (decryptMessageOf wc env msg) = sent_at (pending_of env i d))"
proof -
  from assms(1) obtain i token p where i: "ev_identity env = Some i" "ev_token env = Some token"
    and p: "encodePlainMessage (sent_plain env i d uploaded) = Inr p"
    and c: "call = CallSendEncryptedMessage token (df_roomId d) (iy_userId i) p"
    by (auto simp: sendSecondCall_def bindR_eq_Inr split: option.splits)
  have ok: "plain_ok (sent_plain env i d uploaded)"
    using assms(2,3) by (auto simp: plain_ok_def sent_plain_def split: option.splits)
  have dec: "decode_body wc' secret' msg = Inr (sent_plain env i d uploaded)"
    if "em_ciphertext msg = pl_ciphertext p" "em_algorithm msg = pl_algorithm p" for msg wc' secret'
    using p that json_of_plain_ok[OF ok]
    by (auto simp: encodePlainMessage_def decode_body_def decodeMessagePayload_def payload_of_def
        decode_text_stringify plain_of_json_of)
  have "sent_at (decryptMessageOf wc env msg) = sent_at (pending_of env i d)"
    if "em_ciphertext msg = pl_ciphertext p" "em_algorithm msg = pl_algorithm p" for msg
    using dec[OF that] by (simp add: decryptMessageOf_def decrypted_of_def sent_at_def pending_of_def sent_plain_def)
  with i c dec show ?thesis by (auto simp: sent_plain_def)
qed

lemma sample_second:
  "\<exists>call. sendSecondCall (sample_env (js ''r'') None) \<lparr>df_clientId = js ''local-1'', df_roomId = js ''r'', df_text = js ''hi'',
     df_file = None, df_createdAt = js ''t'', df_replyTo = None\<rparr> (Some (js ''f'', 3)) = Inr call"
  by (simp add: sendSecondCall_def sample_env_def ev_token_def encodePlainMessage_def)

theorem sent_payload_matches_bubble_witness:
  "\<exists>call i token p. sendSecondCall (sample_env (js ''r'') None) \<lparr>df_clientId = js ''local-1'', df_roomId = js ''r'', df_text = js ''hi'',
     df_file = None, df_createdAt = js ''t'', df_replyTo = None\<rparr> (Some (js ''f'', 3)) = Inr call
    \<and> ev_identity (sample_env (js ''r'') None) = Some i \<and> call = CallSendEncryptedMessage token (js ''r'') (iy_userId i) p"
proof -
  obtain call where c: "sendSecondCall (sample_env (js ''r'') None) \<lparr>df_clientId = js ''local-1'', df_roomId = js ''r'',
     df_text = js ''hi'', df_file = None, df_createdAt = js ''t'', df_replyTo = None\<rparr> (Some (js ''f'', 3)) = Inr call"
    using sample_second by blast
  from sent_payload_matches_bubble[OF c] show ?thesis
    using c by (fastforce simp: small_int_def max_safe_def)
qed

subsection \<open>Decryption settles\<close>

lemma fold_cache_get:
  "distinct (map em_id todo) \<Longrightarrow> jm_get (fold (\<lambda>m. jm_set (em_id m) (f m)) todo c) k =
    (case find (\<lambda>m. em_id m = k) todo of Some m \<Rightarrow> Some (f m) | None \<Rightarrow> jm_get c k)"
proof (induction todo arbitrary: c)
  case (Cons t ts)
  have "find (\<lambda>m. em_id m = em_id t) ts = None"
    using Cons.prems by (auto simp: find_None_iff image_iff)
  with Cons show ?case by (auto simp: jmap_simps split: option.split)
qed simp

lemma decryptMessageOf_id: "dm_id (decryptMessageOf wc env m) = em_id m"
  "dm_roomId (decryptMessageOf wc env m) = em_roomId m" "dm_senderId (decryptMessageOf wc env m) = em_senderId m"
  "dm_deletedAt (decryptMessageOf wc env m) = em_deletedAt m" "dm_createdAt (decryptMessageOf wc env m) = em_createdAt m"
  by (simp_all add: decryptMessageOf_def decrypted_of_def split: sum.split)

section \<open>The cache holds each message under its id\<close>

definition cache_keyed :: "msg_state \<Rightarrow> bool" where
  "cache_keyed st = (\<forall>k key d. jm_get (ms_cache st) k = Some (key, d) \<longrightarrow> dm_id d = k)"

lemma fold_cache_keyed:
  assumes "\<forall>k key d. jm_get c k = Some (key, d) \<longrightarrow> dm_id d = k"
  shows "jm_get (fold (\<lambda>m. jm_set (em_id m) (cache_key dp env m, decryptMessageOf wc env m)) todo c) k = Some (key, d)
    \<Longrightarrow> dm_id d = k"
  using assms
  by (induction todo arbitrary: c) (auto simp: jmap_simps decryptMessageOf_id split: if_splits)

lemma cache_of_step:
  "\<nexists>env enc todo c. e = MDecryptDone env enc todo c \<Longrightarrow>
   ms_cache (msg_step dp wc st e) = ms_cache st \<or> ms_cache (msg_step dp wc st e) = []"
proof (cases e)
  case (MLoadMoreDone kind res)
  then show ?thesis by (cases kind) (auto simp: loadMoreDone_def split: sum.splits)
next
  case (MSendSuccess env now cid m)
  then show ?thesis by (simp add: sendSuccess_def Let_def exitContextMode_def)
next
  case (MLoadMore env)
  then show ?thesis by (auto simp: loadMoreStart_def Let_def split: option.splits list.splits if_splits)
next
  case (MDecrypt env enc)
  then show ?thesis by (simp add: decryptStart_def Let_def)
next
  case (MTyping env now v)
  then show ?thesis by (simp add: updateMessageText_def Let_def split: option.splits)
next
  case (MSubmit env uuid now)
  then show ?thesis by (simp add: submitMessage_def Let_def split: option.splits)
qed (simp_all add: resetRoom_def syncHasMore_def exitContextMode_def attachmentsDone_def dropConfirmed_def
    sendFailure_def editSuccess_def deleteLocalSuccess_def deleteForAllSuccess_def reactionSuccess_def
    selectFile_def openEditMessage_def openDeleteMessage_def previewDone_def split: option.splits sum.splits)

lemma cache_keyed_step: "cache_keyed st \<Longrightarrow> cache_keyed (msg_step dp wc st e)"
proof (cases "\<exists>env enc todo c. e = MDecryptDone env enc todo c")
  case True
  then obtain env enc todo c where e: "e = MDecryptDone env enc todo c" by blast
  assume st: "cache_keyed st"
  then have "cache_keyed (decryptDone dp wc env enc todo False st)"
    unfolding cache_keyed_def decryptDone_def Let_def
    by (simp del: split_paired_All) (blast intro: fold_cache_keyed)
  with e st show ?thesis by (cases c) (simp_all add: decryptDone_def)
next
  case False
  moreover assume "cache_keyed st"
  ultimately show ?thesis
    using cache_of_step[of e dp wc st] by (auto simp: cache_keyed_def)
qed

interpretation cache: step_system "msg_step dp wc" cache_keyed for dp wc
  by unfold_locales (rule cache_keyed_step)

lemma reachable_cache: "cache_keyed (foldl (msg_step dp wc) initial_state es)"
  by (rule cache.run_inv) (simp add: cache_keyed_def initial_state_def)

text \<open>What the cache holds of each message after a run.\<close>

lemma cache_entry:
  fixes dp :: "jstr \<Rightarrow> int option" and env :: msg_env
  assumes "distinct (map em_id encrypted)" "m \<in> set encrypted" "cache_keyed st"
  defines "todo \<equiv> filter (needs_decrypt dp env st) encrypted"
  shows "\<exists>d. jm_get (fold (\<lambda>msg. jm_set (em_id msg) (cache_key dp env msg, decryptMessageOf wc env msg)) todo (ms_cache st)) (em_id m)
        = Some (cache_key dp env m, d) \<and> dm_id d = em_id m
      \<and> (if m \<in> set todo then d = decryptMessageOf wc env m
         else jm_get (ms_cache st) (em_id m) = Some (cache_key dp env m, d))"
proof -
  have d: "distinct (map em_id todo)"
    using assms(1) by (simp add: todo_def distinct_map_filter)
  show ?thesis
  proof (cases "m \<in> set todo")
    case True
    then obtain m' where m': "find (\<lambda>x. em_id x = em_id m) todo = Some m'"
      by (cases "find (\<lambda>x. em_id x = em_id m) todo") (auto simp: find_None_iff)
    then have "m' \<in> set todo" "em_id m' = em_id m" by (auto simp: find_Some_iff)
    with d True have "m' = m" by (simp add: distinct_map inj_on_def)
    with m' True show ?thesis by (simp add: fold_cache_get[OF d] decryptMessageOf_id)
  next
    case False
    then have "find (\<lambda>x. em_id x = em_id m) todo = None"
      using assms(1,2) by (auto simp: find_None_iff todo_def distinct_map inj_on_def)
    moreover obtain e where "jm_get (ms_cache st) (em_id m) = Some (cache_key dp env m, e)"
      using False assms(2) by (auto simp: todo_def needs_decrypt_def)
    ultimately show ?thesis
      using False assms(3) by (auto simp: fold_cache_get[OF d] cache_keyed_def)
  qed
qed

text \<open>C31. When a decryption run ends the list shows every message, in order: those that were run as
  they now decrypt, the others as the cache had them under the same key; and there is nothing left
  to decrypt: the effect, run again, starts nothing and shows the same list until a message changes.\<close>

theorem decryption_settles:
  assumes "st = foldl (msg_step dp wc) initial_state es" "distinct (map em_id encrypted)" "encrypted \<noteq> []"
    and "decryptStart dp env encrypted st = (st1, todo)" "todo \<noteq> []"
  shows "let st2 = decryptDone dp wc env encrypted todo False st1; (st3, todo3) = decryptStart dp env encrypted st2
    in list_all2 (\<lambda>m d. dm_id d = em_id m
           \<and> (if m \<in> set todo then d = decryptMessageOf wc env m
              else jm_get (ms_cache st) (em_id m) = Some (cache_key dp env m, d))) encrypted (ms_decrypted st2)
       \<and> todo3 = [] \<and> ms_decrypted st3 = ms_decrypted st2 \<and> \<not> ms_decrypting st2"
proof -
  have todo: "todo = filter (needs_decrypt dp env st) encrypted" and c: "ms_cache st1 = ms_cache st"
    using assms(3-5) by (auto simp: decryptStart_def Let_def split: if_splits)
  define st2 where "st2 = decryptDone dp wc env encrypted todo False st1"
  define cache where "cache = fold (\<lambda>msg. jm_set (em_id msg) (cache_key dp env msg, decryptMessageOf wc env msg)) todo (ms_cache st)"
  have st2: "ms_cache st2 = cache" "ms_decrypted st2 = cached_list cache encrypted" "\<not> ms_decrypting st2"
    by (simp_all add: st2_def decryptDone_def cache_def c Let_def)
  define good where "good = (\<lambda>m d. dm_id d = em_id m
      \<and> (if m \<in> set todo then d = decryptMessageOf wc env m
         else jm_get (ms_cache st) (em_id m) = Some (cache_key dp env m, d)))"
  have entry: "\<exists>d. jm_get cache (em_id m) = Some (cache_key dp env m, d) \<and> good m d" if "m \<in> set encrypted" for m
    using cache_entry[OF assms(2) that, of st dp env wc] reachable_cache[of dp wc es] assms(1)
    unfolding cache_def todo good_def by simp
  have "list_all2 good ms (cached_list cache ms)" if "set ms \<subseteq> set encrypted" for ms
    using that
  proof (induction ms)
    case (Cons m ms)
    with entry[of m] show ?case by (auto simp: cached_list_def List.map_filter_simps)
  qed (simp add: cached_list_def List.map_filter_simps)
  moreover have "filter (needs_decrypt dp env st2) encrypted = []"
    using entry by (fastforce simp: filter_empty_conv needs_decrypt_def st2)
  then have "decryptStart dp env encrypted st2 = (st2\<lparr>ms_decrypted := cached_list cache encrypted, ms_decrypting := False\<rparr>, [])"
    using assms(3) by (simp add: decryptStart_def Let_def st2)
  ultimately show ?thesis
    using st2 unfolding Let_def st2_def[symmetric] good_def[symmetric] by simp
qed

theorem decryption_settles_witness:
  "let st2 = decryptDone sample_dp sample_crypto (sample_env (js ''r'') None) [sample_em (js ''a'') (js ''r'') (js ''22'')]
       [sample_em (js ''a'') (js ''r'') (js ''22'')] False (initial_state\<lparr>ms_decrypting := True\<rparr>)
   in map dm_id (ms_decrypted st2) = [js ''a'']
      \<and> snd (decryptStart sample_dp (sample_env (js ''r'') None) [sample_em (js ''a'') (js ''r'') (js ''22'')] st2) = []"
proof -
  have "decryptStart sample_dp (sample_env (js ''r'') None) [sample_em (js ''a'') (js ''r'') (js ''22'')] initial_state
      = (initial_state\<lparr>ms_decrypting := True\<rparr>, [sample_em (js ''a'') (js ''r'') (js ''22'')])"
    by (simp add: decryptStart_def needs_decrypt_def initial_state_def)
  from decryption_settles[of initial_state sample_dp sample_crypto "[]", OF _ _ _ this] show ?thesis
    by (auto simp: Let_def list_all2_Cons1 sample_em_def split: prod.splits)
qed

end
