(* ===== verification/MessageRaces.thy ===== *)
theory MessageRaces
  imports MessageState
begin

text \<open>
  Orderings of \<open>hooks/useMessages.ts\<close> in which an answer or a re-render meets a state it was
  not made for: the jump to a highlighted message under React's effect protocol, a page that
  arrives after the room was left, and what the decryption cache does not notice.
\<close>

section \<open>The jump to a highlighted message\<close>

lemma highlight_started:
  assumes "hl_deps hl \<noteq> Some d" "highlightRender d hl st = (hl1, st1, [call])"
  shows "hl_deps hl1 = Some d" "hl_run hl1 = Some (hl_next hl)" "ms_loading st1"
    "st1 = st\<lparr>ms_loader := hd_room d @ js '':'' @ hd_highlight d, ms_loading := True\<rparr>"
    "call = CallFetchMessageContext (hd_room d) (hd_highlight d) (as_accessToken (the (hd_session d)))"
  using assms by (auto simp: highlightRender_def highlightBody_def Let_def split: if_splits)

text \<open>The jump works when the effect's dependencies keep their identity: renders in between do
  nothing, the answer opens the window around the message and the lock is released, and after an
  error the jump can be tried again.\<close>

theorem highlight_opens_context:
  assumes "hl_deps hl \<noteq> Some d" "highlightRender d hl st = (hl1, st1, [call])"
  shows "highlightRender d hl1 st1 = (hl1, st1, [])
    \<and> (let st2 = fst (highlightDone (hl_next hl) (Inr (messages, hasMore)) hl1 st1)
       in ms_context st2 = messages \<and> ms_contextMore st2 = hasMore \<and> ms_inContext st2 \<and> \<not> ms_loading st2)
    \<and> (let st3 = fst (highlightDone (hl_next hl) (Inl err) hl1 st1)
       in \<not> ms_loading st3 \<and> ms_loader st3 = [] \<and> ms_context st3 = ms_context st)"
  using highlight_started[OF assms] by (simp add: highlightRender_def highlightDone_def Let_def)

definition sample_deps :: "nat \<Rightarrow> hl_deps" where
  "sample_deps h = \<lparr>hd_room = js ''r'', hd_handlers = h, hd_highlight = js ''m9'', hd_paged = [],
     hd_session = Some sample_session\<rparr>"

definition idle_hl :: hl_state where
  "idle_hl = \<lparr>hl_deps = None, hl_run = None, hl_next = 0\<rparr>"

lemma sample_highlight:
  "highlightRender (sample_deps h) idle_hl initial_state
    = (\<lparr>hl_deps = Some (sample_deps h), hl_run = Some 0, hl_next = 1\<rparr>,
       initial_state\<lparr>ms_loader := js ''r:m9'', ms_loading := True\<rparr>,
       [CallFetchMessageContext (js ''r'') (js ''m9'') (js ''tok'')])"
  by (simp add: highlightRender_def highlightBody_def sample_deps_def idle_hl_def initial_state_def
      has_message_def sample_session_def js_append[symmetric] Let_def js_Nil_eq)

theorem highlight_opens_context_witness:
  "ms_inContext (fst (highlightDone 0 (Inr ([], False)) \<lparr>hl_deps = Some (sample_deps 1), hl_run = Some 0, hl_next = 1\<rparr>
     (initial_state\<lparr>ms_loader := js ''r:m9'', ms_loading := True\<rparr>)))"
  using highlight_opens_context[OF _ sample_highlight[of 1], where messages = "[]" and hasMore = False]
  by (simp add: idle_hl_def Let_def)

text \<open>C21. But a render that passes new handler functions, as every render of \<open>MessengerApp\<close> does and as
  the effect's own \<open>setIsLoadingMoreMessages(true)\<close> causes, cancels the fetch without starting
  another: whatever the server answers, the window does not open, and the loading lock stays
  taken, so neither the jump nor \<open>loadMoreMessages\<close> does anything until the room changes.\<close>

theorem rerender_discards_highlight:
  assumes "hl_deps hl \<noteq> Some d" "highlightRender d hl st = (hl1, st1, [call])" "h \<noteq> hd_handlers d"
  shows "\<exists>hl2. highlightRender (d\<lparr>hd_handlers := h\<rparr>) hl1 st1 = (hl2, st1, [])
    \<and> fst (highlightDone (hl_next hl) res hl2 st1) = st1 \<and> ms_loading st1
    \<and> ms_inContext st1 = ms_inContext st \<and> loadMoreStart dp env st1 = None
    \<and> (\<forall>d3 hl3. snd (snd (highlightRender d3 hl3 st1)) = [])"
proof -
  note s = highlight_started[OF assms(1,2)]
  have ne: "Some d \<noteq> Some (d\<lparr>hd_handlers := h\<rparr>)"
    using assms(3) by (metis hl_deps.select_convs(2) hl_deps.surjective hl_deps.update_convs(2) option.inject)
  have none: "highlightBody d' hl' st1 = (hl', st1, [])" for d' hl'
    using s(3) by (simp add: highlightBody_def Let_def)
  have "highlightRender (d\<lparr>hd_handlers := h\<rparr>) hl1 st1
      = (hl1\<lparr>hl_deps := Some (d\<lparr>hd_handlers := h\<rparr>), hl_run := None\<rparr>, st1, [])"
    using ne s(1) by (simp add: highlightRender_def none)
  moreover have "fst (highlightDone (hl_next hl) res (hl1\<lparr>hl_deps := Some (d\<lparr>hd_handlers := h\<rparr>), hl_run := None\<rparr>) st1) = st1"
    by (auto simp: highlightDone_def Let_def split: sum.splits)
  moreover have "loadMoreStart dp env st1 = None"
    using s(3) by (auto simp: loadMoreStart_def Let_def)
  moreover have "snd (snd (highlightRender d3 hl3 st1)) = []" for d3 hl3
    by (simp add: highlightRender_def none)
  ultimately show ?thesis using s(3,4) by (intro exI conjI allI) simp_all
qed

theorem rerender_discards_highlight_witness:
  "\<exists>hl2. highlightRender ((sample_deps 1)\<lparr>hd_handlers := 2\<rparr>) \<lparr>hl_deps = Some (sample_deps 1), hl_run = Some 0, hl_next = 1\<rparr>
       (initial_state\<lparr>ms_loader := js ''r:m9'', ms_loading := True\<rparr>)
      = (hl2, initial_state\<lparr>ms_loader := js ''r:m9'', ms_loading := True\<rparr>, [])
    \<and> fst (highlightDone 0 (Inr ([], False)) hl2 (initial_state\<lparr>ms_loader := js ''r:m9'', ms_loading := True\<rparr>))
      = initial_state\<lparr>ms_loader := js ''r:m9'', ms_loading := True\<rparr>"
proof -
  have "hl_deps idle_hl \<noteq> Some (sample_deps 1)" "(2 :: nat) \<noteq> hd_handlers (sample_deps 1)" "hl_next idle_hl = 0"
    by (simp_all add: idle_hl_def sample_deps_def)
  with rerender_discards_highlight[OF _ sample_highlight[of 1], where h = 2 and res = "Inr ([], False)"
      and dp = sample_dp and env = "sample_env [] None"]
  show ?thesis by auto
qed

section \<open>A page that arrives after its room was left\<close>

text \<open>Leaving a room resets the pages but does not drop the request on its way: its answer becomes the
  older pages of the next room and decides its \<open>hasMoreMessages\<close>, and, since the cursor is taken
  over all pages, the next page of the new room is asked for with a date of the old one.\<close>

theorem late_page_moves_cursor:
  "let envA = sample_env (js ''A'') (Some ([sample_em (js ''a2'') (js ''A'') (js ''22'')], True));
       envB = sample_env (js ''B'') (Some ([sample_em (js ''b9'') (js ''B'') (js ''999999999'')], True));
       st1 = fst (the (loadMoreStart sample_dp envA (initial_state\<lparr>ms_hasMore := True\<rparr>)));
       stB = syncHasMore envB (resetRoom st1);
       late = fst (loadMoreDone sample_dp OlderPage (Inr ([sample_em (js ''a1'') (js ''A'') (js ''1'')], True)) stB)
   in snd (snd (the (loadMoreStart sample_dp envB stB)))
        = CallFetchMessages (js ''B'') (js ''tok'') (Some (js ''999999999''))
    \<and> snd (snd (the (loadMoreStart sample_dp envB late)))
        = CallFetchMessages (js ''B'') (js ''tok'') (Some (js ''1''))"
  by (simp add: Let_def loadMoreStart_def sample_env_def initial_state_def ev_paged_def pagedMessages_def
      oldestPagedMessageAt_def ev_token_def sample_session_def syncHasMore_def resetRoom_def loadMoreDone_def
      mergeMessagePages_def set_message_def js_sort_def jm_values_def sample_em_def sample_dp_def)

section \<open>What the decryption cache does not notice\<close>

text \<open>The cache key is the version, the reactions, the read flag and the own id.  A new room secret,
  or a change of the read receipts alone, leaves a cached entry, failures included, in place.\<close>

theorem cache_ignores_secret_and_receipts:
  "decryptStart dp (env\<lparr>ev_secret := secret\<rparr>) encrypted st = decryptStart dp env encrypted st
   \<and> needs_decrypt dp env st (msg\<lparr>em_readReceipts := rr, em_readBy := rb\<rparr>) = needs_decrypt dp env st msg"
proof -
  have "cache_key dp (env\<lparr>ev_secret := secret\<rparr>) m = cache_key dp env m" for m
    by (simp add: cache_key_def)
  then have "needs_decrypt dp (env\<lparr>ev_secret := secret\<rparr>) st = needs_decrypt dp env st"
    by (simp add: needs_decrypt_def fun_eq_iff)
  then show ?thesis
    by (simp add: decryptStart_def Let_def needs_decrypt_def cache_key_def version_of_def is_read_def)
qed

end
