(* ===== verification/Markup.thy ===== *)
theory Markup
  imports Messages
begin

text \<open>
  The inline markup of \<open>components/chat/ChatView.tsx\<close>: \<open>INLINE_PATTERN\<close> as a matcher at the head
  of a text, its alternatives tried in the order of the pattern, \<open>parseInlineMarkdown\<close> as the
  loop over the matches, and \<open>splitNewlines\<close>.  A node carries the parts of its React key.
\<close>

section \<open>The pattern\<close>

datatype mark = Link | Strong | Em | Code | Strike

datatype md_node =
    Plain jstr
  | Break nat nat
  | Mark nat mark jstr

definition line_end :: "code_unit \<Rightarrow> bool" where
  "line_end c = (c = 10 \<or> c = 13 \<or> c = 0x2028 \<or> c = 0x2029)"

text \<open>The class \<open>[^\s<>"{}|\\^`[\]]\<close>; \<open>\s\<close> is the white space that \<open>trim\<close> removes.\<close>

definition url_char :: "code_unit \<Rightarrow> bool" where
  "url_char c = (\<not> js_space c \<and> c \<notin> {60, 62, 34, 123, 125, 124, 92, 94, 96, 91, 93})"

text \<open>\<open>(.+?)\<close> up to the next delimiter: at least one character, none of them a line end.\<close>

fun lazy_until :: "jstr \<Rightarrow> jstr \<Rightarrow> (jstr \<times> jstr) option" where
  "lazy_until d [] = None"
| "lazy_until d (c # s) =
     (if line_end c then None
      else if js_starts d s then Some ([c], drop (length d) s)
      else map_option (\<lambda>(x, r). (c # x, r)) (lazy_until d s))"

definition between :: "mark \<Rightarrow> jstr \<Rightarrow> jstr \<Rightarrow> (mark \<times> jstr \<times> jstr) option" where
  "between k d s =
     (if js_starts d s then map_option (\<lambda>(x, r). (k, x, r)) (lazy_until d (drop (length d) s)) else None)"

definition link_at :: "jstr \<Rightarrow> (mark \<times> jstr \<times> jstr) option" where
  "link_at s =
     (let scheme = (if js_starts (js ''https://'') s then js ''https://'' else js ''http://'');
          body = takeWhile url_char (drop (length scheme) s)
      in if js_starts scheme s \<and> body \<noteq> [] then Some (Link, scheme @ body, drop (length scheme + length body) s) else None)"

definition code_at :: "jstr \<Rightarrow> (mark \<times> jstr \<times> jstr) option" where
  "code_at s =
     (if js_starts [96] s
      then (let body = takeWhile (\<lambda>c. c \<noteq> 96) (tl s); r = drop (Suc (length body)) s
            in if body \<noteq> [] \<and> js_starts [96] r then Some (Code, body, tl r) else None)
      else None)"

fun first_some :: "'a option list \<Rightarrow> 'a option" where
  "first_some [] = None"
| "first_some (Some x # xs) = Some x"
| "first_some (None # xs) = first_some xs"

definition match_at :: "jstr \<Rightarrow> (mark \<times> jstr \<times> jstr) option" where
  "match_at s =
     first_some [link_at s, between Strong [42, 42] s, between Em [42] s, code_at s, between Strike [126, 126] s]"

section \<open>Parsing\<close>

definition splitNewlines :: "jstr \<Rightarrow> nat \<Rightarrow> md_node list" where
  "splitNewlines text keyOffset =
     concat (map (\<lambda>(i, line). if i = 0 then [Plain line] else [Break keyOffset i, Plain line])
       (List.enumerate 0 (js_split 10 text)))"

text \<open>The loop of \<open>exec\<close>: \<open>nodes\<close> are those pushed, \<open>plain\<close> the text since \<open>lastIndex\<close>, \<open>i\<close> the place
  where the pattern is tried.\<close>

definition flush_plain :: "md_node list \<Rightarrow> jstr \<Rightarrow> md_node list" where
  "flush_plain nodes plain = (if plain = [] then nodes else nodes @ splitNewlines plain (length nodes))"

lemma lazy_until_source:
  "lazy_until d s = Some (x, r) \<Longrightarrow> s = x @ d @ r \<and> x \<noteq> [] \<and> (\<forall>c \<in> set x. \<not> line_end c)"
  by (induction d s arbitrary: x rule: lazy_until.induct) (auto split: if_splits simp: js_starts_iff)

definition mark_source :: "mark \<Rightarrow> jstr \<Rightarrow> jstr" where
  "mark_source k x =
     (case k of Link \<Rightarrow> x | Strong \<Rightarrow> [42, 42] @ x @ [42, 42] | Em \<Rightarrow> [42] @ x @ [42] | Code \<Rightarrow> [96] @ x @ [96]
      | Strike \<Rightarrow> [126, 126] @ x @ [126, 126])"

definition is_url :: "jstr \<Rightarrow> bool" where
  "is_url x = (\<exists>p b. p \<in> {js ''https://'', js ''http://''} \<and> x = p @ b \<and> b \<noteq> [] \<and> (\<forall>c \<in> set b. url_char c))"

lemma between_source:
  "between k d s = Some (k', x, r) \<Longrightarrow> k' = k \<and> s = d @ x @ d @ r \<and> x \<noteq> []"
  by (auto simp: between_def js_starts_iff split: if_splits dest!: lazy_until_source)

lemma link_source:
  assumes "link_at s = Some (k, x, r)"
  shows "k = Link \<and> s = x @ r \<and> is_url x"
proof -
  let ?p = "if js_starts (js ''https://'') s then js ''https://'' else js ''http://''"
  let ?b = "takeWhile url_char (drop (length ?p) s)"
  have m: "js_starts ?p s" "?b \<noteq> []" "k = Link" "x = ?p @ ?b" "r = drop (length ?p + length ?b) s"
    using assms by (auto simp: link_at_def Let_def split: if_splits)
  from m(1) obtain t where t: "s = ?p @ t" by (auto simp: js_starts_iff)
  then have "drop (length ?p) s = t" by (metis append_eq_conv_conj)
  then have "s = ?p @ takeWhile url_char t @ drop (length (takeWhile url_char t)) t" using t
    by (metis takeWhile_dropWhile_id dropWhile_eq_drop)
  then have "s = x @ r" using m(4,5) \<open>drop (length ?p) s = t\<close> by (simp add: add.commute flip: drop_drop)
  moreover have "is_url x" unfolding is_url_def using m(2,4) by (intro exI [of _ ?p] exI [of _ ?b]) (auto dest: set_takeWhileD)
  ultimately show ?thesis using m(3) by blast
qed

lemma code_source: "code_at s = Some (k, x, r) \<Longrightarrow> k = Code \<and> s = [96] @ x @ [96] @ r \<and> x \<noteq> []"
proof -
  assume a: "code_at s = Some (k, x, r)"
  then obtain t where t: "s = 96 # t" by (auto simp: code_at_def js_starts_iff split: if_splits)
  let ?b = "takeWhile (\<lambda>c. c \<noteq> 96) t"
  have m: "k = Code" "x = ?b" "?b \<noteq> []" "js_starts [96] (drop (length ?b) t)" "r = tl (drop (length ?b) t)"
    using a by (auto simp: code_at_def t Let_def split: if_splits)
  have "t = ?b @ drop (length ?b) t" by (metis takeWhile_dropWhile_id dropWhile_eq_drop)
  moreover obtain u where "drop (length ?b) t = 96 # u" using m(4) by (auto simp: js_starts_iff)
  ultimately have "t = x @ [96] @ r" using m(2,5) by simp
  then show ?thesis using m t by simp
qed

lemma first_some_in: "first_some xs = Some y \<Longrightarrow> Some y \<in> set xs"
  by (induction xs rule: first_some.induct) auto

lemma match_source:
  assumes "match_at s = Some (k, x, r)"
  shows "s = mark_source k x @ r \<and> x \<noteq> [] \<and> (k = Link \<longrightarrow> is_url x)"
proof -
  have "link_at s = Some (k, x, r) \<or> between Strong [42, 42] s = Some (k, x, r) \<or> between Em [42] s = Some (k, x, r)
      \<or> code_at s = Some (k, x, r) \<or> between Strike [126, 126] s = Some (k, x, r)"
    using first_some_in [OF assms [unfolded match_at_def]] by auto
  then show ?thesis
    by (auto simp: mark_source_def is_url_def dest!: link_source between_source code_source)
qed

lemma match_shorter: "match_at s = Some (k, x, r) \<Longrightarrow> length r < length s"
  using match_source [of s k x r] by (auto simp: mark_source_def split: mark.splits)

function parse_loop :: "md_node list \<Rightarrow> jstr \<Rightarrow> nat \<Rightarrow> jstr \<Rightarrow> md_node list" where
  "parse_loop nodes plain i [] = flush_plain nodes plain"
| "parse_loop nodes plain i (c # s) =
     (case match_at (c # s) of
        Some (k, x, r) \<Rightarrow>
          parse_loop (flush_plain nodes plain @ [Mark i k x]) [] (i + (length (c # s) - length r)) r
      | None \<Rightarrow> parse_loop nodes (plain @ [c]) (Suc i) s)"
  by pat_completeness auto
termination
  by (relation "measure (\<lambda>(_, _, _, s). length s)") (auto dest: match_shorter)

definition parseInlineMarkdown :: "jstr \<Rightarrow> md_node list" where
  "parseInlineMarkdown text = parse_loop [] [] 0 text"

section \<open>Nothing is lost\<close>

fun node_source :: "md_node \<Rightarrow> jstr" where
  "node_source (Plain t) = t"
| "node_source (Break _ _) = [10]"
| "node_source (Mark _ k x) = mark_source k x"

fun node_key :: "md_node \<Rightarrow> (nat + nat \<times> nat) option" where
  "node_key (Plain _) = None"
| "node_key (Break o' i) = Some (Inr (o', i))"
| "node_key (Mark i _ _) = Some (Inl i)"

definition keys_of :: "md_node list \<Rightarrow> (nat + nat \<times> nat) list" where
  "keys_of nodes = List.map_filter node_key nodes"

lemma keys_of_simps [simp]:
  "keys_of [] = []" "keys_of (n # ns) = (case node_key n of None \<Rightarrow> keys_of ns | Some k \<Rightarrow> k # keys_of ns)"
  "keys_of (xs @ ys) = keys_of xs @ keys_of ys"
  by (auto simp: keys_of_def List.map_filter_def split: option.splits)

lemma enumerate_lines_source:
  "concat (map node_source (concat (map (\<lambda>(i, line). if i = 0 then [Plain line] else [Break k i, Plain line]) (List.enumerate (Suc n) ls))))
    = concat (map (\<lambda>l. 10 # l) ls)"
  by (induction ls arbitrary: n) auto

lemma js_join_lines: "js_join [d] (l # ls) = l @ concat (map (\<lambda>x. d # x) ls)"
  by (induction ls arbitrary: l) auto

lemma split_lines_source: "concat (map node_source (splitNewlines t k)) = t"
proof (cases "js_split 10 t")
  case (Cons l ls)
  then have "l @ concat (map (\<lambda>x. 10 # x) ls) = t"
    using js_join_split [of 10 t] js_join_lines [of 10 l ls] by simp
  moreover have "concat (map node_source (splitNewlines t k)) = l @ concat (map (\<lambda>x. 10 # x) ls)"
    using enumerate_lines_source [of k 0 ls] by (simp add: splitNewlines_def Cons)
  ultimately show ?thesis by simp
qed simp

lemma enumerate_lines_keys:
  "keys_of (concat (map (\<lambda>(i, line). if i = 0 then [Plain line] else [Break k i, Plain line]) (List.enumerate (Suc n) ls)))
    = map (\<lambda>i. Inr (k, i)) [Suc n..<Suc n + length ls]"
  by (induction ls arbitrary: n) (auto simp: upt_conv_Cons simp del: upt_Suc)

lemma split_lines_keys: "\<exists>m. keys_of (splitNewlines t k) = map (\<lambda>i. Inr (k, i)) [1..<m]"
proof (cases "js_split 10 t")
  case (Cons l ls)
  then show ?thesis using enumerate_lines_keys [of k 0 ls] by (auto simp: splitNewlines_def simp del: upt_Suc)
qed simp

lemma split_lines_nonempty: "splitNewlines t k \<noteq> []"
  by (cases "js_split 10 t") (simp_all add: splitNewlines_def)

definition links_ok :: "md_node list \<Rightarrow> bool" where
  "links_ok nodes = (\<forall>i x. Mark i Link x \<in> set nodes \<longrightarrow> is_url x)"

lemma split_lines_plain: "Mark i k x \<notin> set (splitNewlines t n)"
  by (auto simp: splitNewlines_def split: if_splits)

lemma flush_source: "concat (map node_source (flush_plain nodes plain)) = concat (map node_source nodes) @ plain"
  by (simp add: flush_plain_def split_lines_source)

lemma parse_source:
  "concat (map node_source (parse_loop nodes plain i s)) = concat (map node_source nodes) @ plain @ s"
proof (induction nodes plain i s rule: parse_loop.induct)
  case (2 nodes plain i c s)
  show ?case
    using 2 match_source [of "c # s"] by (auto simp: flush_source split: option.splits)
qed (simp add: flush_source)

lemma parse_links: "links_ok nodes \<Longrightarrow> links_ok (parse_loop nodes plain i s)"
proof (induction nodes plain i s rule: parse_loop.induct)
  case (1 nodes plain i)
  then show ?case by (auto simp: flush_plain_def links_ok_def split_lines_plain)
next
  case (2 nodes plain i c s)
  show ?case
  proof (cases "match_at (c # s)")
    case None
    with 2 show ?thesis by simp
  next
    case (Some m)
    obtain k x r where m: "m = (k, x, r)" by (cases m)
    have "links_ok (flush_plain nodes plain @ [Mark i k x])"
      using 2(3) match_source [OF Some [unfolded m]] by (auto simp: flush_plain_def links_ok_def split_lines_plain)
    then show ?thesis using 2(2) [OF Some m [symmetric] refl] Some by (simp add: m)
  qed
qed

text \<open>The keys so far: distinct, the places of the marks before \<open>i\<close>, the offsets of the breaks below
  the number of nodes.\<close>

definition keys_ok :: "md_node list \<Rightarrow> nat \<Rightarrow> bool" where
  "keys_ok nodes i = (distinct (keys_of nodes) \<and> (\<forall>p. Inl p \<in> set (keys_of nodes) \<longrightarrow> p < i)
     \<and> (\<forall>o' k. Inr (o', k) \<in> set (keys_of nodes) \<longrightarrow> o' < length nodes))"

lemma flush_keys: "keys_ok nodes i \<Longrightarrow> keys_ok (flush_plain nodes plain) i"
proof (cases "plain = []")
  case False
  assume ok: "keys_ok nodes i"
  obtain m where m: "keys_of (splitNewlines plain (length nodes)) = map (\<lambda>j. Inr (length nodes, j)) [1..<m]"
    using split_lines_keys by blast
  have "length (splitNewlines plain (length nodes)) > 0" using split_lines_nonempty by simp
  with ok False show ?thesis
    by (fastforce simp: keys_ok_def flush_plain_def m distinct_map inj_on_def simp del: upt_Suc)
qed (simp add: flush_plain_def)

lemma parse_keys: "keys_ok nodes i \<Longrightarrow> distinct (keys_of (parse_loop nodes plain i s))"
proof (induction nodes plain i s rule: parse_loop.induct)
  case (1 nodes plain i)
  then show ?case using flush_keys [of nodes i plain] by (simp add: keys_ok_def)
next
  case (2 nodes plain i c s)
  show ?case
  proof (cases "match_at (c # s)")
    case None
    moreover have "keys_ok nodes (Suc i)" using 2(3) by (auto simp: keys_ok_def)
    ultimately show ?thesis using 2(1) [OF None] by simp
  next
    case (Some m)
    obtain k x r where m: "m = (k, x, r)" by (cases m)
    have "length r < length (c # s)" using match_shorter Some m by blast
    then have "i < i + (length (c # s) - length r)" by simp
    then have "keys_ok (flush_plain nodes plain @ [Mark i k x]) (i + (length (c # s) - length r))"
      using flush_keys [OF 2(3), of plain] by (fastforce simp: keys_ok_def)
    then show ?thesis using 2(2) [OF Some m [symmetric] refl] Some by (simp add: m)
  qed
qed

text \<open>C27. Rendering a message loses and invents nothing: putting back the delimiters of the marks and the
  line ends gives the text; every link is an http or https address without white space, quotes or
  angle brackets; the keys of the elements are distinct; and the loop ends on every text.\<close>

theorem markup_lossless:
  "concat (map node_source (parseInlineMarkdown text)) = text
   \<and> links_ok (parseInlineMarkdown text) \<and> distinct (keys_of (parseInlineMarkdown text))"
  using parse_source [of "[]" "[]" 0 "text"] parse_links [of "[]" "[]" 0 "text"] parse_keys [of "[]" 0 "[]" "text"]
  by (simp add: parseInlineMarkdown_def links_ok_def keys_ok_def)

text \<open>What the pattern makes of some texts.\<close>

lemma markup_examples:
  "parseInlineMarkdown (js ''a **b** c'') = [Plain (js ''a ''), Mark 2 Strong (js ''b''), Plain (js '' c'')]"
  "parseInlineMarkdown (js ''**a*'') = [Mark 0 Em (js ''*a'')]"
  "parseInlineMarkdown (js ''*a'') = [Plain (js ''*a'')]"
  by (simp_all add: parseInlineMarkdown_def js_lit match_at_def link_at_def between_def code_at_def js_starts_def
      line_end_def flush_plain_def splitNewlines_def Let_def)

end
