(* ===== verification/ChatScroll.thy ===== *)
theory ChatScroll
  imports Messages Complex_Main
begin

text \<open>
  The message list of \<open>components/chat/ChatView.tsx\<close>: the unread counter, the jump to the
  bottom and the paging of history while the user scrolls.  The refs and the state of the
  component are the record \<open>chat_scroll\<close>; the DOM element behind \<open>messagesViewportRef\<close> is a
  \<open>viewport\<close> or None while it is not mounted; positions are rational, since \<open>scrollTop\<close> may
  be fractional.  Each effect and each handler is one function; those that start a page load
  return whether they do, and the load ends with \<open>loadMoreSettled\<close>.  \<open>scroll_step\<close> puts the
  handlers that run while a room stays open into one step function.
\<close>

section \<open>State\<close>

record viewport =
  vp_scrollHeight :: rat
  vp_scrollTop :: rat
  vp_clientHeight :: rat

record scroll_snapshot =
  ss_height :: rat
  ss_top :: rat
  ss_count :: nat

text \<open>One delayed scroll: its delay, whether it is smooth, and the room whose \<open>onSettled\<close>
  callback it runs, if any.\<close>

record bottom_scroll =
  bs_delay :: nat
  bs_smooth :: bool
  bs_settles :: "jstr option"

record chat_scroll =
  cs_unreadCount :: nat
  cs_showScrollBtn :: bool
  cs_newMessageIds :: "jstr list"
  cs_isNearBottom :: bool
  cs_previousMessageIDs :: "jstr list"
  cs_initializedRoom :: jstr
  cs_loadingHistory :: bool
  cs_paginationEnabled :: bool
  cs_bottomScrollTimers :: "bottom_scroll list"
  cs_snapshot :: "scroll_snapshot option"
  cs_paginationArmed :: bool
  cs_lastScrollTop :: rat
  cs_suppressUntil :: int
  cs_lastLoadAt :: int
  cs_animatedSentAts :: "jstr list"
  cs_newMsgTimers :: "jstr list list"

definition mounted :: chat_scroll where
  "mounted = \<lparr>cs_unreadCount = 0, cs_showScrollBtn = False, cs_newMessageIds = [], cs_isNearBottom = True,
     cs_previousMessageIDs = [], cs_initializedRoom = [], cs_loadingHistory = False,
     cs_paginationEnabled = False, cs_bottomScrollTimers = [], cs_snapshot = None,
     cs_paginationArmed = True, cs_lastScrollTop = 0, cs_suppressUntil = 0, cs_lastLoadAt = 0,
     cs_animatedSentAts = [], cs_newMsgTimers = []\<rparr>"

section \<open>Scrolling to the bottom\<close>

definition clearBottomScrollTimers :: "chat_scroll \<Rightarrow> chat_scroll" where
  "clearBottomScrollTimers s = s\<lparr>cs_bottomScrollTimers := []\<rparr>"

definition isViewportNearBottom :: "viewport \<Rightarrow> bool" where
  "isViewportNearBottom el = (vp_scrollHeight el - vp_scrollTop el - vp_clientHeight el < 80)"

definition bottom_delays :: "nat list" where
  "bottom_delays = [0, 16, 50, 120, 250, 500]"

definition scrollMessagesToBottom :: "bool \<Rightarrow> jstr option \<Rightarrow> chat_scroll \<Rightarrow> chat_scroll" where
  "scrollMessagesToBottom smooth onSettled s =
     (clearBottomScrollTimers s)\<lparr>cs_bottomScrollTimers :=
        map (\<lambda>(i, delay). \<lparr>bs_delay = delay, bs_smooth = (smooth \<and> i = 0),
               bs_settles = (if i = length bottom_delays - 1 then onSettled else None)\<rparr>)
          (enumerate 0 bottom_delays)\<rparr>"

text \<open>\<open>el.scrollTo({ top })\<close>: the browser clamps the position; a smooth scroll has not moved yet
  when the call returns.\<close>

definition scroll_to :: "rat \<Rightarrow> viewport \<Rightarrow> viewport" where
  "scroll_to y el = el\<lparr>vp_scrollTop := max 0 (min y (vp_scrollHeight el - vp_clientHeight el))\<rparr>"

definition roomSettled :: "jstr \<Rightarrow> viewport option \<Rightarrow> chat_scroll \<Rightarrow> chat_scroll" where
  "roomSettled roomID el s =
     (if cs_initializedRoom s \<noteq> roomID then s
      else (let atBottom = (case el of None \<Rightarrow> False | Some v \<Rightarrow> isViewportNearBottom v)
            in s\<lparr>cs_isNearBottom := atBottom, cs_showScrollBtn := \<not> atBottom, cs_paginationEnabled := atBottom\<rparr>))"

text \<open>The animation frame one timer asks for.  A frame already asked for is not cancelled by
  clearing the timers, so it runs in whatever state the view then has.\<close>

definition bottomFrame :: "bottom_scroll \<Rightarrow> viewport option \<Rightarrow> chat_scroll \<Rightarrow> viewport option \<times> chat_scroll" where
  "bottomFrame timer el s =
     (case el of
        None \<Rightarrow> (None, s)
      | Some v \<Rightarrow>
          (let v' = (if bs_smooth timer then v else scroll_to (vp_scrollHeight v) v)
           in (Some v', (case bs_settles timer of None \<Rightarrow> s | Some room \<Rightarrow> roomSettled room (Some v') s))))"

definition handleScrollToBottom :: "chat_scroll \<Rightarrow> chat_scroll" where
  "handleScrollToBottom s = (scrollMessagesToBottom True None s)\<lparr>cs_unreadCount := 0\<rparr>"

section \<open>A change of room\<close>

definition resetScrollState :: "chat_scroll \<Rightarrow> chat_scroll" where
  "resetScrollState s = clearBottomScrollTimers (s\<lparr>cs_unreadCount := 0, cs_showScrollBtn := False,
     cs_newMessageIds := [], cs_isNearBottom := True, cs_previousMessageIDs := [],
     cs_initializedRoom := [], cs_loadingHistory := False, cs_paginationEnabled := False,
     cs_snapshot := None, cs_paginationArmed := True, cs_lastScrollTop := 0,
     cs_suppressUntil := 0, cs_lastLoadAt := 0, cs_animatedSentAts := [], cs_newMsgTimers := []\<rparr>)"

section \<open>A change of the visible messages\<close>

fun index_of :: "'a list \<Rightarrow> 'a \<Rightarrow> nat option" where
  "index_of [] x = None"
| "index_of (y # ys) x = (if y = x then Some 0 else map_option Suc (index_of ys x))"

text \<open>The \<open>filter\<close> that skips a message whose \<open>sentAt\<close> was animated before and records the others.\<close>

fun animate_new :: "decrypted_message list \<Rightarrow> jstr list \<Rightarrow> decrypted_message list \<times> jstr list" where
  "animate_new [] seen = ([], seen)"
| "animate_new (msg # msgs) seen =
     (case sent_at msg of
        Some sentAt \<Rightarrow>
          (if sentAt \<in> set seen then animate_new msgs seen
           else (let (rest, seen') = animate_new msgs (seen @ [sentAt]) in (msg # rest, seen')))
      | None \<Rightarrow> (let (rest, seen') = animate_new msgs seen in (msg # rest, seen')))"

definition incoming_plain :: "jstr \<Rightarrow> decrypted_message \<Rightarrow> bool" where
  "incoming_plain me msg =
     (dm_senderId msg \<noteq> me \<and>
      \<not> (case dm_body msg of None \<Rightarrow> False | Some b \<Rightarrow> pm_system b \<noteq> None))"

definition set_add :: "'a list \<Rightarrow> 'a list \<Rightarrow> 'a list" where
  "set_add xs ys = fold (\<lambda>y acc. if y \<in> set acc then acc else acc @ [y]) ys xs"

definition appendedEffect :: "jstr \<Rightarrow> decrypted_message list \<Rightarrow> chat_scroll \<Rightarrow> chat_scroll" where
  "appendedEffect me appended s =
     (let (toAnimate, seen) = animate_new appended (cs_animatedSentAts s);
          s1 = s\<lparr>cs_animatedSentAts := seen\<rparr>;
          ids = map dm_id toAnimate;
          s2 = (if toAnimate \<noteq> []
                then s1\<lparr>cs_newMessageIds := set_add (cs_newMessageIds s1) ids,
                        cs_newMsgTimers := cs_newMsgTimers s1 @ [ids]\<rparr>
                else s1)
      in if cs_isNearBottom s2 then scrollMessagesToBottom False None s2
         else s2\<lparr>cs_unreadCount := cs_unreadCount s2 + length (filter (incoming_plain me) appended)\<rparr>)"

text \<open>The 400 ms timer of one batch.\<close>

definition newMsgTimer :: "jstr list \<Rightarrow> chat_scroll \<Rightarrow> chat_scroll" where
  "newMsgTimer ids s = s\<lparr>cs_newMessageIds := filter (\<lambda>i. i \<notin> set ids) (cs_newMessageIds s)\<rparr>"

definition visibleChanged ::
  "jstr \<Rightarrow> jstr \<Rightarrow> jstr \<Rightarrow> decrypted_message list \<Rightarrow> chat_scroll \<Rightarrow> chat_scroll" where
  "visibleChanged activeRoomID highlighted me visible s =
     (let currentIDs = map dm_id visible
      in if currentIDs = [] then s\<lparr>cs_previousMessageIDs := []\<rparr>
         else if cs_initializedRoom s \<noteq> activeRoomID
         then (let s1 = s\<lparr>cs_initializedRoom := activeRoomID, cs_previousMessageIDs := currentIDs\<rparr>
               in if highlighted = [] then scrollMessagesToBottom False (Some activeRoomID) s1
                  else s1\<lparr>cs_paginationEnabled := True\<rparr>)
         else (let previousIDs = cs_previousMessageIDs s;
                   s1 = s\<lparr>cs_previousMessageIDs := currentIDs\<rparr>
               in if previousIDs = [] \<or> last previousIDs = [] \<or> last previousIDs = last currentIDs then s1
                  else (case index_of currentIDs (last previousIDs) of
                          None \<Rightarrow> s1
                        | Some i \<Rightarrow>
                            (let appended = drop (i + 1) visible
                             in if appended = [] then s1 else appendedEffect me appended s1))))"

section \<open>Paging history\<close>

text \<open>\<open>handleLoadMoreMessages\<close> up to its \<open>await\<close>; the flag says whether \<open>loadMoreMessages\<close> is called.\<close>

definition handleLoadMoreMessages ::
  "viewport option \<Rightarrow> bool \<Rightarrow> bool \<Rightarrow> nat \<Rightarrow> int \<Rightarrow> chat_scroll \<Rightarrow> chat_scroll \<times> bool" where
  "handleLoadMoreMessages el isLoadingMore hasMore amount now s =
     (if cs_loadingHistory s \<or> isLoadingMore \<or> \<not> hasMore then (s, False)
      else if now - cs_lastLoadAt s < 900 then (s, False)
      else (s\<lparr>cs_lastLoadAt := now,
              cs_snapshot := map_option (\<lambda>v. \<lparr>ss_height = vp_scrollHeight v, ss_top = vp_scrollTop v, ss_count = amount\<rparr>) el,
              cs_loadingHistory := True\<rparr>, True))"

text \<open>Its \<open>finally\<close>, whether the load succeeded or threw.\<close>

definition loadMoreSettled :: "chat_scroll \<Rightarrow> chat_scroll" where
  "loadMoreSettled s = (if cs_snapshot s = None then s\<lparr>cs_loadingHistory := False\<rparr> else s)"

text \<open>The layout effect after a render; the new position, when it sets one.\<close>

definition historyLayout ::
  "viewport option \<Rightarrow> bool \<Rightarrow> bool \<Rightarrow> nat \<Rightarrow> int \<Rightarrow> chat_scroll \<Rightarrow> viewport option \<times> chat_scroll" where
  "historyLayout el isLoadingMore hasMore amount now s =
     (case (cs_snapshot s, el) of
        (Some snap, Some v) \<Rightarrow>
          (if isLoadingMore then (el, s)
           else if amount \<le> ss_count snap \<and> hasMore then (el, s)
           else (let nextTop = vp_scrollHeight v - ss_height snap + ss_top snap
                 in (Some (scroll_to nextTop v),
                     s\<lparr>cs_lastScrollTop := nextTop, cs_snapshot := None, cs_loadingHistory := False,
                       cs_paginationArmed := False, cs_suppressUntil := now + 450\<rparr>)))
      | _ \<Rightarrow> (el, s))"

text \<open>\<open>onScrollPositionChange\<close>: what it records on every scroll, then its test for the top.\<close>

definition scrollNoted :: "viewport \<Rightarrow> rat \<Rightarrow> int \<Rightarrow> chat_scroll \<Rightarrow> chat_scroll" where
  "scrollNoted v y now s =
     (let atBottom = isViewportNearBottom v;
          s1 = s\<lparr>cs_isNearBottom := atBottom, cs_showScrollBtn := \<not> atBottom,
                 cs_unreadCount := (if atBottom then 0 else cs_unreadCount s), cs_lastScrollTop := y\<rparr>;
          s2 = (if cs_loadingHistory s1
                then s1\<lparr>cs_snapshot := map_option (\<lambda>snap. snap\<lparr>ss_top := y\<rparr>) (cs_snapshot s1)\<rparr> else s1)
      in if 260 < y \<and> cs_suppressUntil s2 \<le> now then s2\<lparr>cs_paginationArmed := True\<rparr> else s2)"

definition onScroll ::
  "viewport option \<Rightarrow> rat \<Rightarrow> bool \<Rightarrow> bool \<Rightarrow> nat \<Rightarrow> int \<Rightarrow> chat_scroll \<Rightarrow> chat_scroll \<times> bool" where
  "onScroll el y isLoadingMore hasMore amount now s =
     (case el of
        None \<Rightarrow> (s, False)
      | Some v \<Rightarrow>
          (let previousY = cs_lastScrollTop s;
               isScrollingUp = (y < previousY);
               crossedTopThreshold = (120 \<le> previousY \<and> y < 120);
               s' = scrollNoted v y now s
           in if cs_paginationEnabled s' \<and> y < 120 \<and> hasMore \<and> \<not> isLoadingMore \<and> \<not> cs_loadingHistory s'
                 \<and> cs_paginationArmed s' \<and> isScrollingUp \<and> crossedTopThreshold \<and> cs_suppressUntil s' \<le> now
              then handleLoadMoreMessages el isLoadingMore hasMore amount now (s'\<lparr>cs_paginationArmed := False\<rparr>)
              else (s', False)))"

section \<open>The handlers as one step function\<close>

text \<open>The clock values at which loads were started are kept beside the state.\<close>

datatype scroll_event =
    EvScroll "viewport option" rat bool bool nat int
  | EvLayout "viewport option" bool bool nat int
  | EvLoadSettled
  | EvVisible jstr "decrypted_message list"
  | EvFrame bottom_scroll "viewport option"
  | EvToBottom
  | EvNewMsgTimer "jstr list"

definition started :: "int \<Rightarrow> int list \<Rightarrow> chat_scroll \<times> bool \<Rightarrow> chat_scroll \<times> int list" where
  "started now loads r = (fst r, if snd r then loads @ [now] else loads)"

fun scroll_step :: "jstr \<Rightarrow> jstr \<Rightarrow> chat_scroll \<times> int list \<Rightarrow> scroll_event \<Rightarrow> chat_scroll \<times> int list" where
  "scroll_step room me (s, loads) (EvScroll el y isLoading hasMore amount now) =
     started now loads (onScroll el y isLoading hasMore amount now s)"
| "scroll_step room me (s, loads) (EvLayout el isLoading hasMore amount now) =
     (snd (historyLayout el isLoading hasMore amount now s), loads)"
| "scroll_step room me (s, loads) EvLoadSettled = (loadMoreSettled s, loads)"
| "scroll_step room me (s, loads) (EvVisible highlighted visible) =
     (visibleChanged room highlighted me visible s, loads)"
| "scroll_step room me (s, loads) (EvFrame timer el) = (snd (bottomFrame timer el s), loads)"
| "scroll_step room me (s, loads) EvToBottom = (handleScrollToBottom s, loads)"
| "scroll_step room me (s, loads) (EvNewMsgTimer ids) = (newMsgTimer ids s, loads)"

section \<open>Which operation touches which part\<close>

named_theorems scroll_defs \<open>definitions of the scroll handlers\<close>

lemmas [scroll_defs] = clearBottomScrollTimers_def scrollMessagesToBottom_def roomSettled_def bottomFrame_def
  handleScrollToBottom_def resetScrollState_def appendedEffect_def newMsgTimer_def visibleChanged_def
  handleLoadMoreMessages_def loadMoreSettled_def historyLayout_def scrollNoted_def onScroll_def

lemma toBottom_fields [simp]:
  "cs_lastLoadAt (scrollMessagesToBottom b r s) = cs_lastLoadAt s"
  "cs_loadingHistory (scrollMessagesToBottom b r s) = cs_loadingHistory s"
  "cs_snapshot (scrollMessagesToBottom b r s) = cs_snapshot s"
  "cs_unreadCount (scrollMessagesToBottom b r s) = cs_unreadCount s"
  "cs_isNearBottom (scrollMessagesToBottom b r s) = cs_isNearBottom s"
  "cs_initializedRoom (scrollMessagesToBottom b r s) = cs_initializedRoom s"
  "cs_previousMessageIDs (scrollMessagesToBottom b r s) = cs_previousMessageIDs s"
  by (simp_all add: scrollMessagesToBottom_def clearBottomScrollTimers_def)

lemma appendedEffect_fields [simp]:
  "cs_lastLoadAt (appendedEffect me ms s) = cs_lastLoadAt s"
  "cs_loadingHistory (appendedEffect me ms s) = cs_loadingHistory s"
  "cs_snapshot (appendedEffect me ms s) = cs_snapshot s"
  "cs_isNearBottom (appendedEffect me ms s) = cs_isNearBottom s"
  "cs_initializedRoom (appendedEffect me ms s) = cs_initializedRoom s"
  "cs_previousMessageIDs (appendedEffect me ms s) = cs_previousMessageIDs s"
  "cs_unreadCount (appendedEffect me ms s) =
     cs_unreadCount s + (if cs_isNearBottom s then 0 else length (filter (incoming_plain me) ms))"
  by (simp_all add: appendedEffect_def Let_def split: prod.split)

lemma visibleChanged_fields [simp]:
  "cs_lastLoadAt (visibleChanged room hl me ms s) = cs_lastLoadAt s"
  "cs_loadingHistory (visibleChanged room hl me ms s) = cs_loadingHistory s"
  "cs_snapshot (visibleChanged room hl me ms s) = cs_snapshot s"
  "cs_isNearBottom (visibleChanged room hl me ms s) = cs_isNearBottom s"
  by (simp_all add: visibleChanged_def Let_def split: option.split)

lemma roomSettled_fields [simp]:
  "cs_lastLoadAt (roomSettled r el s) = cs_lastLoadAt s"
  "cs_loadingHistory (roomSettled r el s) = cs_loadingHistory s"
  "cs_snapshot (roomSettled r el s) = cs_snapshot s"
  by (simp_all add: roomSettled_def Let_def)

lemma bottomFrame_fields [simp]:
  "cs_lastLoadAt (snd (bottomFrame t el s)) = cs_lastLoadAt s"
  "cs_loadingHistory (snd (bottomFrame t el s)) = cs_loadingHistory s"
  "cs_snapshot (snd (bottomFrame t el s)) = cs_snapshot s"
  by (simp_all add: bottomFrame_def Let_def split: option.split)

lemma historyLayout_lastLoad [simp]: "cs_lastLoadAt (snd (historyLayout el l h n now s)) = cs_lastLoadAt s"
  by (simp add: historyLayout_def Let_def split: option.split)

lemma scrollNoted_fields [simp]:
  "cs_lastLoadAt (scrollNoted v y now s) = cs_lastLoadAt s"
  "cs_loadingHistory (scrollNoted v y now s) = cs_loadingHistory s"
  "cs_paginationEnabled (scrollNoted v y now s) = cs_paginationEnabled s"
  "cs_suppressUntil (scrollNoted v y now s) = cs_suppressUntil s"
  by (simp_all add: scrollNoted_def Let_def)

lemma small_fields [simp]:
  "cs_lastLoadAt (loadMoreSettled s) = cs_lastLoadAt s"
  "cs_lastLoadAt (handleScrollToBottom s) = cs_lastLoadAt s"
  "cs_loadingHistory (handleScrollToBottom s) = cs_loadingHistory s"
  "cs_snapshot (handleScrollToBottom s) = cs_snapshot s"
  "cs_lastLoadAt (newMsgTimer ids s) = cs_lastLoadAt s"
  "cs_loadingHistory (newMsgTimer ids s) = cs_loadingHistory s"
  "cs_snapshot (newMsgTimer ids s) = cs_snapshot s"
  by (simp_all add: loadMoreSettled_def handleScrollToBottom_def newMsgTimer_def)

lemma paging_fields [simp]:
  "cs_paginationArmed (scrollMessagesToBottom b r s) = cs_paginationArmed s"
  "cs_suppressUntil (scrollMessagesToBottom b r s) = cs_suppressUntil s"
  "cs_paginationArmed (appendedEffect me ms s) = cs_paginationArmed s"
  "cs_suppressUntil (appendedEffect me ms s) = cs_suppressUntil s"
  "cs_paginationArmed (visibleChanged room hl me ms s) = cs_paginationArmed s"
  "cs_suppressUntil (visibleChanged room hl me ms s) = cs_suppressUntil s"
  "cs_paginationArmed (snd (bottomFrame t el s)) = cs_paginationArmed s"
  "cs_suppressUntil (snd (bottomFrame t el s)) = cs_suppressUntil s"
  by (simp_all add: scroll_defs Let_def split: option.split prod.split)

section \<open>Loads are spaced\<close>

definition spaced_inv :: "chat_scroll \<times> int list \<Rightarrow> bool" where
  "spaced_inv r \<longleftrightarrow> (successively (\<lambda>a b. a + 900 \<le> b) (snd r) \<and>
     (snd r \<noteq> [] \<longrightarrow> last (snd r) = cs_lastLoadAt (fst r)))"

lemma handleLoad_spaced:
  "spaced_inv (s, loads) \<Longrightarrow> spaced_inv (started now loads (handleLoadMoreMessages el l h n now s))"
  by (cases loads rule: rev_cases)
     (auto simp: spaced_inv_def started_def handleLoadMoreMessages_def successively_append_iff)

lemma spaced_inv_same: "spaced_inv (s, loads) \<Longrightarrow> cs_lastLoadAt t = cs_lastLoadAt s \<Longrightarrow> spaced_inv (t, loads)"
  by (simp add: spaced_inv_def)

lemma onScroll_cases:
  obtains (kept) t where "onScroll el y l h n now s = (t, False)" "cs_lastLoadAt t = cs_lastLoadAt s"
  | (load) t where "onScroll el y l h n now s = handleLoadMoreMessages el l h n now t"
      "cs_lastLoadAt t = cs_lastLoadAt s" "\<not> cs_loadingHistory s"
  by (fastforce simp: onScroll_def Let_def split: option.splits if_splits)

lemma onScroll_spaced:
  assumes "spaced_inv (s, loads)"
  shows "spaced_inv (started now loads (onScroll el y l h n now s))"
proof (cases rule: onScroll_cases[of el y l h n now s])
  case (kept t)
  with assms show ?thesis by (simp add: started_def spaced_inv_same[of s])
next
  case (load t)
  with assms show ?thesis by (simp add: handleLoad_spaced spaced_inv_same[of s])
qed

lemma scroll_step_spaced: "spaced_inv r \<Longrightarrow> spaced_inv (scroll_step room me r e)"
  by (cases r; cases e) (auto simp: onScroll_spaced, auto simp: spaced_inv_def)

interpretation spaced: step_system "scroll_step room me" spaced_inv for room me
  by unfold_locales (rule scroll_step_spaced)

text \<open>Whatever the user and the network do while a room is open, the starts of two page loads
  are at least 900 ms apart.
\<close>

theorem history_loads_are_spaced:
  "successively (\<lambda>a b. a + 900 \<le> b) (snd (foldl (scroll_step room me) (s, []) events))"
  using spaced.run_inv[of "(s, [])" room me events] by (simp add: spaced_inv_def)

section \<open>The unread counter\<close>

lemma index_of_append: "x \<notin> set xs \<Longrightarrow> index_of (xs @ x # ys) x = Some (length xs)"
  by (induction xs) auto

lemma index_of_last:
  assumes "old \<noteq> []" "distinct (hist @ old @ new)"
  shows "index_of (hist @ old @ new) (last old) = Some (length hist + length old - 1)"
proof -
  from assms(1) have o: "old = butlast old @ [last old]" by simp
  then have split_at: "hist @ old @ new = (hist @ butlast old) @ last old # new"
    by (metis append.assoc append_Cons append_Nil)
  with assms(2) have "last old \<notin> set (hist @ butlast old)" by auto
  then have "index_of (hist @ old @ new) (last old) = Some (length (hist @ butlast old))"
    unfolding split_at by (rule index_of_append)
  with assms(1) show ?thesis by (cases old) auto
qed

lemma visibleChanged_grow:
  assumes "cs_initializedRoom s = room" "cs_previousMessageIDs s = map dm_id old" "old \<noteq> []"
    and ids: "distinct (map dm_id (hist @ old @ new))" and named: "dm_id (last old) \<noteq> []"
  shows "visibleChanged room hl me (hist @ old @ new) s =
    (let s1 = s\<lparr>cs_previousMessageIDs := map dm_id (hist @ old @ new)\<rparr>
     in if new = [] then s1 else appendedEffect me new s1)"
proof -
  have last_old: "last (map dm_id old) = dm_id (last old)" using assms(3) by (simp add: last_map)
  show ?thesis
  proof (cases "new = []")
    case True
    with assms last_old show ?thesis by (simp add: visibleChanged_def Let_def last_map)
  next
    case False
    have at: "index_of (map dm_id hist @ map dm_id old @ map dm_id new) (dm_id (last old)) =
        Some (length hist + length old - 1)"
      using index_of_last[of "map dm_id old" "map dm_id hist" "map dm_id new"] ids assms(3) last_old by simp
    have "dm_id (last old) \<in> dm_id ` set old" "dm_id (last new) \<in> dm_id ` set new"
      using False assms(3) by simp_all
    moreover have "dm_id ` set old \<inter> dm_id ` set new = {}" using ids by auto
    ultimately have "dm_id (last old) \<noteq> dm_id (last new)" by (metis disjoint_iff)
    moreover have "length hist + length old - 1 + 1 = length hist + length old"
      using assms(3) by (cases old) auto
    ultimately show ?thesis
      using assms False at last_old by (simp add: visibleChanged_def Let_def last_map)
  qed
qed

lemma visibleChanged_room:
  assumes "cs_initializedRoom s = room"
  shows "cs_initializedRoom (visibleChanged room hl me ms s) = room"
  using assms by (simp add: visibleChanged_def Let_def split: option.split)

text \<open>The list grows by history above and by live messages below, in any order.\<close>

fun grown :: "decrypted_message list \<Rightarrow> (decrypted_message list \<times> decrypted_message list) list \<Rightarrow> decrypted_message list" where
  "grown old [] = old"
| "grown old ((hist, new) # gs) = grown (hist @ old @ new) gs"

fun growths ::
  "jstr \<Rightarrow> jstr \<Rightarrow> decrypted_message list \<Rightarrow> (decrypted_message list \<times> decrypted_message list) list \<Rightarrow>
   chat_scroll \<Rightarrow> chat_scroll" where
  "growths room me old [] s = s"
| "growths room me old ((hist, new) # gs) s =
     growths room me (hist @ old @ new) gs (visibleChanged room [] me (hist @ old @ new) s)"

lemma grown_contains: "\<exists>a b. grown old gs = a @ old @ b"
proof (induction gs arbitrary: old)
  case Nil
  show ?case by (intro exI[of _ "[]"]) simp
next
  case (Cons g gs)
  obtain hist new where g: "g = (hist, new)" by (cases g)
  from Cons[of "hist @ old @ new"] obtain a b where "grown (hist @ old @ new) gs = a @ (hist @ old @ new) @ b"
    by blast
  then show ?case by (intro exI[of _ "a @ hist"] exI[of _ "new @ b"]) (simp add: g)
qed

text \<open>C22. While the user is scrolled up, the counter rises by the incoming messages appended below,
  over any sequence of growths: history put in above, own messages and system notes do not count.
\<close>

theorem unread_counts_incoming:
  assumes "cs_initializedRoom s = room" "cs_previousMessageIDs s = map dm_id old" "old \<noteq> []"
    and "\<not> cs_isNearBottom s"
    and "distinct (map dm_id (grown old gs))" "[] \<notin> dm_id ` set (grown old gs)"
  shows "cs_unreadCount (growths room me old gs s) =
    cs_unreadCount s + (\<Sum>(hist, new)\<leftarrow>gs. length (filter (incoming_plain me) new))"
  using assms
proof (induction gs arbitrary: old s)
  case (Cons g gs)
  obtain hist new where g: "g = (hist, new)" by (cases g)
  let ?old = "hist @ old @ new" and ?s = "visibleChanged room [] me (hist @ old @ new) s"
  obtain a b where ab: "grown ?old gs = a @ ?old @ b" using grown_contains by blast
  with Cons.prems g have d: "distinct (map dm_id ?old)" and "[] \<notin> dm_id ` set old"
    by auto
  with Cons.prems(3) have n: "dm_id (last old) \<noteq> []" by (metis image_eqI last_in_set)
  note step = visibleChanged_grow[OF Cons.prems(1,2,3) d n, of "[]" me]
  have "cs_previousMessageIDs ?s = map dm_id ?old" unfolding step by (simp add: Let_def)
  moreover have "cs_unreadCount ?s = cs_unreadCount s + length (filter (incoming_plain me) new)"
    unfolding step using Cons.prems(4) by (simp add: Let_def)
  ultimately show ?case
    using Cons.IH[of ?s ?old] Cons.prems visibleChanged_room[of s room] by (simp add: g)
qed simp

definition scroll_msg :: "string \<Rightarrow> string \<Rightarrow> decrypted_message" where
  "scroll_msg i from = (sample_dm (js i) (js ''r'') [])\<lparr>dm_senderId := js from, dm_body := None\<rparr>"

lemma scroll_msg_sel [simp]: "dm_id (scroll_msg i from) = js i" "dm_senderId (scroll_msg i from) = js from"
    "dm_body (scroll_msg i from) = None"
  by (simp_all add: scroll_msg_def)

theorem unread_counts_incoming_witness:
  "cs_unreadCount (growths (js ''r'') (js ''me'') [scroll_msg ''m3'' ''me'']
       [([scroll_msg ''m1'' ''peer'', scroll_msg ''m2'' ''peer''], [scroll_msg ''m4'' ''peer'', scroll_msg ''m5'' ''me''])]
       (mounted\<lparr>cs_initializedRoom := js ''r'', cs_previousMessageIDs := [js ''m3''], cs_isNearBottom := False\<rparr>)) = 1"
  by (rule trans[OF unread_counts_incoming])
     (simp_all add: mounted_def incoming_plain_def js_Nil_eq)

section \<open>Paging keeps the reading position\<close>

lemma scroll_to_inside:
  "0 \<le> y \<Longrightarrow> y \<le> vp_scrollHeight v - vp_clientHeight v \<Longrightarrow> vp_scrollTop (scroll_to y v) = y"
  by (simp add: scroll_to_def)

text \<open>The layout effect leaves pagination disarmed for the time of the suppression.\<close>

definition disarmed :: "int \<Rightarrow> chat_scroll \<Rightarrow> bool" where
  "disarmed until s \<longleftrightarrow> cs_snapshot s = None \<and> \<not> cs_paginationArmed s \<and> cs_suppressUntil s = until"

text \<open>The events of a view in which the user stays near the top, or in which the suppression lasts.\<close>

fun stays_near_top :: "int \<Rightarrow> scroll_event \<Rightarrow> bool" where
  "stays_near_top until (EvScroll _ y _ _ _ now) = (y \<le> 260 \<or> now < until)"
| "stays_near_top until _ = True"

lemma disarmed_noted:
  "disarmed until s \<Longrightarrow> y \<le> 260 \<or> now < until \<Longrightarrow> disarmed until (scrollNoted v y now s)"
  by (auto simp: disarmed_def scrollNoted_def Let_def)

lemma disarmed_scroll:
  assumes "disarmed until s" "y \<le> 260 \<or> now < until"
  shows "snd (onScroll el y l h m now s) = False \<and> disarmed until (fst (onScroll el y l h m now s))"
proof (cases el)
  case (Some v)
  from disarmed_noted[OF assms, of v] have d: "disarmed until (scrollNoted v y now s)" .
  then have "\<not> cs_paginationArmed (scrollNoted v y now s)" by (simp add: disarmed_def)
  with d Some show ?thesis by (simp add: onScroll_def Let_def)
qed (use assms in \<open>simp add: onScroll_def\<close>)

lemma disarmed_step:
  assumes "disarmed until s" "stays_near_top until e"
  shows "\<exists>s'. scroll_step room me (s, loads) e = (s', loads) \<and> disarmed until s'"
proof (cases e)
  case (EvScroll el y l h m t)
  with assms disarmed_scroll[of until s y t el l h m] show ?thesis by (simp add: started_def)
qed (use assms(1) in \<open>auto simp: disarmed_def historyLayout_def loadMoreSettled_def handleScrollToBottom_def newMsgTimer_def\<close>)

lemma disarmed_run:
  "disarmed until s \<Longrightarrow> list_all (stays_near_top until) es \<Longrightarrow>
   \<exists>s'. foldl (scroll_step room me) (s, loads) es = (s', loads) \<and> disarmed until s'"
proof (induction es arbitrary: s)
  case (Cons e es)
  then obtain s' where "scroll_step room me (s, loads) e = (s', loads)" "disarmed until s'"
    using disarmed_step[of until s e room me loads] by auto
  with Cons show ?case by simp
qed simp

text \<open>C25. When the older page has arrived and made the list taller, the layout effect puts the view at
  the same distance from the bottom as it last had while the page was loading, so the messages
  read stay in place, and pagination is disarmed: whatever happens in the room, no page is asked for
  and nothing arms it again as long as every scroll stays within 260 pixels of the top or comes in
  the 450 ms after the layout, such as the one the effect causes; the first scroll
  below that line after this time arms it.\<close>

theorem paging_keeps_position:
  assumes "handleLoadMoreMessages (Some v) loading0 hasMore0 n t0 s0 = (s1, True)"
    and "0 \<le> y" "y \<le> vp_scrollHeight v - vp_clientHeight v"
    and "vp_scrollHeight v \<le> vp_scrollHeight v'" "vp_clientHeight v' = vp_clientHeight v"
    and "n < n' \<or> \<not> hasMore"
  shows "let s2 = loadMoreSettled (fst (onScroll (Some u) y loading1 hasMore1 m t1 s1));
             (el, s3) = historyLayout (Some v') False hasMore n' now s2;
             (s4, loads') = foldl (scroll_step room me) (s3, loads) es
         in (\<exists>w. el = Some w \<and> vp_scrollHeight w - vp_scrollTop w = vp_scrollHeight v - y
                 \<and> cs_lastScrollTop s3 = vp_scrollTop w)
            \<and> cs_snapshot s3 = None \<and> \<not> cs_loadingHistory s3 \<and> \<not> cs_paginationArmed s3
            \<and> (list_all (stays_near_top (now + 450)) es \<longrightarrow> loads' = loads \<and> \<not> cs_paginationArmed s4
                 \<and> (260 < y' \<and> now + 450 \<le> t' \<longrightarrow> cs_paginationArmed (fst (onScroll (Some w') y' l h k t' s4))))"
proof -
  define s2 where "s2 = loadMoreSettled (fst (onScroll (Some u) y loading1 hasMore1 m t1 s1))"
  have s1: "s1 = s0\<lparr>cs_lastLoadAt := t0, cs_loadingHistory := True,
      cs_snapshot := Some \<lparr>ss_height = vp_scrollHeight v, ss_top = vp_scrollTop v, ss_count = n\<rparr>\<rparr>"
    using assms(1) by (auto simp: handleLoadMoreMessages_def split: if_splits)
  have s2: "cs_snapshot s2 = Some \<lparr>ss_height = vp_scrollHeight v, ss_top = y, ss_count = n\<rparr>"
    by (simp add: s2_def s1 onScroll_def Let_def loadMoreSettled_def scrollNoted_def)
  define w where "w = scroll_to (vp_scrollHeight v' - vp_scrollHeight v + y) v'"
  define s3 where "s3 = s2\<lparr>cs_lastScrollTop := vp_scrollHeight v' - vp_scrollHeight v + y, cs_snapshot := None,
      cs_loadingHistory := False, cs_paginationArmed := False, cs_suppressUntil := now + 450\<rparr>"
  have "vp_scrollTop w = vp_scrollHeight v' - vp_scrollHeight v + y"
    unfolding w_def using assms by (intro scroll_to_inside) auto
  moreover have "vp_scrollHeight w = vp_scrollHeight v'" by (simp add: w_def scroll_to_def)
  moreover have "historyLayout (Some v') False hasMore n' now s2 = (Some w, s3)"
    using assms(6) s2 by (auto simp: historyLayout_def Let_def w_def s3_def)
  ultimately have l: "historyLayout (Some v') False hasMore n' now s2 = (Some w, s3)"
      "vp_scrollHeight w - vp_scrollTop w = vp_scrollHeight v - y" "cs_lastScrollTop s3 = vp_scrollTop w"
      "\<not> cs_loadingHistory s3" and d: "disarmed (now + 450) s3"
    by (simp_all add: s3_def disarmed_def)
  have armed: "cs_paginationArmed (fst (onScroll (Some w') y' l h k t' s4))"
    if "disarmed (now + 450) s4" "260 < y'" "now + 450 \<le> t'" for s4
    using that by (simp add: disarmed_def onScroll_def scrollNoted_def Let_def)
  show ?thesis
    unfolding Let_def s2_def[symmetric] l(1)
    using l d armed disarmed_run[OF d, of es room me loads] by (auto simp: disarmed_def split: prod.split)
qed

theorem paging_keeps_position_witness:
  "let v = \<lparr>vp_scrollHeight = 3000, vp_scrollTop = 100, vp_clientHeight = 600\<rparr>;
       v' = \<lparr>vp_scrollHeight = 5000, vp_scrollTop = 80, vp_clientHeight = 600\<rparr>;
       s1 = fst (handleLoadMoreMessages (Some v) False True 50 1000 mounted);
       s2 = loadMoreSettled (fst (onScroll (Some v) 80 True True 50 1100 s1));
       (el, s3) = historyLayout (Some v') False True 100 1200 s2;
       (s4, loads) = foldl (scroll_step (js ''r'') (js ''me'')) (s3, [1000])
         [EvScroll (Some v') 2080 False True 100 1210, EvToBottom, EvScroll (Some v') 90 False True 100 9000]
   in (\<exists>w. el = Some w \<and> vp_scrollHeight w - vp_scrollTop w = 3000 - 80 \<and> cs_lastScrollTop s3 = vp_scrollTop w)
      \<and> cs_snapshot s3 = None \<and> \<not> cs_loadingHistory s3 \<and> \<not> cs_paginationArmed s3
      \<and> loads = [1000] \<and> \<not> cs_paginationArmed s4
      \<and> cs_paginationArmed (fst (onScroll (Some v') 300 False True 100 9500 s4))"
proof -
  let ?v = "\<lparr>vp_scrollHeight = 3000, vp_scrollTop = 100, vp_clientHeight = 600\<rparr>"
  let ?v' = "\<lparr>vp_scrollHeight = 5000, vp_scrollTop = 80, vp_clientHeight = 600\<rparr>"
  let ?es = "[EvScroll (Some ?v') 2080 False True 100 1210, EvToBottom, EvScroll (Some ?v') 90 False True 100 9000]"
  have h: "handleLoadMoreMessages (Some ?v) False True 50 1000 mounted =
      (fst (handleLoadMoreMessages (Some ?v) False True 50 1000 mounted), True)"
    by (simp add: handleLoadMoreMessages_def mounted_def)
  have es: "list_all (stays_near_top (1200 + 450)) ?es" by simp
  show ?thesis
    using paging_keeps_position[OF h, of 80 ?v' 100 True ?v True True 50 1100 1200 "js ''r''" "js ''me''" "[1000]" ?es
        300 9500 ?v' False True 100] es
    unfolding Let_def by (simp split: prod.splits del: foldl_Cons list.pred_inject)
qed

section \<open>A page load that fails\<close>

text \<open>While the snapshot of a load is kept, no scroll starts another load.\<close>

definition stalled :: "nat \<Rightarrow> chat_scroll \<Rightarrow> bool" where
  "stalled n s \<longleftrightarrow> cs_loadingHistory s \<and> (\<exists>snap. cs_snapshot s = Some snap \<and> ss_count snap = n)"

text \<open>The events of a view whose list does not become longer and whose history is not exhausted.\<close>

fun same_list :: "nat \<Rightarrow> scroll_event \<Rightarrow> bool" where
  "same_list n (EvLayout _ _ hasMore amount _) = (hasMore \<and> amount \<le> n)"
| "same_list n _ = True"

lemma stalled_cong:
  "stalled n s \<Longrightarrow> cs_loadingHistory t = cs_loadingHistory s \<Longrightarrow> cs_snapshot t = cs_snapshot s \<Longrightarrow> stalled n t"
  by (simp add: stalled_def)

lemma stalled_scroll: "stalled n s \<Longrightarrow> stalled n (fst (onScroll el y l h m t s)) \<and> \<not> snd (onScroll el y l h m t s)"
  by (cases el) (auto simp: stalled_def onScroll_def scrollNoted_def Let_def)

lemma stalled_step:
  assumes "stalled n s" "same_list n e"
  shows "\<exists>s'. scroll_step room me (s, loads) e = (s', loads) \<and> stalled n s'"
proof (cases e)
  case (EvScroll el y l h m t)
  with assms stalled_scroll[of n s el y l h m t] show ?thesis by (simp add: started_def)
next
  case (EvLayout el l h m t)
  with assms show ?thesis by (auto simp: stalled_def historyLayout_def split: option.split)
next
  case EvLoadSettled
  with assms show ?thesis by (auto simp: stalled_def loadMoreSettled_def)
qed (use assms(1) in \<open>auto intro: stalled_cong\<close>)

lemma stalled_run:
  "stalled n s \<Longrightarrow> \<forall>e\<in>set events. same_list n e \<Longrightarrow>
   snd (foldl (scroll_step room me) (s, loads) events) = loads"
proof (induction events arbitrary: s)
  case (Cons e es)
  from stalled_step[of n s e room me loads] Cons.prems
  obtain s' where "scroll_step room me (s, loads) e = (s', loads)" "stalled n s'" by auto
  with Cons show ?case by simp
qed simp

text \<open>A page load that fails leaves the list as long as it was, and \<open>finally\<close> clears
  \<open>loadingHistoryRef\<close> only when there is no snapshot: until the list grows, no scrolling starts
  another load, however long the user tries.
\<close>

theorem failed_load_stops_paging:
  assumes "handleLoadMoreMessages (Some v) l h n t s = (s1, True)"
    and "\<forall>e\<in>set events. same_list n e"
  shows "snd (foldl (scroll_step room me) (loadMoreSettled s1, [t]) events) = [t]"
proof (rule stalled_run[OF _ assms(2)])
  from assms(1) show "stalled n (loadMoreSettled s1)"
    by (auto simp: handleLoadMoreMessages_def stalled_def loadMoreSettled_def split: if_splits)
qed

theorem failed_load_stops_paging_witness:
  "let v = \<lparr>vp_scrollHeight = 3000, vp_scrollTop = 100, vp_clientHeight = 600\<rparr>;
       s1 = fst (handleLoadMoreMessages (Some v) False True 50 1000 mounted)
   in snd (foldl (scroll_step (js ''r'') (js ''me'')) (loadMoreSettled s1, [1000])
        [EvLayout (Some v) False True 50 1100, EvScroll (Some v) 400 False True 50 60000,
         EvScroll (Some v) 90 False True 50 60100]) = [1000]"
proof -
  let ?v = "\<lparr>vp_scrollHeight = 3000, vp_scrollTop = 100, vp_clientHeight = 600\<rparr>"
  have h: "handleLoadMoreMessages (Some ?v) False True 50 1000 mounted =
      (fst (handleLoadMoreMessages (Some ?v) False True 50 1000 mounted), True)"
    by (simp add: handleLoadMoreMessages_def mounted_def)
  show ?thesis unfolding Let_def by (rule failed_load_stops_paging[OF h]) simp
qed

section \<open>Opening a room\<close>

text \<open>The first messages of a room opened without a target arm six scrolls; the last one leaves
  the view at the bottom with pagination enabled, unless the room was left in the meantime, when
  it changes nothing of the view's state.
\<close>

theorem room_opens_at_bottom:
  assumes "cs_initializedRoom s \<noteq> room" "visible \<noteq> []" "0 \<le> vp_clientHeight v"
  shows "let s1 = visibleChanged room [] me visible s; timers = cs_bottomScrollTimers s1;
             (el, s2) = bottomFrame (last timers) (Some v) s1
         in map bs_delay timers = [0, 16, 50, 120, 250, 500] \<and>
            (\<exists>w. el = Some w \<and> isViewportNearBottom w) \<and>
            cs_isNearBottom s2 \<and> \<not> cs_showScrollBtn s2 \<and> cs_paginationEnabled s2 \<and>
            (\<forall>other. cs_initializedRoom other \<noteq> room \<longrightarrow> snd (bottomFrame (last timers) (Some v) other) = other)"
proof -
  have near: "isViewportNearBottom (scroll_to (vp_scrollHeight v) v)"
    using assms(3) by (simp add: isViewportNearBottom_def scroll_to_def max_def min_def)
  show ?thesis
    using assms near
    by (simp add: visibleChanged_def Let_def scrollMessagesToBottom_def bottom_delays_def bottomFrame_def
        roomSettled_def clearBottomScrollTimers_def)
qed

theorem room_opens_at_bottom_witness:
  "let v = \<lparr>vp_scrollHeight = 3000, vp_scrollTop = 0, vp_clientHeight = 600\<rparr>;
       s1 = visibleChanged (js ''r'') [] (js ''me'') [scroll_msg ''m1'' ''peer''] mounted; timers = cs_bottomScrollTimers s1;
       (el, s2) = bottomFrame (last timers) (Some v) s1
   in map bs_delay timers = [0, 16, 50, 120, 250, 500] \<and>
      (\<exists>w. el = Some w \<and> isViewportNearBottom w) \<and>
      cs_isNearBottom s2 \<and> \<not> cs_showScrollBtn s2 \<and> cs_paginationEnabled s2 \<and>
      (\<forall>other. cs_initializedRoom other \<noteq> js ''r'' \<longrightarrow> snd (bottomFrame (last timers) (Some v) other) = other)"
  using room_opens_at_bottom[of mounted "js ''r''" "[scroll_msg ''m1'' ''peer'']"
      "\<lparr>vp_scrollHeight = 3000, vp_scrollTop = 0, vp_clientHeight = 600\<rparr>" "js ''me''"]
  by (simp add: mounted_def js_Nil_eq Let_def)

end
