(* ===== verification/ChatPaging.thy ===== *)
theory ChatPaging
  imports MessageState ChatScroll
begin

text \<open>
  The messages hook and the message list together: \<open>components/MessengerApp.tsx\<close> hands the hook's
  \<open>hasMoreMessages\<close>, \<open>isLoadingMoreMessages\<close>, \<open>visibleMessages\<close> and \<open>loadMoreMessages\<close> to the view.
  What the view's layout effect sees after a page arrived, or failed to, is computed from the
  hook's state; the view's own state is that of \<open>ChatScroll\<close>.
\<close>

section \<open>What the hook hands to the view\<close>

definition hasMoreShown :: "msg_state \<Rightarrow> bool" where
  "hasMoreShown st = (if ms_inContext st then ms_contextMore st else ms_hasMore st)"

definition visibleShown ::
  "(jstr \<Rightarrow> int option) \<Rightarrow> (jstr \<Rightarrow> jstr) \<Rightarrow> jstr \<Rightarrow> msg_env \<Rightarrow> msg_state \<Rightarrow> decrypted_message list" where
  "visibleShown dp lower messageSearch env st =
     visibleMessages lower messageSearch
       (displayMessages dp (map_option iy_userId (ev_identity env)) (ev_room env) (ms_deleted st) (ms_pending st) (ms_decrypted st))"

text \<open>The layout effect after a render that shows \<open>st\<close>.\<close>

definition layoutOf ::
  "(jstr \<Rightarrow> int option) \<Rightarrow> (jstr \<Rightarrow> jstr) \<Rightarrow> jstr \<Rightarrow> msg_env \<Rightarrow> msg_state \<Rightarrow> viewport \<Rightarrow> int \<Rightarrow> chat_scroll \<Rightarrow>
   viewport option \<times> chat_scroll" where
  "layoutOf dp lower messageSearch env st v now s =
     historyLayout (Some v) (ms_loading st) (hasMoreShown st) (length (visibleShown dp lower messageSearch env st)) now s"

section \<open>A page changes what is decrypted only later\<close>

lemma loadMoreStart_state:
  "loadMoreStart dp env st = Some (st', kind, call) \<Longrightarrow>
   st' = st\<lparr>ms_loading := True\<rparr> \<and> hasMoreShown st \<and> kind = (if ms_inContext st then ContextPage else OlderPage)"
  by (auto simp: loadMoreStart_def hasMoreShown_def Let_def split: list.splits if_splits)

lemma page_keeps_visible [simp]:
  "visibleShown dp lower q env (fst (loadMoreDone dp kind res (st\<lparr>ms_loading := True\<rparr>))) = visibleShown dp lower q env st"
  by (auto simp: visibleShown_def loadMoreDone_def split: sum.splits page_kind.splits)

lemma page_error_state:
  "fst (loadMoreDone dp kind (Inl err) (st\<lparr>ms_loading := True\<rparr>)) = st\<lparr>ms_loading := False\<rparr>"
  by (simp add: loadMoreDone_def)

lemma start_after_error:
  "loadMoreStart dp env st = Some r \<Longrightarrow> loadMoreStart dp env (st\<lparr>ms_loading := False\<rparr>) = Some r"
  by (auto simp: loadMoreStart_def Let_def ev_paged_def split: list.splits if_splits)

lemma handleLoad_snapshot:
  "handleLoadMoreMessages (Some v) l h n t s = (s1, True) \<Longrightarrow>
   cs_loadingHistory s1 \<and> cs_snapshot s1 = Some \<lparr>ss_height = vp_scrollHeight v, ss_top = vp_scrollTop v, ss_count = n\<rparr>"
  by (auto simp: handleLoadMoreMessages_def split: if_splits)

section \<open>A page that fails\<close>

text \<open>C24. After a page of history failed the hook is as it was: it shows the same messages, says that
  there are more, and would ask for the same page again.  But the view never asks: it keeps its
  snapshot and its lock through the render that follows, and no scrolling, jump or new timer
  starts another load until a render shows more messages.
\<close>

theorem failed_page_blocks_view:
  assumes "loadMoreStart dp env st = Some (st1, kind, call)"
    and "n = length (visibleShown dp lower q env st)"
    and "handleLoadMoreMessages (Some v) (ms_loading st) (hasMoreShown st) n t s = (s1, True)"
    and "\<forall>e\<in>set events. same_list n e"
  shows "let st2 = fst (loadMoreDone dp kind (Inl err) st1);
             s2 = snd (layoutOf dp lower q env st2 v' now (loadMoreSettled s1))
         in loadMoreStart dp env st2 = Some (st1, kind, call)
            \<and> snd (foldl (scroll_step (ev_room env) me) (s2, [t]) events) = [t]"
proof -
  note st1 = loadMoreStart_state[OF assms(1)]
  then have st2: "fst (loadMoreDone dp kind (Inl err) st1) = st\<lparr>ms_loading := False\<rparr>"
    by (simp add: page_error_state)
  have shown: "visibleShown dp lower q env (st\<lparr>ms_loading := False\<rparr>) = visibleShown dp lower q env st"
      "hasMoreShown (st\<lparr>ms_loading := False\<rparr>) = hasMoreShown st"
    by (simp_all add: visibleShown_def hasMoreShown_def)
  have "stalled n (loadMoreSettled s1)"
    using handleLoad_snapshot[OF assms(3)] by (auto simp: stalled_def loadMoreSettled_def)
  then have "stalled n (snd (layoutOf dp lower q env (st\<lparr>ms_loading := False\<rparr>) v' now (loadMoreSettled s1)))"
    using st1 assms(2) by (auto simp: layoutOf_def shown stalled_def historyLayout_def)
  with assms(4) start_after_error[OF assms(1)] show ?thesis
    by (simp add: st2 stalled_run)
qed

definition paging_view :: viewport where
  "paging_view = \<lparr>vp_scrollHeight = 3000, vp_scrollTop = 100, vp_clientHeight = 600\<rparr>"

definition paging_env :: msg_env where
  "paging_env = sample_env (js ''r'') (Some ([sample_em (js ''a'') (js ''r'') (js ''22'')], True))"

lemma paging_visible [simp]: "visibleShown sample_dp (\<lambda>s. s) [] paging_env (initial_state\<lparr>ms_hasMore := True\<rparr>) = []"
  by (simp add: visibleShown_def visibleMessages_def displayMessages_def initial_state_def Let_def jm_values_def
      js_sort_def js_trim_def)

lemma paging_load:
  "handleLoadMoreMessages (Some paging_view) (ms_loading (initial_state\<lparr>ms_hasMore := True\<rparr>))
     (hasMoreShown (initial_state\<lparr>ms_hasMore := True\<rparr>)) 0 1000 mounted
   = (fst (handleLoadMoreMessages (Some paging_view) False True 0 1000 mounted), True)"
  by (simp add: handleLoadMoreMessages_def mounted_def hasMoreShown_def initial_state_def)

theorem failed_page_blocks_view_witness:
  "let st2 = fst (loadMoreDone sample_dp OlderPage (Inl TypeError) (initial_state\<lparr>ms_hasMore := True, ms_loading := True\<rparr>));
       s2 = snd (layoutOf sample_dp (\<lambda>s. s) [] paging_env st2 paging_view 1100
              (loadMoreSettled (fst (handleLoadMoreMessages (Some paging_view) False True 0 1000 mounted))))
   in loadMoreStart sample_dp paging_env st2 = Some (initial_state\<lparr>ms_hasMore := True, ms_loading := True\<rparr>, OlderPage,
        CallFetchMessages (js ''r'') (js ''tok'') (Some (js ''22'')))
      \<and> snd (foldl (scroll_step (ev_room paging_env) (js ''me'')) (s2, [1000])
          [EvScroll (Some paging_view) 400 False True 0 60000, EvScroll (Some paging_view) 90 False True 0 60100]) = [1000]"
  by (rule failed_page_blocks_view[OF sample_start[folded paging_env_def] _ paging_load]) simp_all

section \<open>The last page\<close>

text \<open>The last page of history moves the reader.  Its answer says that there is no more at once, while
  its messages are shown only when they are decrypted: the layout effect of the render in between
  takes the list for complete, keeps the position, which has not changed yet, and drops the
  snapshot; when the messages then appear above, the effect does nothing.
\<close>

theorem last_page_moves_reader:
  assumes "loadMoreStart dp env st = Some (st1, kind, call)"
    and "n = length (visibleShown dp lower q env st)"
    and "handleLoadMoreMessages (Some v) (ms_loading st) (hasMoreShown st) n t s = (s1, True)"
    and "0 \<le> vp_scrollTop v" "vp_scrollTop v \<le> vp_scrollHeight v - vp_clientHeight v"
  shows "let st2 = fst (loadMoreDone dp kind (Inr (page, False)) st1);
             (el, s2) = layoutOf dp lower q env st2 v now (loadMoreSettled s1)
         in length (visibleShown dp lower q env st2) = n \<and> el = Some v
            \<and> layoutOf dp lower' q' env' st3 v' now' s2 = (Some v', s2)"
proof -
  note st1 = loadMoreStart_state[OF assms(1)]
  let ?st2 = "fst (loadMoreDone dp kind (Inr (page, False)) (st\<lparr>ms_loading := True\<rparr>))"
  have st2: "ms_loading ?st2 = False" "hasMoreShown ?st2 = False"
    using st1 by (auto simp: loadMoreDone_def hasMoreShown_def)
  have "scroll_to (vp_scrollTop v) v = v"
    using assms(4,5) by (simp add: scroll_to_def)
  then show ?thesis
    using handleLoad_snapshot[OF assms(3)] assms(2)
    by (simp add: st1[THEN conjunct1] layoutOf_def historyLayout_def st2 loadMoreSettled_def Let_def)
qed

theorem last_page_moves_reader_witness:
  "let st2 = fst (loadMoreDone sample_dp OlderPage (Inr ([sample_em (js ''b'') (js ''r'') (js ''1'')], False))
         (initial_state\<lparr>ms_hasMore := True, ms_loading := True\<rparr>));
       (el, s2) = layoutOf sample_dp (\<lambda>s. s) [] paging_env st2 paging_view 1100
              (loadMoreSettled (fst (handleLoadMoreMessages (Some paging_view) False True 0 1000 mounted)))
   in length (visibleShown sample_dp (\<lambda>s. s) [] paging_env st2) = 0 \<and> el = Some paging_view
      \<and> layoutOf sample_dp (\<lambda>s. s) [] paging_env
          (initial_state\<lparr>ms_decrypted := [sample_dm (js ''b'') (js ''r'') (js ''1'')]\<rparr>)
          (paging_view\<lparr>vp_scrollHeight := 5000\<rparr>) 1200 s2 = (Some (paging_view\<lparr>vp_scrollHeight := 5000\<rparr>), s2)"
  by (rule last_page_moves_reader[OF sample_start[folded paging_env_def] _ paging_load])
     (simp_all add: paging_view_def)

end
