(* ===== verification/Audio.thy ===== *)
theory Audio
  imports Complex_Main Encoding
begin

text \<open>
  The audio path of a call in \<open>components/MessengerApp.tsx\<close>: \<open>startAudioStreaming\<close> turns a
  block of samples into 16-bit PCM behind a four-byte sample-rate header and into base64;
  \<open>appendRemoteAudioChunk\<close> reads it back, fades its ends and schedules it.  Samples and times
  are rationals: the scaling by 32768 is exact in binary floating point, the rounding of the
  fade factors is not modelled.  The byte order of \<open>Int16Array\<close> is little-endian, as on every
  platform a browser runs on.
\<close>

section \<open>Encoding a block\<close>

text \<open>\<open>Math.max(-32768, Math.min(32767, Math.round(x * 32768)))\<close>; \<open>Math.round\<close> rounds halves up.\<close>

definition sample16 :: "rat \<Rightarrow> int" where
  "sample16 x = max (- 32768) (min 32767 \<lfloor>x * 32768 + 1 / 2\<rfloor>)"

definition le16 :: "int \<Rightarrow> byte list" where
  "le16 i = [of_int i, of_int (i div 256)]"

definition le32 :: "nat \<Rightarrow> byte list" where
  "le32 n = [of_nat n, of_nat (n div 256), of_nat (n div 65536), of_nat (n div 16777216)]"

definition pcm_bytes :: "nat \<Rightarrow> rat list \<Rightarrow> byte list" where
  "pcm_bytes sampleRate input = le32 sampleRate @ concat (map (\<lambda>x. le16 (sample16 x)) input)"

text \<open>The loop that builds the binary string in steps of 8192 bytes.\<close>

function binary_from :: "nat \<Rightarrow> byte list \<Rightarrow> jstr" where
  "binary_from i full =
     (if i < length full then from_char_codes (take 8192 (drop i full)) @ binary_from (i + 8192) full else [])"
  by auto
termination
  by (relation "measure (\<lambda>(i, full). length full - i)") auto

declare binary_from.simps [simp del]

definition audioChunk :: "nat \<Rightarrow> rat list \<Rightarrow> jstr result" where
  "audioChunk sampleRate input = btoa (binary_from 0 (pcm_bytes sampleRate input))"

section \<open>Decoding a chunk\<close>

definition read32 :: "byte list \<Rightarrow> nat" where
  "read32 bs = unat (bs ! 0) + 256 * unat (bs ! 1) + 65536 * unat (bs ! 2) + 16777216 * unat (bs ! 3)"

definition read16 :: "byte \<Rightarrow> byte \<Rightarrow> int" where
  "read16 a b = (let n = int (unat a + 256 * unat b) in if n < 32768 then n else n - 65536)"

text \<open>\<open>new Int16Array(buffer, 4)\<close> raises when the rest has an odd length.\<close>

fun read_samples :: "byte list \<Rightarrow> int list option" where
  "read_samples [] = Some []"
| "read_samples [a] = None"
| "read_samples (a # b # r) = map_option (\<lambda>xs. read16 a b # xs) (read_samples r)"

definition fade_len :: "nat \<Rightarrow> nat" where
  "fade_len n = min 64 (n div 8)"

definition fade_step :: "nat \<Rightarrow> nat \<Rightarrow> rat list \<Rightarrow> rat list" where
  "fade_step k i xs =
     (let ys = xs[i := xs ! i * (of_nat i / of_nat k)];
          j = length ys - 1 - i
      in ys[j := ys ! j * (of_nat i / of_nat k)])"

definition fade :: "rat list \<Rightarrow> rat list" where
  "fade xs = fold (fade_step (fade_len (length xs))) [0..<fade_len (length xs)] xs"

text \<open>The sample rate and the samples of a chunk; None when it is ignored.\<close>

definition decodeChunk :: "jstr \<Rightarrow> (nat \<times> rat list) option" where
  "decodeChunk base64 =
     (case atob base64 of
        Inl _ \<Rightarrow> None
      | Inr binary \<Rightarrow>
          (let bytes = char_codes binary
           in if length bytes < 5 then None
              else map_option (\<lambda>is. (read32 bytes, fade (map (\<lambda>i. of_int i / 32768) is)))
                     (read_samples (drop 4 bytes))))"

section \<open>Scheduling\<close>

record epoch =
  ep_startTime :: rat
  ep_chunkDuration :: rat
  ep_senderRate :: nat

definition anchor :: "rat \<Rightarrow> nat \<Rightarrow> rat \<Rightarrow> rat" where
  "anchor now sq d = now + 1 / 4 - of_nat sq * d"

text \<open>The epoch after the chunk and the time its source starts.\<close>

definition scheduleChunk :: "rat \<Rightarrow> nat \<Rightarrow> rat \<Rightarrow> nat \<Rightarrow> epoch option \<Rightarrow> epoch \<times> rat" where
  "scheduleChunk now senderRate duration safeSeq current =
     (let epoch = (case current of
            Some e \<Rightarrow> if ep_senderRate e \<noteq> senderRate
              then \<lparr>ep_startTime = anchor now safeSeq duration, ep_chunkDuration = duration, ep_senderRate = senderRate\<rparr>
              else e
          | None \<Rightarrow> \<lparr>ep_startTime = anchor now safeSeq duration, ep_chunkDuration = duration, ep_senderRate = senderRate\<rparr>);
          scheduleTime = ep_startTime epoch + of_nat safeSeq * ep_chunkDuration epoch
      in if scheduleTime < now - 1 / 2
         then (let epoch' = epoch\<lparr>ep_startTime := anchor now safeSeq (ep_chunkDuration epoch)\<rparr>;
                   scheduleTime' = ep_startTime epoch' + of_nat safeSeq * ep_chunkDuration epoch'
               in (epoch', max scheduleTime' now))
         else (epoch, max scheduleTime now))"

section \<open>The chunked loop and the byte layout\<close>

lemma binary_from_drop: "binary_from i full = from_char_codes (drop i full)"
proof (induction i full rule: binary_from.induct)
  case (1 i full)
  show ?case
  proof (cases "i < length full")
    case True
    have "drop i full = take 8192 (drop i full) @ drop (i + 8192) full"
      by (metis append_take_drop_id drop_drop add.commute)
    with 1 True show ?thesis
      by (subst binary_from.simps) (simp add: from_char_codes_def flip: map_append)
  next
    case False
    then show ?thesis by (subst binary_from.simps) (simp add: from_char_codes_def)
  qed
qed

lemma unat_of_int_byte: "unat (of_int i :: byte) = nat (i mod 256)"
  by (simp add: unsigned_of_int take_bit_eq_mod flip: nat_uint_eq) 

lemma read16_le16:
  assumes "- 32768 \<le> i" "i \<le> 32767"
  shows "read16 (of_int i) (of_int (i div 256)) = i"
proof -
  have "int (unat (of_int i :: byte) + 256 * unat (of_int (i div 256) :: byte)) = i mod 256 + 256 * (i div 256 mod 256)"
    by (simp add: unat_of_int_byte)
  also have "\<dots> = i mod 65536"
    using mod_mult2_eq'[of i 256 256] by simp
  also have "\<dots> = (if 0 \<le> i then i else i + 65536)"
    using assms mod_pos_pos_trivial[of i 65536] mod_pos_pos_trivial[of "i + 65536" 65536] by auto
  finally show ?thesis
    using assms by (auto simp: read16_def Let_def)
qed

lemma sample16_range: "- 32768 \<le> sample16 x \<and> sample16 x \<le> 32767"
  by (auto simp: sample16_def)

lemma read_samples_le16: "\<forall>i\<in>set is. - 32768 \<le> i \<and> i \<le> 32767 \<Longrightarrow> read_samples (concat (map le16 is)) = Some is"
  by (induction "is") (auto simp: le16_def read16_le16)

lemma unat_nat_byte: "unat (of_nat n :: byte) = n mod 256"
  by (simp add: unat_of_nat)

lemma read32_le32: "n < 2 ^ 32 \<Longrightarrow> read32 (le32 n @ r) = n"
proof -
  assume n: "n < 2 ^ 32"
  have "read32 (le32 n @ r) = n mod 256 + 256 * (n div 256 mod 256) + 65536 * (n div 65536 mod 256)
      + 16777216 * (n div 16777216 mod 256)"
    by (simp add: read32_def le32_def unat_nat_byte)
  also have "n div 16777216 mod 256 = n div 16777216" using n by (simp add: less_mult_imp_div_less)
  also have "n mod 256 + 256 * (n div 256 mod 256) = n mod 65536"
    using mod_mult2_eq[of n 256 256] by simp
  also have "n mod 65536 + 65536 * (n div 65536 mod 256) = n mod 16777216"
    using mod_mult2_eq[of n 65536 256] by simp
  finally show ?thesis by simp
qed

lemma fade_step_length [simp]: "length (fade_step k i xs) = length xs"
  by (simp add: fade_step_def Let_def)

lemma fade_fold_length: "length (fold (fade_step k) is xs) = length xs"
  by (induction "is" arbitrary: xs) auto

lemma fade_length [simp]: "length (fade xs) = length xs"
  by (simp add: fade_def fade_fold_length)

lemma fade_step_shrinks:
  assumes "i \<le> k" "n < length xs"
  shows "\<bar>fade_step k i xs ! n\<bar> \<le> \<bar>xs ! n\<bar>"
proof -
  define q where "q = (of_nat i / of_nat k :: rat)"
  have "\<bar>q\<bar> \<le> 1" using assms(1) by (cases "k = 0") (auto simp: q_def divide_le_eq)
  have f: "\<bar>x * q\<bar> \<le> \<bar>x\<bar>" for x :: rat
  proof -
    have "\<bar>x\<bar> * \<bar>q\<bar> \<le> \<bar>x\<bar> * 1" using \<open>\<bar>q\<bar> \<le> 1\<close> by (intro mult_left_mono) auto
    then show ?thesis by (simp only: abs_mult mult_1_right)
  qed
  have g: "\<bar>ys[j := ys ! j * q] ! n\<bar> \<le> \<bar>ys ! n\<bar>" for ys :: "rat list" and j
  proof (cases "j = n \<and> j < length ys")
    case True
    then show ?thesis by (simp add: f)
  next
    case False
    then have "ys[j := ys ! j * q] ! n = ys ! n" by (cases "j < length ys") (auto simp: list_update_beyond)
    then show ?thesis by simp
  qed
  show ?thesis
    unfolding fade_step_def Let_def q_def[symmetric] by (rule order_trans[OF g g])
qed

lemma fade_step_keeps: "i < n \<Longrightarrow> n < length xs - 1 - i \<Longrightarrow> fade_step k i xs ! n = xs ! n"
  by (auto simp: fade_step_def Let_def)

lemma fade_shrinks: "n < length xs \<Longrightarrow> \<bar>fade xs ! n\<bar> \<le> \<bar>xs ! n\<bar>"
proof -
  have "\<forall>i\<in>set is. i \<le> k \<Longrightarrow> n < length ys \<Longrightarrow> \<bar>fold (fade_step k) is ys ! n\<bar> \<le> \<bar>ys ! n\<bar>" for "is" k ys
  proof (induction "is" arbitrary: ys)
    case (Cons i "is")
    have "\<bar>fold (fade_step k) is (fade_step k i ys) ! n\<bar> \<le> \<bar>fade_step k i ys ! n\<bar>"
      using Cons by simp
    also have "\<dots> \<le> \<bar>ys ! n\<bar>" using Cons.prems by (intro fade_step_shrinks) auto
    finally show ?case by simp
  qed simp
  from this[of "[0..<fade_len (length xs)]" "fade_len (length xs)" xs] show "n < length xs \<Longrightarrow> ?thesis"
    by (auto simp: fade_def)
qed

lemma fade_keeps:
  assumes "fade_len (length xs) \<le> n" "n < length xs - fade_len (length xs)"
  shows "fade xs ! n = xs ! n"
proof -
  have "\<forall>i\<in>set is. i < n \<and> n < length ys - 1 - i \<Longrightarrow> fold (fade_step k) is ys ! n = ys ! n" for "is" k ys
    by (induction "is" arbitrary: ys) (auto simp: fade_step_keeps)
  moreover have "\<forall>i\<in>set [0..<fade_len (length xs)]. i < n \<and> n < length xs - 1 - i"
    using assms by auto
  ultimately show ?thesis by (simp add: fade_def)
qed

section \<open>Properties\<close>

lemma audioChunk_ok: "\<exists>t. audioChunk r xs = Inr t \<and> atob t = Inr (from_char_codes (pcm_bytes r xs))"
proof -
  define bs where "bs = pcm_bytes r xs"
  have "audioChunk r xs = Inr (b64_body bs @ replicate (b64_pad (length bs)) 61)"
    by (simp add: audioChunk_def binary_from_drop btoa_bytes bs_def)
  moreover have "atob (b64_body bs @ replicate (b64_pad (length bs)) 61) = Inr (from_char_codes bs)"
    using body_pad_length[of bs] b64_pad_le by (simp add: atob_body)
  ultimately show ?thesis by (simp add: bs_def)
qed

text \<open>A block of samples reaches the other side: the chunk decodes to the sender's sample rate and
  to the 16-bit values of the samples, in order and in number, faded at the ends.\<close>

theorem audio_roundtrip:
  assumes "rate < 2 ^ 32" "input \<noteq> []"
  shows "\<exists>chunk. audioChunk rate input = Inr chunk \<and>
    decodeChunk chunk = Some (rate, fade (map (\<lambda>x. of_int (sample16 x) / 32768) input))"
proof -
  obtain t where t: "audioChunk rate input = Inr t" "atob t = Inr (from_char_codes (pcm_bytes rate input))"
    using audioChunk_ok by blast
  have p: "pcm_bytes rate input = le32 rate @ concat (map le16 (map sample16 input))"
    by (simp add: pcm_bytes_def comp_def)
  have l4: "length (le32 rate) = 4" by (simp add: le32_def)
  have "length (concat (map le16 (map sample16 input))) \<noteq> 0"
    using assms(2) by (cases input) (auto simp: le16_def)
  then have len: "\<not> length (pcm_bytes rate input) < 5" using l4 p by (simp del: length_concat)
  have "read_samples (drop 4 (pcm_bytes rate input)) = Some (map sample16 input)"
    using l4 read_samples_le16[of "map sample16 input"] sample16_range by (simp add: p)
  moreover have "read32 (pcm_bytes rate input) = rate"
    using read32_le32[OF assms(1)] by (simp add: p)
  ultimately show ?thesis
    using t len by (simp add: decodeChunk_def Let_def comp_def)
qed

theorem audio_roundtrip_witness:
  "\<exists>chunk. audioChunk 48000 [1 / 2, -1] = Inr chunk \<and>
    decodeChunk chunk = Some (48000, fade (map (\<lambda>x. of_int (sample16 x) / 32768) [1 / 2, -1]))"
  by (rule audio_roundtrip) simp_all

text \<open>Quantisation: a sample in range is off by at most half a step, a louder one is clipped to the
  nearest end, and the value always fits 16 bits.\<close>

theorem quantisation_error:
  "- 32768 \<le> sample16 x \<and> sample16 x \<le> 32767
   \<and> (- 1 \<le> x \<and> x \<le> 32767 / 32768 \<longrightarrow> \<bar>of_int (sample16 x) / 32768 - x\<bar> \<le> 1 / 65536)
   \<and> (x < - 1 \<longrightarrow> sample16 x = - 32768) \<and> (1 \<le> x \<longrightarrow> sample16 x = 32767)"
proof (intro conjI impI)
  assume x: "- 1 \<le> x \<and> x \<le> 32767 / 32768"
  define m where "m = \<lfloor>x * 32768 + 1 / 2\<rfloor>"
  have m: "of_int m \<le> x * 32768 + 1 / 2" "x * 32768 + 1 / 2 < of_int m + 1"
    unfolding m_def by linarith+
  have "- 32768 \<le> m" using x by (simp add: m_def le_floor_iff)
  moreover have "m \<le> 32767" using x by (simp add: m_def floor_le_iff)
  ultimately have "sample16 x = m" by (simp add: sample16_def m_def[symmetric])
  moreover have "\<bar>of_int m - x * 32768\<bar> \<le> 1 / 2" by (intro abs_leI) (use m in linarith)+
  then have "\<bar>of_int m - x * 32768\<bar> / 32768 \<le> (1 / 2) / 32768"
    by (rule divide_right_mono) simp
  then have "\<bar>(of_int m - x * 32768) / 32768\<bar> \<le> (1 / 2) / 32768"
    by (simp only: abs_divide abs_numeral)
  ultimately show "\<bar>of_int (sample16 x) / 32768 - x\<bar> \<le> 1 / 65536"
    by (simp add: diff_divide_distrib)
next
  assume "x < - 1"
  then have "\<lfloor>x * 32768 + 1 / 2\<rfloor> \<le> - 32768" by (simp add: floor_le_iff)
  then show "sample16 x = - 32768" by (simp add: sample16_def)
next
  assume "1 \<le> x"
  then have "32767 \<le> \<lfloor>x * 32768 + 1 / 2\<rfloor>" by (simp add: le_floor_iff)
  then show "sample16 x = 32767" by (simp add: sample16_def)
qed (use sample16_range in auto)

theorem quantisation_error_witness: "\<bar>of_int (sample16 (1 / 3)) / 32768 - 1 / 3\<bar> \<le> (1 / 65536 :: rat)"
  using quantisation_error[of "1 / 3"] by simp

text \<open>The fade never amplifies a sample and leaves all but the first and last 64 (an eighth of a
  short block) untouched.\<close>

theorem fade_only_softens_ends:
  "length (fade xs) = length xs \<and> (\<forall>n<length xs. \<bar>fade xs ! n\<bar> \<le> \<bar>xs ! n\<bar>)
   \<and> (\<forall>n. fade_len (length xs) \<le> n \<and> n < length xs - fade_len (length xs) \<longrightarrow> fade xs ! n = xs ! n)"
  using fade_shrinks fade_keeps by auto

theorem fade_only_softens_ends_witness: "fade [1, 1, 1, 1, 1, 1, 1, 1, 1] ! 4 = (1 :: rat)"
  using fade_only_softens_ends[of "[1, 1, 1, 1, 1, 1, 1, 1, 1 :: rat]"] by (simp add: fade_len_def)

text \<open>Scheduling: no chunk is started in the past; a chunk more than half a second late moves the
  epoch so that it plays a quarter second from now; chunks of one epoch that are on time follow
  each other without gap or overlap.\<close>

theorem audio_schedule:
  assumes "scheduleChunk now rate d sq cur = (e, t)"
  shows "now \<le> t \<and> ep_senderRate e = rate
    \<and> now - 1 / 2 \<le> ep_startTime e + of_nat sq * ep_chunkDuration e
    \<and> (cur = None \<longrightarrow> t = now + 1 / 4)
    \<and> (now' \<le> ep_startTime e + of_nat (Suc sq) * ep_chunkDuration e \<and> t = ep_startTime e + of_nat sq * ep_chunkDuration e
         \<longrightarrow> scheduleChunk now' rate d' (Suc sq) (Some e) = (e, t + ep_chunkDuration e))"
  using assms
  by (auto simp: scheduleChunk_def Let_def anchor_def algebra_simps split: option.splits if_splits)

theorem audio_schedule_witness:
  "scheduleChunk 3 48000 (1 / 24) 1 (Some \<lparr>ep_startTime = 3 + 1 / 4, ep_chunkDuration = 1 / 24, ep_senderRate = 48000\<rparr>)
    = (\<lparr>ep_startTime = 3 + 1 / 4, ep_chunkDuration = 1 / 24, ep_senderRate = 48000\<rparr>, (3 + 1 / 4) + 1 / 24)"
proof -
  have "scheduleChunk 3 48000 (1 / 24) 0 None
      = (\<lparr>ep_startTime = 3 + 1 / 4, ep_chunkDuration = 1 / 24, ep_senderRate = 48000\<rparr>, 3 + 1 / 4)"
    by (simp add: scheduleChunk_def anchor_def Let_def)
  from audio_schedule[OF this, of 3 "1 / 24"] show ?thesis by simp
qed

end
