(* ===== verification/Calls.thy ===== *)
theory Calls
  imports Api Audio
begin

text \<open>
  The call logic of \<open>components/MessengerApp.tsx\<close>.  \<open>call_ui\<close> is the React state, \<open>call_sys\<close>
  extends it with the refs and with the streams and audio contexts that are open.  A handler
  runs in the closure of some render (\<open>call_closure\<close>: identity, session, call state, ... as they
  were then), while refs and functional updates act on the current state; an operation that
  waits for the microphone is a begin and a continuation.  A text chosen by the locale is a
  constructor of \<open>call_text\<close>; \<open>stamp\<close> is the local time, \<open>now\<close> the ISO time.  Diagnostic lines
  that only report numbers (chunk sizes, rates) are left out.
\<close>

section \<open>State\<close>

datatype call_text =
    TxNone
  | TxErr jstr
  | TxNotAnswered
  | TxNoMedia
  | TxWaiting
  | TxIncoming
  | TxConnecting
  | TxNobody
  | TxPeerBusy
  | TxPeerDeclined

record call_closure =
  cc_identity :: "identity option"
  cc_session :: "auth_session option"
  cc_state :: call_state
  cc_startedAt :: jstr
  cc_duration :: int
  cc_room :: jstr
  cc_peers :: "identity list"
  cc_incoming :: "call_offer option"

datatype call_timer =
    AnswerTimer call_closure jstr jstr jstr
  | ConnectionTimer call_closure jstr

record call_ui =
  cu_state :: call_state
  cu_incoming :: "call_offer option"
  cu_peerName :: jstr
  cu_peerId :: jstr
  cu_status :: call_text
  cu_error :: call_text
  cu_diagnostics :: "jstr list"
  cu_startedAt :: jstr
  cu_duration :: int

record call_sys = call_ui +
  cf_callId :: jstr
  cf_peerId :: jstr
  cf_roomId :: jstr
  cf_callerId :: jstr
  cf_timer :: "call_timer option"
  cf_audioConnected :: bool
  cf_stream :: "nat option"
  cf_context :: "nat option"
  cf_source :: bool
  cf_processor :: bool
  cf_gain :: bool
  cf_epoch :: "epoch option"
  cf_openStreams :: "nat list"
  cf_openContexts :: "nat list"

datatype call_effect =
    CxSend realtime_event
  | CxNotify jstr call_text
  | CxApi "api_call list"
  | CxGetUserMedia
  | CxRefreshDevices
  | CxPlay rat

definition idle_call :: call_sys where
  "idle_call = \<lparr>cu_state = CIdle, cu_incoming = None, cu_peerName = [], cu_peerId = [], cu_status = TxNone,
     cu_error = TxNone, cu_diagnostics = [], cu_startedAt = [], cu_duration = 0,
     cf_callId = [], cf_peerId = [], cf_roomId = [], cf_callerId = [], cf_timer = None, cf_audioConnected = False,
     cf_stream = None, cf_context = None, cf_source = False, cf_processor = False, cf_gain = False,
     cf_epoch = None, cf_openStreams = [], cf_openContexts = []\<rparr>"

section \<open>Diagnostics and timers\<close>

definition addCallDiagnostic :: "jstr \<Rightarrow> jstr \<Rightarrow> call_sys \<Rightarrow> call_sys" where
  "addCallDiagnostic stamp message s =
     s\<lparr>cu_diagnostics := js_last 19 (cu_diagnostics s) @ [stamp @ js '' '' @ message]\<rparr>"

definition clearCallTimeout :: "call_sys \<Rightarrow> call_sys" where
  "clearCallTimeout s = s\<lparr>cf_timer := None\<rparr>"

definition armCallTimeout :: "call_closure \<Rightarrow> jstr \<Rightarrow> jstr \<Rightarrow> jstr \<Rightarrow> call_sys \<Rightarrow> call_sys" where
  "armCallTimeout c callId peerUserId roomID s =
     (clearCallTimeout s)\<lparr>cf_timer := Some (AnswerTimer c callId peerUserId roomID)\<rparr>"

definition armConnectionTimeout :: "call_closure \<Rightarrow> jstr \<Rightarrow> call_sys \<Rightarrow> call_sys" where
  "armConnectionTimeout c callId s = (clearCallTimeout s)\<lparr>cf_timer := Some (ConnectionTimer c callId)\<rparr>"

section \<open>Ending a call\<close>

definition own_id :: "call_closure \<Rightarrow> jstr option" where
  "own_id c = map_option iy_userId (cc_identity c)"

text \<open>The calls \<open>sendCallSystemMessage\<close> makes, in order; a failure of either is ignored.\<close>

definition call_note :: "call_closure \<Rightarrow> jstr \<Rightarrow> jstr \<Rightarrow> jstr \<Rightarrow> call_status \<Rightarrow> int \<Rightarrow> plain_message" where
  "call_note c now callerID calleeID status durationSec =
     \<lparr>pm_text = [], pm_senderName = iy_displayName (the (cc_identity c)),
      pm_senderAvatarUrl = pr_avatarUrl (as_principal (the (cc_session c))), pm_sentAt = now, pm_replyTo = None,
      pm_system = Some (CallNote status durationSec callerID calleeID), pm_attachment = None\<rparr>"

definition sendCallSystemMessage ::
    "call_closure \<Rightarrow> jstr \<Rightarrow> jstr \<Rightarrow> jstr \<Rightarrow> jstr \<Rightarrow> call_status \<Rightarrow> int \<Rightarrow> jstr option \<Rightarrow> api_call list" where
  "sendCallSystemMessage c now roomID callerID calleeID status durationSec startedAt =
     (case (cc_identity c, cc_session c) of
        (Some i, Some s) \<Rightarrow>
          if roomID = [] \<or> callerID = [] \<or> calleeID = [] then []
          else (case encodePlainMessage (call_note c now callerID calleeID status durationSec) of
                  Inl _ \<Rightarrow> []
                | Inr p \<Rightarrow>
                    [CallSendEncryptedMessage (as_accessToken s) roomID (iy_userId i) p,
                     CallAppendCallLog (as_accessToken s) roomID callerID calleeID status durationSec startedAt (Some now)])
      | _ \<Rightarrow> [])"

definition release :: "nat option \<Rightarrow> nat list \<Rightarrow> nat list" where
  "release r xs = (case r of None \<Rightarrow> xs | Some i \<Rightarrow> removeAll i xs)"

definition cleanup_effects :: "call_closure \<Rightarrow> jstr \<Rightarrow> bool \<Rightarrow> call_sys \<Rightarrow> call_effect list" where
  "cleanup_effects c now notifyPeer s =
     (let roomID = cf_roomId s; peerID = cf_peerId s; callerID = cf_callerId s;
          calleeID = (if Some callerID = own_id c then peerID else nullish (own_id c) []);
          wasConnected = (cc_startedAt c \<noteq> [])
      in (if notifyPeer \<and> cc_identity c \<noteq> None \<and> roomID \<noteq> [] \<and> cf_callId s \<noteq> [] \<and> peerID \<noteq> []
          then [CxSend (EvCallHangup \<lparr>cr_callId = cf_callId s, cr_roomId = roomID,
                  cr_fromUserId = the (own_id c), cr_toUserId = peerID\<rparr>)] else [])
         @ (if notifyPeer \<and> roomID \<noteq> [] \<and> callerID \<noteq> [] \<and> calleeID \<noteq> []
            then [CxApi (sendCallSystemMessage c now roomID callerID calleeID
                    (if wasConnected then Completed else Missed) (cc_duration c) (nonempty (cc_startedAt c)))] else []))"

definition cleanup_state :: "bool \<Rightarrow> call_sys \<Rightarrow> call_sys" where
  "cleanup_state keepError s =
     (clearCallTimeout s)\<lparr>
       cf_source := False, cf_processor := False, cf_gain := False,
       cf_openContexts := release (cf_context s) (cf_openContexts s), cf_context := None, cf_epoch := None,
       cf_audioConnected := False,
       cf_openStreams := release (cf_stream s) (cf_openStreams s), cf_stream := None,
       cf_callId := [], cf_peerId := [], cf_roomId := [], cf_callerId := [],
       cu_state := (if keepError then CFailed else CIdle), cu_incoming := None,
       cu_peerName := (if keepError then cu_peerName s else []),
       cu_peerId := (if keepError then cu_peerId s else []),
       cu_startedAt := [], cu_duration := 0, cu_status := TxNone,
       cu_error := (if keepError then cu_error s else TxNone),
       cu_diagnostics := (if keepError then cu_diagnostics s else [])\<rparr>"

definition cleanupCall :: "call_closure \<Rightarrow> jstr \<Rightarrow> bool \<Rightarrow> bool \<Rightarrow> call_sys \<Rightarrow> call_sys \<times> call_effect list" where
  "cleanupCall c now notifyPeer keepError s = (cleanup_state keepError s, cleanup_effects c now notifyPeer s)"

definition endCall :: "call_closure \<Rightarrow> jstr \<Rightarrow> bool \<Rightarrow> call_sys \<Rightarrow> call_sys \<times> call_effect list" where
  "endCall c now notifyPeer s = cleanupCall c now notifyPeer False s"

definition declineIncomingCall :: "call_closure \<Rightarrow> jstr \<Rightarrow> call_sys \<Rightarrow> call_sys \<times> call_effect list" where
  "declineIncomingCall c now s =
     (let fx = (case (cc_incoming c, cc_identity c) of
            (Some o', Some i) \<Rightarrow>
              [CxSend (EvCallDecline \<lparr>cr_callId = co_callId o', cr_roomId = co_roomId o', cr_fromUserId = iy_userId i,
                 cr_toUserId = co_fromUserId o'\<rparr> (Some DeclinedByUser)),
               CxApi (sendCallSystemMessage c now (co_roomId o') (co_fromUserId o') (iy_userId i) Declined 0 None)]
          | _ \<Rightarrow> []);
          (s', fx') = cleanupCall c now False False s
      in (s', fx @ fx'))"

text \<open>The timer of the ref fires; clearing a fired timer does nothing, so the ref is dropped here.\<close>

definition timerFired :: "jstr \<Rightarrow> call_sys \<Rightarrow> call_sys \<times> call_effect list" where
  "timerFired now s0 =
     (let s = clearCallTimeout s0
      in case cf_timer s0 of
           None \<Rightarrow> (s0, [])
         | Some (AnswerTimer c callId peerUserId roomID) \<Rightarrow>
             if cf_callId s \<noteq> callId then (s, [])
             else (let fx = (if cc_identity c \<noteq> None \<and> peerUserId \<noteq> [] \<and> roomID \<noteq> []
                       then [CxSend (EvCallHangup \<lparr>cr_callId = callId, cr_roomId = roomID,
                               cr_fromUserId = the (own_id c), cr_toUserId = peerUserId\<rparr>)] else []);
                       (s', fx') = cleanupCall c now False True (s\<lparr>cu_error := TxNotAnswered\<rparr>)
                   in (s', fx @ fx'))
         | Some (ConnectionTimer c callId) \<Rightarrow>
             if cf_callId s \<noteq> callId \<or> cc_state c = CConnected then (s, [])
             else cleanupCall c now False True (s\<lparr>cu_error := TxNoMedia\<rparr>))"

section \<open>Audio\<close>

definition setupAudioPlayback :: "jstr \<Rightarrow> call_sys \<Rightarrow> call_sys" where
  "setupAudioPlayback stamp s =
     (if cf_context s = None then addCallDiagnostic stamp (js ''Audio playback: no AudioContext'') s
      else addCallDiagnostic stamp (js ''Audio playback setup'') (s\<lparr>cf_gain := True, cf_epoch := None\<rparr>))"

definition startAudioStreaming :: "jstr \<Rightarrow> jstr \<Rightarrow> call_sys \<Rightarrow> call_sys" where
  "startAudioStreaming myUserID stamp s =
     (if cf_stream s = None then addCallDiagnostic stamp (js ''Audio streaming: no mic stream'') s
      else if myUserID = [] \<or> cf_peerId s = [] then addCallDiagnostic stamp (js ''Audio streaming: missing ids'') s
      else if cf_context s = None then addCallDiagnostic stamp (js ''Audio streaming: no AudioContext'') s
      else addCallDiagnostic stamp (js ''Audio streaming started (PCM)'') (s\<lparr>cf_source := True, cf_processor := True\<rparr>))"

text \<open>\<open>onaudioprocess\<close> with one block of samples; \<open>sq\<close> is the processor's counter.\<close>

definition audioProcess :: "jstr \<Rightarrow> nat \<Rightarrow> rat list \<Rightarrow> nat \<Rightarrow> call_sys \<Rightarrow> realtime_event option" where
  "audioProcess myUserID sampleRate input sq s =
     (if cf_callId s = [] then None
      else case audioChunk sampleRate input of
        Inl _ \<Rightarrow> None
      | Inr chunk \<Rightarrow> Some (EvCallAudio \<lparr>cr_callId = cf_callId s, cr_roomId = cf_roomId s, cr_fromUserId = myUserID,
          cr_toUserId = cf_peerId s\<rparr> chunk (int sq)))"

text \<open>\<open>t\<close> is the context's clock, \<open>rate_ok\<close> the rates \<open>createBuffer\<close> accepts.\<close>

definition appendRemoteAudioChunk ::
    "(nat \<Rightarrow> bool) \<Rightarrow> rat \<Rightarrow> jstr \<Rightarrow> nat \<Rightarrow> call_sys \<Rightarrow> call_sys \<times> call_effect list" where
  "appendRemoteAudioChunk rate_ok t base64 sq s =
     (case decodeChunk base64 of
        None \<Rightarrow> (s, [])
      | Some (senderRate, samples) \<Rightarrow>
          if cf_context s = None \<or> \<not> rate_ok senderRate then (s, [])
          else (let duration = of_nat (length samples) / of_nat senderRate;
                    (e, start) = scheduleChunk t senderRate duration sq (cf_epoch s)
                in (s\<lparr>cf_epoch := Some e\<rparr>, [CxPlay start])))"

section \<open>Starting and answering\<close>

text \<open>What \<open>getUserMedia\<close> and \<open>new AudioContext()\<close> give: refused, a stream with the context when the
  platform has one, or a stream and a failing constructor.\<close>

datatype media_result =
    MediaDenied jstr
  | MediaGranted nat "nat option"
  | MediaNoContext nat jstr

definition preferredCallPeer :: "(jstr \<Rightarrow> presence_status option) \<Rightarrow> identity list \<Rightarrow> identity option" where
  "preferredCallPeer presence peers =
     (case find (\<lambda>m. presence (iy_userId m) = Some Online) peers of
        Some m \<Rightarrow> Some m
      | None \<Rightarrow> (case peers of [] \<Rightarrow> None | m # _ \<Rightarrow> Some m))"

definition startCallBegin ::
    "call_closure \<Rightarrow> jstr \<Rightarrow> jstr \<Rightarrow> call_sys \<Rightarrow> call_sys \<times> call_effect list \<times> identity option" where
  "startCallBegin c targetUserId stamp s =
     (if cc_identity c = None \<or> cc_room c = [] \<or> cc_state c \<noteq> CIdle then (s, [], None)
      else case find (\<lambda>m. iy_userId m = targetUserId) (cc_peers c) of
        None \<Rightarrow> (s, [CxNotify (js ''callFailed'') TxNobody], None)
      | Some target \<Rightarrow>
          (addCallDiagnostic stamp (js ''Starting call'') (s\<lparr>cu_diagnostics := []\<rparr>), [CxGetUserMedia], Some target))"

definition take_media :: "nat \<Rightarrow> nat option \<Rightarrow> call_sys \<Rightarrow> call_sys" where
  "take_media stream ctx s =
     (let s1 = s\<lparr>cf_stream := Some stream, cf_openStreams := stream # cf_openStreams s\<rparr>
      in case ctx of None \<Rightarrow> s1
         | Some x \<Rightarrow> s1\<lparr>cf_context := Some x, cf_openContexts := x # cf_openContexts s1\<rparr>)"

definition media_failed :: "call_closure \<Rightarrow> jstr \<Rightarrow> bool \<Rightarrow> jstr \<Rightarrow> call_sys \<Rightarrow> call_sys \<times> call_effect list" where
  "media_failed c now notifyPeer message s =
     (let (s', fx) = cleanupCall c now notifyPeer True (s\<lparr>cu_error := TxErr message\<rparr>)
      in (s', CxNotify (js ''callFailed'') (TxErr message) # fx))"

definition startCallMedia ::
    "call_closure \<Rightarrow> jstr \<Rightarrow> jstr \<Rightarrow> jstr \<Rightarrow> identity \<Rightarrow> media_result \<Rightarrow> call_sys \<Rightarrow> call_sys \<times> call_effect list" where
  "startCallMedia c stamp now callId target media s =
     (case media of
        MediaDenied m \<Rightarrow> media_failed c now False m s
      | MediaNoContext stream m \<Rightarrow> media_failed c now False m (take_media stream None s)
      | MediaGranted stream ctx \<Rightarrow>
          (let me = the (own_id c);
               s1 = (take_media stream ctx s)\<lparr>cf_callId := callId, cf_peerId := iy_userId target, cf_roomId := cc_room c,
                 cf_callerId := me, cu_peerId := iy_userId target, cu_peerName := iy_displayName target,
                 cu_error := TxNone, cu_state := CCalling, cu_status := TxWaiting\<rparr>;
               s2 = armCallTimeout c callId (iy_userId target) (cc_room c) s1
           in (addCallDiagnostic stamp (js ''Offer sent'') s2,
               [CxRefreshDevices,
                CxSend (EvCallOffer \<lparr>co_callId = callId, co_roomId = cc_room c, co_fromUserId = me,
                  co_toUserId = iy_userId target, co_displayName = iy_displayName (the (cc_identity c))\<rparr>)])))"

definition answerCallBegin :: "call_closure \<Rightarrow> jstr \<Rightarrow> call_sys \<Rightarrow> call_sys \<times> call_effect list \<times> call_offer option" where
  "answerCallBegin c stamp s =
     (case (cc_incoming c, cc_identity c) of
        (Some o', Some i) \<Rightarrow>
          (addCallDiagnostic stamp (js ''Answering call'') (s\<lparr>cu_state := CConnecting\<rparr>), [CxGetUserMedia], Some o')
      | _ \<Rightarrow> (s, [], None))"

definition answerCallMedia ::
    "call_closure \<Rightarrow> jstr \<Rightarrow> jstr \<Rightarrow> jstr \<Rightarrow> call_offer \<Rightarrow> media_result \<Rightarrow> call_sys \<Rightarrow> call_sys \<times> call_effect list" where
  "answerCallMedia c myUserID stamp now inc media s =
     (case media of
        MediaDenied m \<Rightarrow> media_failed c now True m s
      | MediaNoContext stream m \<Rightarrow> media_failed c now True m (take_media stream None s)
      | MediaGranted stream ctx \<Rightarrow>
          (let s1 = (take_media stream ctx s)\<lparr>cf_callId := co_callId inc, cf_peerId := co_fromUserId inc,
                 cf_roomId := co_roomId inc, cf_callerId := co_fromUserId inc, cu_peerId := co_fromUserId inc,
                 cu_peerName := co_displayName inc, cu_error := TxNone\<rparr>;
               s2 = armConnectionTimeout c (co_callId inc) s1;
               s3 = startAudioStreaming myUserID stamp (setupAudioPlayback stamp s2)
           in ((addCallDiagnostic stamp (js ''Answer sent'') s3)\<lparr>cu_incoming := None\<rparr>,
               [CxRefreshDevices,
                CxSend (EvCallAnswer \<lparr>cr_callId = co_callId inc, cr_roomId = co_roomId inc,
                  cr_fromUserId = the (own_id c), cr_toUserId = co_fromUserId inc\<rparr>)])))"

section \<open>Changing the microphone\<close>

text \<open>The effect of a new input device; the call whose stream is replaced is the one of the refs when
  it began, and is compared when the stream arrives.\<close>

definition switchMicBegin :: "call_closure \<Rightarrow> call_sys \<Rightarrow> jstr option" where
  "switchMicBegin c s = (if cc_state c = CIdle \<or> cf_stream s = None then None else Some (cf_callId s))"

definition switchMicMedia :: "jstr \<Rightarrow> jstr \<Rightarrow> jstr \<Rightarrow> jstr + nat \<Rightarrow> call_sys \<Rightarrow> call_sys" where
  "switchMicMedia myUserID stamp currentCallId media s =
     (case media of
        Inl m \<Rightarrow> s\<lparr>cu_error := TxErr m\<rparr>
      | Inr stream \<Rightarrow>
          if cf_callId s \<noteq> currentCallId then s
          else startAudioStreaming myUserID stamp
            (s\<lparr>cf_source := False, cf_processor := False,
               cf_openStreams := stream # release (cf_stream s) (cf_openStreams s), cf_stream := Some stream\<rparr>))"

section \<open>Events from the socket\<close>

fun call_ref_of :: "realtime_event \<Rightarrow> call_ref option" where
  "call_ref_of (EvCallOffer x) = Some \<lparr>cr_callId = co_callId x, cr_roomId = co_roomId x,
     cr_fromUserId = co_fromUserId x, cr_toUserId = co_toUserId x\<rparr>"
| "call_ref_of (EvCallAnswer r) = Some r"
| "call_ref_of (EvCallIce r _) = Some r"
| "call_ref_of (EvCallAudio r _ _) = Some r"
| "call_ref_of (EvCallHangup r) = Some r"
| "call_ref_of (EvCallDecline r _) = Some r"
| "call_ref_of _ = None"

record call_ctx =
  cx_closure :: call_closure
  cx_myUserID :: jstr
  cx_stamp :: jstr
  cx_now :: jstr
  cx_clock :: rat
  cx_rateOk :: "nat \<Rightarrow> bool"

definition handleOffer :: "call_ctx \<Rightarrow> call_offer \<Rightarrow> call_sys \<Rightarrow> call_sys \<times> call_effect list" where
  "handleOffer x ev s =
     (if cc_state (cx_closure x) \<noteq> CIdle
      then (s, [CxSend (EvCallDecline \<lparr>cr_callId = co_callId ev, cr_roomId = co_roomId ev,
             cr_fromUserId = cx_myUserID x, cr_toUserId = co_fromUserId ev\<rparr> (Some Busy))])
      else (armCallTimeout (cx_closure x) (co_callId ev) (co_fromUserId ev) (co_roomId ev)
             (addCallDiagnostic (cx_stamp x) (js ''Incoming offer received'')
               (s\<lparr>cu_incoming := Some ev, cu_diagnostics := [], cu_state := CRinging, cu_peerId := co_fromUserId ev,
                  cu_peerName := co_displayName ev, cu_error := TxNone, cu_status := TxIncoming\<rparr>)), []))"

definition handleAnswer :: "call_ctx \<Rightarrow> jstr \<Rightarrow> call_sys \<Rightarrow> call_sys" where
  "handleAnswer x callId s =
     (let s1 = armConnectionTimeout (cx_closure x) callId ((clearCallTimeout s)\<lparr>cu_state := CConnecting\<rparr>);
          s2 = addCallDiagnostic (cx_stamp x) (js ''Answer received, starting audio'') (s1\<lparr>cu_status := TxConnecting\<rparr>)
      in startAudioStreaming (cx_myUserID x) (cx_stamp x) (setupAudioPlayback (cx_stamp x) s2))"

definition handleAudio :: "call_ctx \<Rightarrow> jstr \<Rightarrow> int \<Rightarrow> call_sys \<Rightarrow> call_sys \<times> call_effect list" where
  "handleAudio x chunk sq s =
     (let s1 = (if \<not> cf_audioConnected s
                then addCallDiagnostic (cx_stamp x) (js ''Audio connected'')
                  ((clearCallTimeout s)\<lparr>cf_audioConnected := True, cu_state := CConnected, cu_startedAt := cx_now x\<rparr>)
                else s)
      in appendRemoteAudioChunk (cx_rateOk x) (cx_clock x) chunk (nat sq) s1)"

definition handleCallEvent :: "call_ctx \<Rightarrow> realtime_event \<Rightarrow> call_sys \<Rightarrow> call_sys \<times> call_effect list" where
  "handleCallEvent x ev s =
     (case call_ref_of ev of
        None \<Rightarrow> (s, [])
      | Some r \<Rightarrow>
          if cx_myUserID x = [] \<or> cr_fromUserId r = cx_myUserID x \<or> cr_toUserId r \<noteq> cx_myUserID x then (s, [])
          else case ev of
            EvCallOffer off \<Rightarrow> handleOffer x off s
          | _ \<Rightarrow>
              if cr_callId r \<noteq> cf_callId s then (s, [])
              else (case ev of
                  EvCallAnswer _ \<Rightarrow> (handleAnswer x (cr_callId r) s, [])
                | EvCallAudio _ chunk sq \<Rightarrow> handleAudio x chunk sq s
                | EvCallHangup _ \<Rightarrow> cleanupCall (cx_closure x) (cx_now x) False False s
                | EvCallDecline _ reason \<Rightarrow>
                    (let (s', fx) = cleanupCall (cx_closure x) (cx_now x) False False s
                     in (s', CxNotify (js ''declineCall'') (if reason = Some Busy then TxPeerBusy else TxPeerDeclined) # fx))
                | _ \<Rightarrow> (s, [])))"

text \<open>The duration shown, in seconds, at each tick of the timer; NaN for an unparsable start is 0 here.\<close>

definition durationTick :: "(jstr \<Rightarrow> int option) \<Rightarrow> int \<Rightarrow> call_closure \<Rightarrow> call_sys \<Rightarrow> call_sys" where
  "durationTick dp nowMs c s =
     (if cc_state c \<noteq> CConnected \<or> cc_startedAt c = [] then s
      else s\<lparr>cu_duration := max 0 ((nowMs - nullish (dp (cc_startedAt c)) nowMs) div 1000)\<rparr>)"

end
