(* ===== verification/CallProps.thy ===== *)
theory CallProps
  imports Calls MessageRaces
begin

text \<open>
  What the call logic guarantees.  \<open>call_step\<close> is the system whose closures are fresh and
  whose microphone answers at once: its invariant and its phases.  Then what holds whatever the
  closures are, the handshake of two parties, and the orderings in which a stale closure or a
  late microphone breaks the promise.
\<close>

section \<open>Ending releases everything\<close>

definition owned :: "call_sys \<Rightarrow> bool" where
  "owned s = (set (cf_openStreams s) \<subseteq> set_option (cf_stream s)
     \<and> set (cf_openContexts s) \<subseteq> set_option (cf_context s))"

definition released :: "call_sys \<Rightarrow> bool" where
  "released s = (cf_openStreams s = [] \<and> cf_openContexts s = [] \<and> cf_stream s = None \<and> cf_context s = None
     \<and> \<not> cf_source s \<and> \<not> cf_processor s \<and> \<not> cf_gain s \<and> cf_epoch s = None \<and> \<not> cf_audioConnected s
     \<and> cf_callId s = [] \<and> cf_peerId s = [] \<and> cf_roomId s = [] \<and> cf_callerId s = [])"

lemma release_owned: "set xs \<subseteq> set_option r \<Longrightarrow> release r xs = []"
  by (cases r) (auto simp: release_def removeAll_filter_not_eq filter_empty_conv)

lemma cleanup_released: "owned s \<Longrightarrow> released (cleanup_state k s)"
  by (simp add: owned_def released_def cleanup_state_def clearCallTimeout_def release_owned)

lemma cleanup_fields [simp]:
  "cu_state (cleanup_state k s) = (if k then CFailed else CIdle)"
  "cu_incoming (cleanup_state k s) = None" "cu_startedAt (cleanup_state k s) = []"
  "cf_timer (cleanup_state k s) = None" "cf_callId (cleanup_state k s) = []"
  "cf_audioConnected (cleanup_state k s) = False"
  by (simp_all add: cleanup_state_def clearCallTimeout_def)

lemma cleanup_diagnostics:
  "length (cu_diagnostics s) \<le> 20 \<Longrightarrow> length (cu_diagnostics (cleanup_state k s)) \<le> 20"
  by (simp add: cleanup_state_def)

section \<open>The system with fresh closures\<close>

definition fresh :: "call_closure \<Rightarrow> call_sys \<Rightarrow> bool" where
  "fresh c s = (cc_state c = cu_state s \<and> cc_incoming c = cu_incoming s \<and> cc_startedAt c = cu_startedAt s)"

inductive call_step :: "call_sys \<Rightarrow> call_effect list \<Rightarrow> call_sys \<Rightarrow> bool" where
  Start: "fresh c s \<Longrightarrow> startCallBegin c target stamp s = (s1, fx1, Some peer) \<Longrightarrow> callId \<noteq> [] \<Longrightarrow>
    startCallMedia c stamp now callId peer media s1 = (s2, fx2) \<Longrightarrow> call_step s (fx1 @ fx2) s2"
| StartRefused: "fresh c s \<Longrightarrow> startCallBegin c target stamp s = (s1, fx1, None) \<Longrightarrow> call_step s fx1 s1"
| Answer: "fresh c s \<Longrightarrow> answerCallBegin c stamp s = (s1, fx1, Some off) \<Longrightarrow>
    answerCallMedia c me stamp now off media s1 = (s2, fx2) \<Longrightarrow> call_step s (fx1 @ fx2) s2"
| Decline: "fresh c s \<Longrightarrow> declineIncomingCall c now s = (s', fx) \<Longrightarrow> call_step s fx s'"
| Hangup: "fresh c s \<Longrightarrow> endCall c now notifyPeer s = (s', fx) \<Longrightarrow> call_step s fx s'"
| Timer: "timerFired now s = (s', fx) \<Longrightarrow> call_step s fx s'"
| Event: "fresh (cx_closure x) s \<Longrightarrow> cx_now x \<noteq> [] \<Longrightarrow> call_ref_of ev = Some r \<Longrightarrow> cr_callId r \<noteq> [] \<Longrightarrow>
    handleCallEvent x ev s = (s', fx) \<Longrightarrow> call_step s fx s'"
| Tick: "fresh c s \<Longrightarrow> call_step s [] (durationTick dp ms c s)"
| Switch: "fresh c s \<Longrightarrow> switchMicBegin c s = Some i \<Longrightarrow> call_step s [] (switchMicMedia me stamp i media s)"

inductive_cases call_stepE: "call_step s fx s'"

inductive call_reachable :: "call_sys \<Rightarrow> bool" where
  Init: "call_reachable idle_call"
| Step: "call_reachable s \<Longrightarrow> call_step s fx s' \<Longrightarrow> call_reachable s'"

definition timer_id :: "call_timer \<Rightarrow> jstr" where
  "timer_id t = (case t of AnswerTimer _ i _ _ \<Rightarrow> i | ConnectionTimer _ i \<Rightarrow> i)"

definition call_inv :: "call_sys \<Rightarrow> bool" where
  "call_inv s = (owned s \<and> length (cu_diagnostics s) \<le> 20
     \<and> (cu_state s \<in> {CIdle, CFailed, CRinging} \<longrightarrow> released s)
     \<and> (cu_state s \<in> {CCalling, CConnecting, CConnected} \<longrightarrow> cf_callId s \<noteq> [])
     \<and> (cu_incoming s \<noteq> None \<longleftrightarrow> cu_state s = CRinging)
     \<and> (\<forall>off. cu_incoming s = Some off \<longrightarrow> co_callId off \<noteq> [])
     \<and> (cf_audioConnected s \<longleftrightarrow> cu_startedAt s \<noteq> [])
     \<and> (cu_state s = CConnected \<longrightarrow> cf_audioConnected s \<and> cf_timer s = None)
     \<and> (cf_source s \<longrightarrow> cf_stream s \<noteq> None \<and> cf_context s \<noteq> None)
     \<and> (\<forall>t. cf_timer s = Some t \<longrightarrow> timer_id t \<noteq> []))"

lemma diag_bound: "length (cu_diagnostics (addCallDiagnostic stamp m s)) \<le> 20"
  by (simp add: addCallDiagnostic_def length_js_last)

lemma diag_fields [simp]:
  "cu_state (addCallDiagnostic stamp m s) = cu_state s" "cu_incoming (addCallDiagnostic stamp m s) = cu_incoming s"
  "cu_startedAt (addCallDiagnostic stamp m s) = cu_startedAt s" "cf_timer (addCallDiagnostic stamp m s) = cf_timer s"
  "cf_callId (addCallDiagnostic stamp m s) = cf_callId s" "cf_peerId (addCallDiagnostic stamp m s) = cf_peerId s"
  "cf_roomId (addCallDiagnostic stamp m s) = cf_roomId s" "cf_callerId (addCallDiagnostic stamp m s) = cf_callerId s"
  "cf_audioConnected (addCallDiagnostic stamp m s) = cf_audioConnected s"
  "cf_stream (addCallDiagnostic stamp m s) = cf_stream s" "cf_context (addCallDiagnostic stamp m s) = cf_context s"
  "cf_source (addCallDiagnostic stamp m s) = cf_source s" "cf_processor (addCallDiagnostic stamp m s) = cf_processor s"
  "cf_gain (addCallDiagnostic stamp m s) = cf_gain s" "cf_epoch (addCallDiagnostic stamp m s) = cf_epoch s"
  "cf_openStreams (addCallDiagnostic stamp m s) = cf_openStreams s"
  "cf_openContexts (addCallDiagnostic stamp m s) = cf_openContexts s"
  by (simp_all add: addCallDiagnostic_def)

lemmas timer_defs = armCallTimeout_def armConnectionTimeout_def clearCallTimeout_def timer_id_def

lemma cleanup_inv: "owned s \<Longrightarrow> length (cu_diagnostics s) \<le> 20 \<Longrightarrow> call_inv (cleanup_state k s)"
  using cleanup_released [of s k] cleanup_diagnostics [of s k]
  by (auto simp: call_inv_def owned_def released_def)

lemma cleanupCall_inv:
  "owned s \<Longrightarrow> length (cu_diagnostics s) \<le> 20 \<Longrightarrow> cleanupCall c now n k s = (s', fx) \<Longrightarrow> call_inv s'"
  by (auto simp: cleanupCall_def cleanup_inv)

lemma media_failed_inv:
  "owned s \<Longrightarrow> length (cu_diagnostics s) \<le> 20 \<Longrightarrow> media_failed c now n m s = (s', fx) \<Longrightarrow> call_inv s'"
  by (auto simp: media_failed_def cleanupCall_def owned_def split: prod.splits intro!: cleanup_inv)

lemma inv_owned: "call_inv s \<Longrightarrow> owned s" "call_inv s \<Longrightarrow> length (cu_diagnostics s) \<le> 20"
  by (simp_all add: call_inv_def)

lemma take_media_owned: "released s \<Longrightarrow> owned (take_media st ctx s)"
  by (auto simp: released_def owned_def take_media_def Let_def split: option.splits)

lemma take_media_fields [simp]:
  "cu_diagnostics (take_media st ctx s) = cu_diagnostics s" "cu_state (take_media st ctx s) = cu_state s"
  "cu_incoming (take_media st ctx s) = cu_incoming s" "cu_startedAt (take_media st ctx s) = cu_startedAt s"
  "cf_audioConnected (take_media st ctx s) = cf_audioConnected s" "cf_source (take_media st ctx s) = cf_source s"
  "cf_stream (take_media st ctx s) = Some st" "cf_context (take_media st ctx s) = (case ctx of None \<Rightarrow> cf_context s | Some x \<Rightarrow> Some x)"
  by (auto simp: take_media_def Let_def split: option.splits)

section \<open>The invariant\<close>

lemma startCallBegin_cases:
  assumes "startCallBegin c target stamp s = (s1, fx, Some peer)"
  shows "cc_state c = CIdle" "s1 = addCallDiagnostic stamp (js ''Starting call'') (s\<lparr>cu_diagnostics := []\<rparr>)"
    "fx = [CxGetUserMedia]" "cc_identity c \<noteq> None" "iy_userId peer = target" "peer \<in> set (cc_peers c)"
  using assms by (auto simp: startCallBegin_def find_Some_iff split: if_splits option.splits)

lemma startCallMedia_inv:
  assumes "released s" "cu_state s = CIdle" "cu_incoming s = None" "cu_startedAt s = []"
    "length (cu_diagnostics s) \<le> 20" "callId \<noteq> []" "startCallMedia c stamp now callId peer media s = (s', fx)"
  shows "call_inv s'"
proof (cases media)
  case (MediaGranted stream ctx)
  with assms show ?thesis
    using take_media_owned [OF assms(1), of stream ctx]
    by (auto simp: startCallMedia_def Let_def call_inv_def owned_def released_def timer_defs diag_bound)
next
  case (MediaDenied m)
  then show ?thesis using assms(1,5,7)
    by (auto simp: startCallMedia_def released_def owned_def intro!: media_failed_inv [of s])
next
  case (MediaNoContext stream m)
  then show ?thesis using assms(5,7) take_media_owned [OF assms(1), of stream None]
    by (auto simp: startCallMedia_def intro!: media_failed_inv [of "take_media stream None s"])
qed

lemma playback_fields [simp]:
  "cu_state (setupAudioPlayback stamp s) = cu_state s" "cu_incoming (setupAudioPlayback stamp s) = cu_incoming s"
  "cu_startedAt (setupAudioPlayback stamp s) = cu_startedAt s" "cf_timer (setupAudioPlayback stamp s) = cf_timer s"
  "cf_roomId (setupAudioPlayback stamp s) = cf_roomId s" "cf_callerId (setupAudioPlayback stamp s) = cf_callerId s"
  "cf_callId (setupAudioPlayback stamp s) = cf_callId s" "cf_peerId (setupAudioPlayback stamp s) = cf_peerId s"
  "cf_audioConnected (setupAudioPlayback stamp s) = cf_audioConnected s"
  "cf_stream (setupAudioPlayback stamp s) = cf_stream s" "cf_context (setupAudioPlayback stamp s) = cf_context s"
  "cf_source (setupAudioPlayback stamp s) = cf_source s"
  "cf_openStreams (setupAudioPlayback stamp s) = cf_openStreams s"
  "cf_openContexts (setupAudioPlayback stamp s) = cf_openContexts s"
  by (simp_all add: setupAudioPlayback_def)

lemma streaming_fields [simp]:
  "cu_state (startAudioStreaming me stamp s) = cu_state s" "cu_incoming (startAudioStreaming me stamp s) = cu_incoming s"
  "cu_startedAt (startAudioStreaming me stamp s) = cu_startedAt s" "cf_timer (startAudioStreaming me stamp s) = cf_timer s"
  "cf_callId (startAudioStreaming me stamp s) = cf_callId s" "cf_peerId (startAudioStreaming me stamp s) = cf_peerId s"
  "cf_roomId (startAudioStreaming me stamp s) = cf_roomId s" "cf_callerId (startAudioStreaming me stamp s) = cf_callerId s"
  "cf_audioConnected (startAudioStreaming me stamp s) = cf_audioConnected s"
  "cf_stream (startAudioStreaming me stamp s) = cf_stream s" "cf_context (startAudioStreaming me stamp s) = cf_context s"
  "cf_openStreams (startAudioStreaming me stamp s) = cf_openStreams s"
  "cf_openContexts (startAudioStreaming me stamp s) = cf_openContexts s"
  by (simp_all add: startAudioStreaming_def)

lemma streaming_source:
  "cf_source (startAudioStreaming me stamp s) \<longleftrightarrow>
     cf_source s \<or> (cf_stream s \<noteq> None \<and> me \<noteq> [] \<and> cf_peerId s \<noteq> [] \<and> cf_context s \<noteq> None)"
  by (auto simp: startAudioStreaming_def)

lemma streaming_bound: "length (cu_diagnostics (startAudioStreaming me stamp s)) \<le> 20"
  by (simp add: startAudioStreaming_def diag_bound)

lemma answerCallMedia_inv:
  assumes "released s" "cu_state s = CConnecting" "cu_startedAt s = []" "length (cu_diagnostics s) \<le> 20"
    "co_callId off \<noteq> []" "answerCallMedia c me stamp now off media s = (s', fx)"
  shows "call_inv s'"
proof (cases media)
  case (MediaGranted stream ctx)
  with assms show ?thesis
    using take_media_owned [OF assms(1), of stream ctx]
    by (auto simp: answerCallMedia_def Let_def call_inv_def owned_def released_def timer_defs diag_bound streaming_source)
next
  case (MediaDenied m)
  then show ?thesis using assms(1,4,6)
    by (auto simp: answerCallMedia_def released_def owned_def intro!: media_failed_inv [of s])
next
  case (MediaNoContext stream m)
  then show ?thesis using assms(4,6) take_media_owned [OF assms(1), of stream None]
    by (auto simp: answerCallMedia_def intro!: media_failed_inv [of "take_media stream None s"])
qed

lemma timerFired_inv: "call_inv s \<Longrightarrow> timerFired now s = (s', fx) \<Longrightarrow> call_inv s'"
proof -
  assume inv: "call_inv s" and t: "timerFired now s = (s', fx)"
  have o: "owned (s\<lparr>cf_timer := None, cu_error := e\<rparr>)" "length (cu_diagnostics (s\<lparr>cf_timer := None, cu_error := e\<rparr>)) \<le> 20" for e
    using inv by (simp_all add: call_inv_def owned_def)
  have n: "call_inv (s\<lparr>cf_timer := None\<rparr>)" using inv by (auto simp: call_inv_def owned_def released_def)
  show ?thesis using inv n t cleanup_inv [OF o]
    by (auto simp: timerFired_def Let_def clearCallTimeout_def cleanupCall_def split: option.splits call_timer.splits if_splits)
qed

lemma append_fields:
  assumes "appendRemoteAudioChunk rok t b sq s = (s', fx)"
  shows "\<exists>e. s' = s\<lparr>cf_epoch := e\<rparr>"
proof -
  have "t = t\<lparr>cf_epoch := cf_epoch t\<rparr>" for t :: call_sys by simp
  then have same: "\<exists>e. t = t\<lparr>cf_epoch := e\<rparr>" for t :: call_sys by blast
  show ?thesis using assms same [of s]
    by (auto simp: appendRemoteAudioChunk_def Let_def split: option.splits if_splits prod.splits)
qed

lemma epoch_inv: "call_inv s \<Longrightarrow> cf_callId s \<noteq> [] \<Longrightarrow> call_inv (s\<lparr>cf_epoch := e\<rparr>)"
  by (auto simp: call_inv_def owned_def released_def)

lemma handleAnswer_inv:
  assumes "call_inv s" "cf_callId s \<noteq> []" "cu_state s \<noteq> CRinging" "i \<noteq> []"
  shows "call_inv (handleAnswer x i s)"
proof -
  have st: "cu_state s \<notin> {CIdle, CFailed, CRinging}" and inc: "cu_incoming s = None"
    using assms by (auto simp: call_inv_def released_def)
  show ?thesis
    using assms st inc by (auto simp: handleAnswer_def Let_def call_inv_def owned_def timer_defs streaming_bound streaming_source)
qed

lemma handleAudio_inv:
  assumes "call_inv s" "cf_callId s \<noteq> []" "cx_now x \<noteq> []" "handleAudio x chunk sq s = (s', fx)"
  shows "call_inv s'"
proof -
  let ?s1 = "if \<not> cf_audioConnected s
      then addCallDiagnostic (cx_stamp x) (js ''Audio connected'')
        ((clearCallTimeout s)\<lparr>cf_audioConnected := True, cu_state := CConnected, cu_startedAt := cx_now x\<rparr>) else s"
  obtain e where s': "s' = ?s1\<lparr>cf_epoch := e\<rparr>"
    using append_fields [OF assms(4) [unfolded handleAudio_def Let_def]] by blast
  have inc: "cu_incoming s = None" using assms by (auto simp: call_inv_def released_def)
  have "call_inv ?s1"
    using assms(1-3) inc by (auto simp: call_inv_def owned_def clearCallTimeout_def diag_bound)
  then show ?thesis using assms(2) by (auto simp: s' clearCallTimeout_def intro!: epoch_inv)
qed

lemma handleOffer_inv:
  assumes "call_inv s" "cc_state (cx_closure x) = cu_state s" "co_callId off \<noteq> []" "handleOffer x off s = (s', fx)"
  shows "call_inv s'"
  using assms by (auto simp: handleOffer_def call_inv_def owned_def released_def timer_defs diag_bound split: if_splits)

lemma handleCallEvent_inv:
  assumes "call_inv s" "cc_state (cx_closure x) = cu_state s" "cx_now x \<noteq> []"
    "call_ref_of ev = Some r" "cr_callId r \<noteq> []" "handleCallEvent x ev s = (s', fx)"
  shows "call_inv s'"
proof -
  note own = inv_owned [OF assms(1)]
  have ring: "cu_state s \<noteq> CRinging" if "cf_callId s \<noteq> []"
    using assms(1) that by (auto simp: call_inv_def released_def)
  show ?thesis
  proof (cases "(\<exists>off. ev = EvCallOffer off) \<or> cf_callId s = []")
    case True
    then show ?thesis
    proof
      assume "\<exists>off. ev = EvCallOffer off"
      then obtain off where ev: "ev = EvCallOffer off" by blast
      with assms have off: "co_callId off \<noteq> []" by auto
      show ?thesis using assms(1,6) handleOffer_inv [OF assms(1,2) off]
        by (auto simp: ev handleCallEvent_def split: if_splits)
    next
      assume "cf_callId s = []"
      then show ?thesis using assms
        by (auto simp: handleCallEvent_def split: if_splits realtime_event.splits dest: handleOffer_inv)
    qed
  next
    case False
    with assms own ring show ?thesis
      by (auto simp: handleCallEvent_def split: if_splits option.splits realtime_event.splits prod.splits
        intro: handleAnswer_inv handleAudio_inv cleanupCall_inv)
  qed
qed

lemma durationTick_inv: "call_inv s \<Longrightarrow> call_inv (durationTick dp ms c s)"
  by (auto simp: durationTick_def call_inv_def owned_def released_def)

lemma switchMic_inv:
  assumes "call_inv s" "switchMicBegin c s = Some i"
  shows "call_inv (switchMicMedia me stamp i media s)"
proof -
  have st: "cf_stream s \<noteq> None" using assms(2) by (auto simp: switchMicBegin_def split: if_splits)
  then have "cu_state s \<notin> {CIdle, CFailed, CRinging}" using assms(1) by (auto simp: call_inv_def released_def)
  moreover have "release (cf_stream s) (cf_openStreams s) = []" using assms(1) release_owned by (auto simp: call_inv_def owned_def)
  ultimately show ?thesis using assms(1)
    by (auto simp: switchMicMedia_def call_inv_def owned_def streaming_bound streaming_source split: sum.splits)
qed

lemma call_step_inv: "call_step s fx s' \<Longrightarrow> call_inv s \<Longrightarrow> call_inv s'"
proof (induction rule: call_step.induct)
  case (Start c s target stamp s1 fx1 peer callId now media s2 fx2)
  then have "cu_state s = CIdle" using startCallBegin_cases(1) by (auto simp: fresh_def)
  with Start(5) have "released s" "cu_incoming s = None" "cu_startedAt s = []"
    by (auto simp: call_inv_def released_def)
  with Start show ?case using startCallBegin_cases(2) [OF Start(2)] \<open>cu_state s = CIdle\<close>
    by (auto intro!: startCallMedia_inv [OF _ _ _ _ _ Start(3,4)] simp: released_def diag_bound)
next
  case (StartRefused c s target stamp s1 fx1)
  then show ?case by (auto simp: startCallBegin_def split: if_splits option.splits)
next
  case (Answer c s stamp s1 fx1 off me now media s2 fx2)
  then have off: "cu_incoming s = Some off" by (auto simp: fresh_def answerCallBegin_def split: option.splits)
  with Answer(4) have "released s" "cu_startedAt s = []" "co_callId off \<noteq> []"
    by (auto simp: call_inv_def released_def)
  with Answer(2) show ?case
    by (auto intro!: answerCallMedia_inv [OF _ _ _ _ _ Answer(3)]
      simp: answerCallBegin_def released_def diag_bound split: option.splits)
next
  case (Decline c s now s' fx)
  then show ?case by (auto simp: declineIncomingCall_def cleanupCall_def inv_owned cleanup_inv)
next
  case (Hangup c s now n s' fx)
  then show ?case by (auto simp: endCall_def cleanupCall_def inv_owned cleanup_inv)
next
  case (Timer now s s' fx) then show ?case by (blast intro: timerFired_inv)
next
  case (Event x s ev r s' fx)
  then show ?case by (auto simp: fresh_def intro: handleCallEvent_inv)
next
  case (Tick c s dp ms) then show ?case by (rule_tac durationTick_inv)
next
  case (Switch c s i me stamp media) then show ?case by (blast intro: switchMic_inv)
qed

lemma call_reachable_inv: "call_reachable s \<Longrightarrow> call_inv s"
proof (induction rule: call_reachable.induct)
  case Init
  show ?case by (auto simp: call_inv_def idle_call_def owned_def released_def)
qed (blast intro: call_step_inv)

section \<open>The phases of a call\<close>

fun phase_next :: "call_state \<Rightarrow> call_state set" where
  "phase_next CIdle = {CIdle, CCalling, CRinging, CFailed}"
| "phase_next CCalling = {CCalling, CConnecting, CConnected, CIdle, CFailed}"
| "phase_next CRinging = {CRinging, CConnecting, CIdle, CFailed}"
| "phase_next CConnecting = {CConnecting, CConnected, CIdle, CFailed}"
| "phase_next CConnected = {CConnected, CConnecting, CIdle}"
| "phase_next CFailed = {CFailed, CIdle}"

lemma cleanupCall_state: "cleanupCall c now n k s = (s', fx) \<Longrightarrow> cu_state s' = (if k then CFailed else CIdle)"
  by (auto simp: cleanupCall_def)

lemma media_failed_state: "media_failed c now n m s = (s', fx) \<Longrightarrow> cu_state s' = CFailed"
  by (auto simp: media_failed_def cleanupCall_def)

lemma startCallMedia_state: "startCallMedia c stamp now i peer media s = (s', fx) \<Longrightarrow> cu_state s' \<in> {CCalling, CFailed}"
  by (auto simp: startCallMedia_def Let_def timer_defs dest: media_failed_state split: media_result.splits)

lemma answerCallMedia_state:
  "answerCallMedia c me stamp now off media s = (s', fx) \<Longrightarrow> cu_state s' \<in> {cu_state s, CFailed}"
  by (auto simp: answerCallMedia_def Let_def timer_defs dest: media_failed_state split: media_result.splits)

lemma timerFired_state:
  "timerFired now s = (s', fx) \<Longrightarrow> cu_state s' = cu_state s
     \<or> (cu_state s' = CFailed \<and> (\<exists>t. cf_timer s = Some t \<and> timer_id t = cf_callId s))"
  by (auto simp: timerFired_def timer_defs cleanupCall_def Let_def split: option.splits call_timer.splits if_splits)

lemma handleCallEvent_state:
  "handleCallEvent x ev s = (s', fx) \<Longrightarrow>
     cu_state s' = cu_state s \<or> (cc_state (cx_closure x) = CIdle \<and> cu_state s' = CRinging)
     \<or> (\<exists>r. call_ref_of ev = Some r \<and> cr_callId r = cf_callId s) \<and> cu_state s' \<in> {CConnecting, CConnected, CIdle}"
  by (auto simp: handleCallEvent_def handleOffer_def handleAnswer_def handleAudio_def timer_defs Let_def
      dest: append_fields cleanupCall_state split: option.splits realtime_event.splits if_splits prod.splits)

lemma call_step_phase:
  assumes "call_inv s" "call_step s fx s'"
  shows "cu_state s' \<in> phase_next (cu_state s)"
  using assms(2,1)
proof cases
  case (Start c target stamp s1 fx1 peer callId now media fx2)
  then show ?thesis using startCallBegin_cases(1) [OF Start(3)] startCallMedia_state [OF Start(5)] by (auto simp: fresh_def)
next
  case (StartRefused c target stamp)
  then show ?thesis by (cases "cu_state s") (auto simp: startCallBegin_def split: if_splits option.splits)
next
  case (Answer c stamp s1 fx1 off me now media fx2)
  then have "cu_state s = CRinging" "cu_state s1 = CConnecting"
    using assms(1) by (auto simp: answerCallBegin_def fresh_def call_inv_def split: option.splits)
  then show ?thesis using answerCallMedia_state [OF Answer(4)] by auto
next
  case (Decline c now)
  then show ?thesis by (cases "cu_state s") (auto simp: declineIncomingCall_def cleanupCall_def)
next
  case (Hangup c now n)
  then show ?thesis by (cases "cu_state s") (auto simp: endCall_def cleanupCall_def)
next
  case (Timer now)
  from timerFired_state [OF Timer] assms(1) show ?thesis
    by (cases "cu_state s") (auto simp: call_inv_def released_def)
next
  case (Event x ev r)
  from handleCallEvent_state [OF Event(5)] Event(1,3,4) assms(1) show ?thesis
    by (cases "cu_state s") (auto simp: call_inv_def released_def fresh_def)
next
  case (Tick c dp ms)
  then show ?thesis by (cases "cu_state s") (auto simp: durationTick_def)
next
  case (Switch c i me stamp media)
  then show ?thesis by (cases "cu_state s") (auto simp: switchMicMedia_def split: sum.splits)
qed

section \<open>What is promised\<close>

text \<open>The closure of the render that shows state \<open>s\<close>.\<close>

definition render_of :: "call_closure \<Rightarrow> call_sys \<Rightarrow> call_closure" where
  "render_of c s = c\<lparr>cc_state := cu_state s, cc_incoming := cu_incoming s, cc_startedAt := cu_startedAt s, cc_duration := cu_duration s\<rparr>"

lemma render_of_fields [simp]:
  "cc_state (render_of c s) = cu_state s" "cc_incoming (render_of c s) = cu_incoming s"
  "cc_startedAt (render_of c s) = cu_startedAt s" "cc_identity (render_of c s) = cc_identity c"
  "cc_session (render_of c s) = cc_session c" "cc_room (render_of c s) = cc_room c" "cc_peers (render_of c s) = cc_peers c"
  "own_id (render_of c s) = own_id c" "fresh (render_of c s) s"
  by (simp_all add: render_of_def own_id_def fresh_def)

definition alice :: call_closure where
  "alice = \<lparr>cc_identity = Some (sample_identity\<lparr>iy_userId := js ''a''\<rparr>), cc_session = Some sample_session, cc_state = CIdle,
     cc_startedAt = [], cc_duration = 0, cc_room = js ''r'', cc_peers = [sample_identity\<lparr>iy_userId := js ''b''\<rparr>],
     cc_incoming = None\<rparr>"

definition bob :: call_closure where
  "bob = alice\<lparr>cc_identity := Some (sample_identity\<lparr>iy_userId := js ''b''\<rparr>),
     cc_peers := [sample_identity\<lparr>iy_userId := js ''a''\<rparr>]\<rparr>"

definition sample_offer :: call_offer where
  "sample_offer = \<lparr>co_callId = js ''i'', co_roomId = js ''r'', co_fromUserId = js ''a'', co_toUserId = js ''b'',
     co_displayName = js ''Ann''\<rparr>"

definition ctx_of :: "call_closure \<Rightarrow> jstr \<Rightarrow> call_ctx" where
  "ctx_of c now = \<lparr>cx_closure = c, cx_myUserID = nullish (own_id c) [], cx_stamp = [], cx_now = now, cx_clock = 0,
     cx_rateOk = (\<lambda>r. 0 < r)\<rparr>"

text \<open>C2. In every state the call reaches when its handlers see the current state, the streams
  and contexts that are open are the ones the refs hold, none is open while no call is under way,
  the offer shown and the state agree, a connected call has a start and no timer; and a step
  moves along the phases idle, calling or ringing, connecting, connected, idle or failed.\<close>

theorem call_phases:
  assumes "call_reachable s" "call_step s fx s'"
  shows "call_inv s' \<and> cu_state s' \<in> phase_next (cu_state s)"
  using call_reachable_inv [OF assms(1)] call_step_inv [OF assms(2)] call_step_phase [OF _ assms(2)] by blast

theorem call_phases_witness:
  "call_inv (fst (declineIncomingCall alice [] idle_call))
     \<and> cu_state (fst (declineIncomingCall alice [] idle_call)) \<in> phase_next (cu_state idle_call)"
proof (rule call_phases [OF Init])
  show "call_step idle_call (snd (declineIncomingCall alice [] idle_call)) (fst (declineIncomingCall alice [] idle_call))"
    by (rule Decline [of alice _ "[]"]) (simp_all add: fresh_def alice_def idle_call_def)
qed

lemma cleanup_idle: "call_inv s \<Longrightarrow> cleanup_state False s = idle_call"
  using release_owned inv_owned(1) by (auto simp: cleanup_state_def idle_call_def clearCallTimeout_def owned_def)

text \<open>Ending a call, from any state it reaches, brings the initial state back: streams and
  contexts closed, refs, timer, texts and diagnostics cleared.  Only the side that ends it writes
  to the room and tells the peer; the note says completed exactly when audio had started.\<close>

theorem call_end_restores_idle:
  assumes "call_reachable s" "cc_identity c = Some me" "cc_startedAt c = cu_startedAt s"
    "cf_callId s \<noteq> []" "cf_peerId s \<noteq> []" "cf_roomId s \<noteq> []" "cf_callerId s \<noteq> []" "iy_userId me \<noteq> []"
  shows "endCall c now False s = (idle_call, [])
    \<and> endCall c now True s = (idle_call,
        [CxSend (EvCallHangup \<lparr>cr_callId = cf_callId s, cr_roomId = cf_roomId s, cr_fromUserId = iy_userId me, cr_toUserId = cf_peerId s\<rparr>),
         CxApi (sendCallSystemMessage c now (cf_roomId s) (cf_callerId s)
           (if cf_callerId s = iy_userId me then cf_peerId s else iy_userId me)
           (if cf_audioConnected s then Completed else Missed) (cc_duration c) (nonempty (cu_startedAt s)))])"
  using assms call_reachable_inv [OF assms(1)] cleanup_idle [OF call_reachable_inv [OF assms(1)]]
  by (auto simp: endCall_def cleanupCall_def cleanup_effects_def own_id_def Let_def call_inv_def)

definition alice_calls :: call_sys where
  "alice_calls = fst (startCallMedia alice [] [] (js ''i'') (hd (cc_peers alice)) (MediaGranted 1 (Some 2))
     (fst (startCallBegin alice (js ''b'') [] idle_call)))"

lemma alice_calls_eq:
  "startCallBegin alice (js ''b'') [] idle_call = (fst (startCallBegin alice (js ''b'') [] idle_call), [CxGetUserMedia], Some (hd (cc_peers alice)))"
  by (simp add: alice_def idle_call_def startCallBegin_def)

lemma alice_calls_reachable: "call_reachable alice_calls"
proof (rule Step [OF Init Start [OF _ alice_calls_eq, of "js ''i''"]])
  show "fresh alice idle_call" by (simp add: fresh_def alice_def idle_call_def)
  show "startCallMedia alice [] [] (js ''i'') (hd (cc_peers alice)) (MediaGranted 1 (Some 2))
     (fst (startCallBegin alice (js ''b'') [] idle_call)) = (alice_calls, snd (startCallMedia alice [] [] (js ''i'')
       (hd (cc_peers alice)) (MediaGranted 1 (Some 2)) (fst (startCallBegin alice (js ''b'') [] idle_call))))"
    by (simp add: alice_calls_def)
qed simp

lemma alice_calls_fields:
  "cf_callId alice_calls = js ''i''" "cf_peerId alice_calls = js ''b''" "cf_roomId alice_calls = js ''r''"
  "cf_callerId alice_calls = js ''a''" "cu_startedAt alice_calls = []" "cf_audioConnected alice_calls = False"
  by (simp_all add: alice_calls_def startCallMedia_def startCallBegin_def alice_def idle_call_def Let_def timer_defs
      take_media_def own_id_def)

theorem call_end_restores_idle_witness:
  "endCall alice (js ''t'') True alice_calls = (idle_call,
      [CxSend (EvCallHangup \<lparr>cr_callId = js ''i'', cr_roomId = js ''r'', cr_fromUserId = js ''a'', cr_toUserId = js ''b''\<rparr>),
       CxApi (sendCallSystemMessage alice (js ''t'') (js ''r'') (js ''a'') (js ''b'') Missed 0 None)])"
  using call_end_restores_idle [OF alice_calls_reachable, of alice "sample_identity\<lparr>iy_userId := js ''a''\<rparr>" "js ''t''"]
  by (simp add: alice_calls_fields) (simp add: alice_def nonempty_def)

text \<open>An event of another call, of one's own echo or for somebody else changes nothing and sends
  nothing, whatever the closure; only an offer for this user may have another identifier.\<close>

theorem foreign_call_events_ignored:
  assumes "call_ref_of ev = Some r"
    "cr_toUserId r \<noteq> cx_myUserID x \<or> cr_fromUserId r = cx_myUserID x
       \<or> (cr_callId r \<noteq> cf_callId s \<and> (\<forall>off. ev \<noteq> EvCallOffer off))"
  shows "handleCallEvent x ev s = (s, [])"
  using assms by (auto simp: handleCallEvent_def split: realtime_event.splits)

theorem foreign_call_events_ignored_witness:
  "handleCallEvent (ctx_of bob []) (EvCallHangup \<lparr>cr_callId = js ''j'', cr_roomId = js ''r'', cr_fromUserId = js ''a'',
     cr_toUserId = js ''b''\<rparr>) idle_call = (idle_call, [])"
  by (rule foreign_call_events_ignored [OF call_ref_of.simps(5)]) (simp add: idle_call_def js_Nil_eq)

section \<open>Two parties\<close>

lemma own_id_Some: "cc_identity c = Some me \<Longrightarrow> own_id c = Some (iy_userId me)"
  by (simp add: own_id_def)

lemma ctx_of_fields [simp]:
  "cx_closure (ctx_of c now) = c" "cx_myUserID (ctx_of c now) = nullish (own_id c) []" "cx_now (ctx_of c now) = now"
  "cx_stamp (ctx_of c now) = []"
  by (simp_all add: ctx_of_def)

lemma cleanup_epoch [simp]: "cleanup_state k (s\<lparr>cf_epoch := e\<rparr>) = cleanup_state k s"
  by (simp add: cleanup_state_def clearCallTimeout_def)

fun sends :: "call_effect list \<Rightarrow> realtime_event list" where
  "sends [] = []"
| "sends (CxSend ev # fx) = ev # sends fx"
| "sends (_ # fx) = sends fx"

definition deliver :: "call_closure \<Rightarrow> jstr \<Rightarrow> realtime_event list \<Rightarrow> call_sys \<Rightarrow> call_sys" where
  "deliver c now evs s = fold (\<lambda>ev s. fst (handleCallEvent (ctx_of (render_of c s) now) ev s)) evs s"

text \<open>The caller's side of a call that is up to the answer, and what the answer and the sound make of it.\<close>

definition ready :: "call_state \<Rightarrow> jstr \<Rightarrow> jstr \<Rightarrow> jstr \<Rightarrow> jstr \<Rightarrow> bool \<Rightarrow> call_sys \<Rightarrow> bool" where
  "ready st i r caller peer up s = (call_inv s \<and> cu_state s = st \<and> cf_callId s = i \<and> cf_roomId s = r \<and> cf_callerId s = caller
     \<and> cf_peerId s = peer \<and> cf_audioConnected s = up \<and> i \<noteq> [])"

lemma ready_answer:
  assumes "ready CCalling i r ca p False s" "own_id c = Some me" "p \<noteq> me" "me \<noteq> []"
  shows "ready CConnecting i r ca p False (deliver c now [EvCallAnswer \<lparr>cr_callId = i, cr_roomId = r, cr_fromUserId = p, cr_toUserId = me\<rparr>] s)"
proof -
  have i: "cf_callId s = i" "i \<noteq> []" and inv: "call_inv s" and st: "cu_state s = CCalling"
    using assms(1) by (auto simp: ready_def)
  let ?x = "ctx_of (render_of c s) now"
  have "call_inv (handleAnswer ?x i s)" by (rule handleAnswer_inv) (use i inv st in auto)
  moreover have "deliver c now [EvCallAnswer \<lparr>cr_callId = i, cr_roomId = r, cr_fromUserId = p, cr_toUserId = me\<rparr>] s = handleAnswer ?x i s"
    using assms(2-4) i by (simp add: deliver_def handleCallEvent_def)
  ultimately show ?thesis using assms(1)
    by (simp add: ready_def) (simp add: handleAnswer_def Let_def timer_defs setupAudioPlayback_def startAudioStreaming_def)
qed

lemma ready_audio:
  assumes "ready CConnecting i r ca p False s" "own_id c = Some me" "p \<noteq> me" "me \<noteq> []" "now \<noteq> []"
  shows "ready CConnected i r ca p True (deliver c now [EvCallAudio \<lparr>cr_callId = i, cr_roomId = r, cr_fromUserId = p, cr_toUserId = me\<rparr> chunk sq] s)"
proof -
  have i: "cf_callId s = i" "i \<noteq> []" and inv: "call_inv s" using assms(1) by (auto simp: ready_def)
  let ?x = "ctx_of (render_of c s) now"
  obtain s' fx where a: "handleAudio ?x chunk sq s = (s', fx)" by fastforce
  have d: "deliver c now [EvCallAudio \<lparr>cr_callId = i, cr_roomId = r, cr_fromUserId = p, cr_toUserId = me\<rparr> chunk sq] s = s'"
    using assms(2-4) i a by (simp add: deliver_def handleCallEvent_def)
  have "call_inv s'" by (rule handleAudio_inv [OF inv _ _ a]) (use i assms(5) in auto)
  then show ?thesis using assms(1) append_fields [OF a [unfolded handleAudio_def Let_def]]
    by (auto simp: d ready_def clearCallTimeout_def)
qed

lemma ready_hangup:
  assumes "ready st i r ca p up s" "own_id c = Some me" "p \<noteq> me" "me \<noteq> []"
  shows "handleCallEvent (ctx_of (render_of c s) now) (EvCallHangup \<lparr>cr_callId = i, cr_roomId = r, cr_fromUserId = p, cr_toUserId = me\<rparr>) s = (idle_call, [])"
  using assms cleanup_idle by (auto simp: ready_def handleCallEvent_def cleanupCall_def cleanup_effects_def)

lemma ready_sound:
  assumes "ready st i r ca p up s"
  shows "\<exists>chunk. audioProcess me rate input sq s
    = Some (EvCallAudio \<lparr>cr_callId = i, cr_roomId = r, cr_fromUserId = me, cr_toUserId = p\<rparr> chunk (int sq))"
  using audioChunk_ok [of rate input] assms by (auto simp: audioProcess_def ready_def split: sum.splits)

lemma idle_call_inv: "call_inv idle_call"
  using call_reachable_inv [OF Init] .

lemma ready_start:
  assumes "cc_identity c = Some A" "cc_room c \<noteq> []" "callId \<noteq> []"
    "find (\<lambda>m. iy_userId m = p) (cc_peers c) = Some peer" "iy_userId peer = p"
    "startCallMedia (render_of c idle_call) [] now callId peer (MediaGranted st (Some cx))
      (fst (startCallBegin (render_of c idle_call) p [] idle_call)) = (s, fx)"
  shows "ready CCalling callId (cc_room c) (iy_userId A) p False s"
    "sends fx = [EvCallOffer \<lparr>co_callId = callId, co_roomId = cc_room c, co_fromUserId = iy_userId A, co_toUserId = p,
       co_displayName = iy_displayName A\<rparr>]"
proof -
  let ?s0 = "fst (startCallBegin (render_of c idle_call) p [] idle_call)"
  have idle: "cu_state idle_call = CIdle" by (simp add: idle_call_def)
  have s0: "?s0 = addCallDiagnostic [] (js ''Starting call'') (idle_call\<lparr>cu_diagnostics := []\<rparr>)"
    using assms(1-5) idle by (simp add: startCallBegin_def)
  have inv: "call_inv s"
    by (rule startCallMedia_inv [OF _ _ _ _ _ assms(3) assms(6) [unfolded s0]]) (simp_all add: idle_call_def released_def diag_bound)
  show "ready CCalling callId (cc_room c) (iy_userId A) p False s"
    using assms(6) [unfolded s0] inv
    by (auto simp: ready_def startCallMedia_def Let_def timer_defs own_id_Some [OF assms(1)] assms(3,5) take_media_def)
      (simp_all add: idle_call_def)
  show "sends fx = [EvCallOffer \<lparr>co_callId = callId, co_roomId = cc_room c, co_fromUserId = iy_userId A, co_toUserId = p,
       co_displayName = iy_displayName A\<rparr>]"
    using assms(1,5,6) by (auto simp: startCallMedia_def Let_def own_id_Some)
qed

lemma ring:
  assumes "own_id c = Some me" "me \<noteq> []" "co_toUserId off = me" "co_fromUserId off \<noteq> me" "co_callId off \<noteq> []"
  shows "cu_state (deliver c now [EvCallOffer off] idle_call) = CRinging"
    "cu_incoming (deliver c now [EvCallOffer off] idle_call) = Some off"
    "call_inv (deliver c now [EvCallOffer off] idle_call)"
proof -
  let ?x = "ctx_of (render_of c idle_call) now"
  have idle: "cu_state idle_call = CIdle" by (simp add: idle_call_def)
  have d: "deliver c now [EvCallOffer off] idle_call = fst (handleOffer ?x off idle_call)"
    using assms by (simp add: deliver_def handleCallEvent_def)
  show "call_inv (deliver c now [EvCallOffer off] idle_call)"
    unfolding d by (rule handleOffer_inv [OF idle_call_inv _ assms(5), of ?x]) (simp_all add: prod_eq_iff)
  show "cu_state (deliver c now [EvCallOffer off] idle_call) = CRinging"
    "cu_incoming (deliver c now [EvCallOffer off] idle_call) = Some off"
    using idle by (simp_all add: d handleOffer_def timer_defs)
qed

lemma ready_pickup:
  assumes "cc_identity c = Some B" "call_inv s0" "cu_incoming s0 = Some off"
    "answerCallMedia (render_of c s0) (iy_userId B) [] now off (MediaGranted st (Some cx))
      (fst (answerCallBegin (render_of c s0) [] s0)) = (s, fx)"
  shows "ready CConnecting (co_callId off) (co_roomId off) (co_fromUserId off) (co_fromUserId off) False s"
    "sends fx = [EvCallAnswer \<lparr>cr_callId = co_callId off, cr_roomId = co_roomId off, cr_fromUserId = iy_userId B,
       cr_toUserId = co_fromUserId off\<rparr>]"
proof -
  let ?s1 = "fst (answerCallBegin (render_of c s0) [] s0)"
  have s1: "?s1 = addCallDiagnostic [] (js ''Answering call'') (s0\<lparr>cu_state := CConnecting\<rparr>)"
    using assms(1,3) by (simp add: answerCallBegin_def)
  have r: "released s0" "cu_startedAt s0 = []" "co_callId off \<noteq> []"
    using assms(2,3) by (auto simp: call_inv_def released_def)
  have inv: "call_inv s"
    by (rule answerCallMedia_inv [OF _ _ _ _ r(3) assms(4)]) (use r in \<open>simp_all add: s1 released_def diag_bound\<close>)
  have n: "\<not> cf_audioConnected s0" using r(1) by (simp add: released_def)
  show "ready CConnecting (co_callId off) (co_roomId off) (co_fromUserId off) (co_fromUserId off) False s"
    using assms(4) inv r n by (auto simp: ready_def answerCallMedia_def Let_def timer_defs s1)
  show "sends fx = [EvCallAnswer \<lparr>cr_callId = co_callId off, cr_roomId = co_roomId off, cr_fromUserId = iy_userId B,
       cr_toUserId = co_fromUserId off\<rparr>]"
    using assms(1,4) by (auto simp: answerCallMedia_def Let_def own_id_Some)
qed

text \<open>C9. The handshake of two users: the offer a caller sends makes the idle peer ring; the answer
  of the peer makes both connect; the first block of sound each sends makes the other connected;
  and the hangup of the caller brings both back to the initial state, with nothing sent by the callee.\<close>

theorem call_handshake:
  assumes "cc_identity ca = Some A" "cc_identity cb = Some B" "iy_userId A \<noteq> iy_userId B" "iy_userId A \<noteq> []" "iy_userId B \<noteq> []"
    "cc_room ca \<noteq> []" "callId \<noteq> []" "find (\<lambda>m. iy_userId m = iy_userId B) (cc_peers ca) = Some peer" "now \<noteq> []"
  shows "let (a1, fxa) = startCallMedia (render_of ca idle_call) [] now callId peer (MediaGranted ma (Some xa))
        (fst (startCallBegin (render_of ca idle_call) (iy_userId B) [] idle_call));
      b1 = deliver cb now (sends fxa) idle_call;
      (b2, fxb) = answerCallMedia (render_of cb b1) (iy_userId B) [] now (the (cu_incoming b1)) (MediaGranted mb (Some xb))
        (fst (answerCallBegin (render_of cb b1) [] b1));
      a2 = deliver ca now (sends fxb) a1;
      a3 = deliver ca now [the (audioProcess (iy_userId B) rate input 0 b2)] a2;
      b3 = deliver cb now [the (audioProcess (iy_userId A) rate input 0 a3)] b2;
      (a4, fxe) = endCall (render_of ca a3) now True a3
    in map cu_state [a1, b1, b2, a2, a3, b3] = [CCalling, CRinging, CConnecting, CConnecting, CConnected, CConnected]
       \<and> a4 = idle_call
       \<and> map (\<lambda>ev. handleCallEvent (ctx_of (render_of cb b3) now) ev b3) (sends fxe) = [(idle_call, [])]"
proof -
  let ?A = "iy_userId A" and ?B = "iy_userId B" and ?r = "cc_room ca"
  note oa = own_id_Some [OF assms(1)] and ob = own_id_Some [OF assms(2)]
  obtain a1 fxa where m1: "startCallMedia (render_of ca idle_call) [] now callId peer (MediaGranted ma (Some xa))
        (fst (startCallBegin (render_of ca idle_call) ?B [] idle_call)) = (a1, fxa)" by fastforce
  have peer: "iy_userId peer = ?B" using assms(8) by (auto simp: find_Some_iff)
  note r1 = ready_start [OF assms(1,6,7,8) peer m1]
  define off where "off = \<lparr>co_callId = callId, co_roomId = ?r, co_fromUserId = ?A, co_toUserId = ?B, co_displayName = iy_displayName A\<rparr>"
  define b1 where "b1 = deliver cb now (sends fxa) idle_call"
  have b1: "cu_state b1 = CRinging" "cu_incoming b1 = Some off" "call_inv b1"
    using ring [OF ob, of off now] assms(3,5,7) by (simp_all add: b1_def r1(2) off_def [symmetric]) (simp_all add: off_def)
  obtain b2 fxb where m2: "answerCallMedia (render_of cb b1) ?B [] now off (MediaGranted mb (Some xb))
        (fst (answerCallBegin (render_of cb b1) [] b1)) = (b2, fxb)" by fastforce
  note r2 = ready_pickup [OF assms(2) b1(3,2) m2]
  define a2 where "a2 = deliver ca now (sends fxb) a1"
  have a2: "ready CConnecting callId ?r ?A ?B False a2"
    using ready_answer [OF r1(1) oa] assms(3,4) by (simp add: a2_def r2(2)) (simp add: off_def)
  obtain cb' where sb: "audioProcess ?B rate input 0 b2
      = Some (EvCallAudio \<lparr>cr_callId = callId, cr_roomId = ?r, cr_fromUserId = ?B, cr_toUserId = ?A\<rparr> cb' 0)"
    using ready_sound [OF r2(1), of ?B rate input 0] by (auto simp: off_def)
  define a3 where "a3 = deliver ca now [the (audioProcess ?B rate input 0 b2)] a2"
  have a3: "ready CConnected callId ?r ?A ?B True a3"
    using ready_audio [OF a2 oa] assms(3,4,9) by (simp add: a3_def sb)
  obtain ca' where sa: "audioProcess ?A rate input 0 a3
      = Some (EvCallAudio \<lparr>cr_callId = callId, cr_roomId = ?r, cr_fromUserId = ?A, cr_toUserId = ?B\<rparr> ca' 0)"
    using ready_sound [OF a3, of ?A rate input 0] by auto
  define b3 where "b3 = deliver cb now [the (audioProcess ?A rate input 0 a3)] b2"
  have b3: "ready CConnected callId ?r ?A ?A True b3"
    using ready_audio [OF r2(1) ob, of now] assms(3,5,9) by (simp add: b3_def sa off_def)
  have e: "endCall (render_of ca a3) now True a3 = (idle_call, snd (endCall (render_of ca a3) now True a3))"
    using a3 cleanup_idle by (simp add: endCall_def cleanupCall_def ready_def)
  have h: "sends (snd (endCall (render_of ca a3) now True a3))
      = [EvCallHangup \<lparr>cr_callId = callId, cr_roomId = ?r, cr_fromUserId = ?A, cr_toUserId = ?B\<rparr>]"
    using a3 assms(1,5,6) oa by (simp add: endCall_def cleanupCall_def cleanup_effects_def Let_def ready_def)
  have fin: "map (\<lambda>ev. handleCallEvent (ctx_of (render_of cb b3) now) ev b3) (sends (snd (endCall (render_of ca a3) now True a3)))
      = [(idle_call, [])]"
    using ready_hangup [OF b3 ob assms(3) assms(5)] by (simp add: h)
  have st: "map cu_state [a1, b1, b2, a2, a3, b3] = [CCalling, CRinging, CConnecting, CConnecting, CConnected, CConnected]"
    using r1(1) b1(1) r2(1) a2 a3 b3 by (simp add: ready_def)
  show ?thesis
    unfolding Let_def m1 prod.case b1_def [symmetric] b1(2) option.sel m2 a2_def [symmetric] a3_def [symmetric]
      b3_def [symmetric] by (subst e) (simp only: prod.case st fin)
qed

theorem call_handshake_witness:
  "let (a1, fxa) = startCallMedia (render_of alice idle_call) [] (js ''t'') (js ''i'') (hd (cc_peers alice)) (MediaGranted 1 (Some 2))
        (fst (startCallBegin (render_of alice idle_call) (iy_userId (sample_identity\<lparr>iy_userId := js ''b''\<rparr>)) [] idle_call));
      b1 = deliver bob (js ''t'') (sends fxa) idle_call;
      (b2, fxb) = answerCallMedia (render_of bob b1) (iy_userId (sample_identity\<lparr>iy_userId := js ''b''\<rparr>)) [] (js ''t'')
        (the (cu_incoming b1)) (MediaGranted 3 (Some 4)) (fst (answerCallBegin (render_of bob b1) [] b1));
      a2 = deliver alice (js ''t'') (sends fxb) a1;
      a3 = deliver alice (js ''t'') [the (audioProcess (iy_userId (sample_identity\<lparr>iy_userId := js ''b''\<rparr>)) 48000 [1 / 2] 0 b2)] a2;
      b3 = deliver bob (js ''t'') [the (audioProcess (iy_userId (sample_identity\<lparr>iy_userId := js ''a''\<rparr>)) 48000 [1 / 2] 0 a3)] b2;
      (a4, fxe) = endCall (render_of alice a3) (js ''t'') True a3
    in map cu_state [a1, b1, b2, a2, a3, b3] = [CCalling, CRinging, CConnecting, CConnecting, CConnected, CConnected]
       \<and> a4 = idle_call
       \<and> map (\<lambda>ev. handleCallEvent (ctx_of (render_of bob b3) (js ''t'')) ev b3) (sends fxe) = [(idle_call, [])]"
  by (rule call_handshake) (simp_all add: alice_def bob_def)

section \<open>Orderings the code does not handle\<close>

text \<open>C37. A phone that rings goes on ringing when the caller gives up: the caller's hangup is compared
  with the identifier of the call under way, which ringing does not set, and so is the expiry of
  the timer that was armed for the answer, after which no timer is left.\<close>

theorem ringing_never_stops:
  assumes "call_reachable s" "cu_state s = CRinging" "cr_callId r \<noteq> []" "cr_callId r = co_callId (the (cu_incoming s))"
  shows "handleCallEvent x (EvCallHangup r) s = (s, [])
    \<and> cu_state (fst (timerFired now s)) = CRinging \<and> cf_timer (fst (timerFired now s)) = None \<and> snd (timerFired now s) = []"
proof -
  have inv: "call_inv s" using call_reachable_inv [OF assms(1)] .
  then have i: "cf_callId s = []" "\<And>t. cf_timer s = Some t \<Longrightarrow> timer_id t \<noteq> []"
    using assms(2) by (auto simp: call_inv_def released_def)
  have "cu_state (fst (timerFired now s)) = CRinging \<and> cf_timer (fst (timerFired now s)) = None \<and> snd (timerFired now s) = []"
    using assms(2) i by (auto simp: timerFired_def timer_defs Let_def split: option.splits call_timer.splits)
  then show ?thesis using i assms(3) by (auto simp: handleCallEvent_def)
qed

definition bob_rings :: call_sys where
  "bob_rings = fst (handleCallEvent (ctx_of bob (js ''t'')) (EvCallOffer sample_offer) idle_call)"

lemma bob_rings_reachable: "call_reachable bob_rings"
  by (rule Step [OF Init Event [of "ctx_of bob (js ''t'')" _ "EvCallOffer sample_offer", OF _ _ call_ref_of.simps(1)]])
    (simp_all add: bob_rings_def prod_eq_iff, simp_all add: fresh_def bob_def alice_def idle_call_def sample_offer_def)

lemma bob_rings_fields: "cu_state bob_rings = CRinging" "cu_incoming bob_rings = Some sample_offer"
  by (simp_all add: bob_rings_def handleCallEvent_def handleOffer_def bob_def alice_def sample_offer_def own_id_def timer_defs)

theorem ringing_never_stops_witness:
  "handleCallEvent (ctx_of bob []) (EvCallHangup \<lparr>cr_callId = js ''i'', cr_roomId = js ''r'', cr_fromUserId = js ''a'',
     cr_toUserId = js ''b''\<rparr>) bob_rings = (bob_rings, [])"
  by (rule ringing_never_stops [THEN conjunct1, OF bob_rings_reachable bob_rings_fields(1)])
    (simp_all add: bob_rings_fields sample_offer_def)

text \<open>The socket's handlers are those of the render that opened it, when no call was under way.
  With that closure an offer that arrives during a call, for instance a second one, is not refused as busy: it shows
  ringing and replaces the timer, while the call it hides keeps its identifier, microphone and sound.\<close>

theorem stale_offer_hides_call:
  assumes "cc_state (cx_closure x) = CIdle" "cx_myUserID x \<noteq> []" "co_toUserId off = cx_myUserID x" "co_fromUserId off \<noteq> cx_myUserID x"
  shows "let (s', fx) = handleCallEvent x (EvCallOffer off) s in
     fx = [] \<and> cu_state s' = CRinging \<and> cu_incoming s' = Some off
     \<and> cf_timer s' = Some (AnswerTimer (cx_closure x) (co_callId off) (co_fromUserId off) (co_roomId off))
     \<and> cf_callId s' = cf_callId s \<and> cf_openStreams s' = cf_openStreams s \<and> cf_source s' = cf_source s"
  using assms by (simp add: handleCallEvent_def handleOffer_def timer_defs)

definition late_offer :: call_offer where
  "late_offer = sample_offer\<lparr>co_fromUserId := js ''c'', co_toUserId := js ''a''\<rparr>"

theorem stale_offer_hides_call_witness:
  "let (s', fx) = handleCallEvent (ctx_of alice []) (EvCallOffer late_offer) alice_calls in
     fx = [] \<and> cu_state s' = CRinging \<and> cu_incoming s' = Some late_offer
     \<and> cf_timer s' = Some (AnswerTimer (cx_closure (ctx_of alice [])) (co_callId late_offer) (co_fromUserId late_offer) (co_roomId late_offer))
     \<and> cf_callId s' = cf_callId alice_calls \<and> cf_openStreams s' = cf_openStreams alice_calls \<and> cf_source s' = cf_source alice_calls"
  by (rule stale_offer_hides_call) (simp_all add: alice_def own_id_def late_offer_def sample_offer_def)

text \<open>C38. A user who hangs up while the browser still asks for the microphone gets the initial state at
  once; when the permission then arrives, the answer is sent and the microphone opens all the
  same, with the state shown still idle.\<close>

theorem hangup_while_answering:
  assumes "call_reachable s" "cu_incoming s = Some off" "cc_identity c = Some B"
  shows "let c0 = render_of c s;
      s1 = fst (answerCallBegin c0 stamp s);
      s2 = fst (endCall (render_of c s1) now True s1);
      (s3, fx) = answerCallMedia c0 (iy_userId B) stamp now off (MediaGranted st (Some cx)) s2
    in s2 = idle_call \<and> cu_state s3 = CIdle \<and> st \<in> set (cf_openStreams s3) \<and> cf_callId s3 = co_callId off
       \<and> sends fx = [EvCallAnswer \<lparr>cr_callId = co_callId off, cr_roomId = co_roomId off, cr_fromUserId = iy_userId B,
           cr_toUserId = co_fromUserId off\<rparr>]"
proof -
  let ?s1 = "fst (answerCallBegin (render_of c s) stamp s)"
  have s1: "?s1 = addCallDiagnostic stamp (js ''Answering call'') (s\<lparr>cu_state := CConnecting\<rparr>)"
    using assms by (simp add: answerCallBegin_def)
  have "cleanup_state False ?s1 = cleanup_state False s"
    by (simp add: s1 addCallDiagnostic_def cleanup_state_def clearCallTimeout_def)
  then have s2: "fst (endCall (render_of c ?s1) now True ?s1) = idle_call"
    using cleanup_idle call_reachable_inv [OF assms(1)] by (simp add: endCall_def cleanupCall_def)
  have idle: "cu_state idle_call = CIdle" by (simp add: idle_call_def)
  show ?thesis
    unfolding Let_def s2 by (simp add: answerCallMedia_def Let_def timer_defs idle own_id_Some [OF assms(3)])
      (simp add: take_media_def Let_def)
qed

theorem hangup_while_answering_witness:
  "let c0 = render_of bob bob_rings;
      s1 = fst (answerCallBegin c0 [] bob_rings);
      s2 = fst (endCall (render_of bob s1) [] True s1);
      (s3, fx) = answerCallMedia c0 (iy_userId (sample_identity\<lparr>iy_userId := js ''b''\<rparr>)) [] [] sample_offer (MediaGranted 1 (Some 2)) s2
    in s2 = idle_call \<and> cu_state s3 = CIdle \<and> 1 \<in> set (cf_openStreams s3) \<and> cf_callId s3 = co_callId sample_offer
       \<and> sends fx = [EvCallAnswer \<lparr>cr_callId = co_callId sample_offer, cr_roomId = co_roomId sample_offer,
           cr_fromUserId = iy_userId (sample_identity\<lparr>iy_userId := js ''b''\<rparr>), cr_toUserId = co_fromUserId sample_offer\<rparr>]"
  by (rule hangup_while_answering [OF bob_rings_reachable bob_rings_fields(2)]) (simp add: bob_def)

end
