(* ===== verification/Sockets.thy ===== *)
theory Sockets
  imports MessageState
begin

text \<open>
  The connection of \<open>components/MessengerApp.tsx\<close> (\<open>connectWS\<close>, the handlers it hangs on the
  socket, its effect and the reconnect timer) as a state machine over numbered sockets, and the
  connection part of \<open>hooks/useWebSocket.ts\<close>, which is written the same way.  A socket keeps
  the room and the session of the closure that made it.
\<close>

section \<open>State\<close>

datatype live_status = Connecting | Connected | Disconnected

record ws_sys =
  ws_ref :: "nat option"
  ws_timer :: "(jstr \<times> auth_session) option"
  ws_open :: "nat list"
  ws_ready :: "nat list"
  ws_conn :: "nat \<Rightarrow> (jstr \<times> auth_session) option"
  ws_next :: nat
  ws_live :: live_status

definition no_socket :: ws_sys where
  "no_socket = \<lparr>ws_ref = None, ws_timer = None, ws_open = [], ws_ready = [], ws_conn = (\<lambda>_. None), ws_next = 0,
     ws_live = Disconnected\<rparr>"

definition user_topic :: "jstr \<Rightarrow> jstr" where
  "user_topic u = js ''user:'' @ u"

definition room_topic :: "jstr \<Rightarrow> jstr" where
  "room_topic r = js ''room:'' @ r"

text \<open>The topics of the URL's query.\<close>

definition ws_topics :: "jstr \<Rightarrow> jstr \<Rightarrow> jstr list" where
  "ws_topics userID roomID = user_topic userID # (if roomID \<noteq> [] then [room_topic roomID] else [])"

section \<open>Operations\<close>

text \<open>\<open>close()\<close> leaves the open states at once; the close event comes later.\<close>

definition ws_close :: "nat option \<Rightarrow> ws_sys \<Rightarrow> ws_sys" where
  "ws_close r s = (case r of None \<Rightarrow> s
     | Some n \<Rightarrow> s\<lparr>ws_open := removeAll n (ws_open s), ws_ready := removeAll n (ws_ready s)\<rparr>)"

definition dropSocket :: "ws_sys \<Rightarrow> ws_sys" where
  "dropSocket s = ws_close (ws_ref s) (s\<lparr>ws_ref := None\<rparr>)"

definition connectWS :: "auth_session option \<Rightarrow> jstr \<Rightarrow> ws_sys \<Rightarrow> ws_sys" where
  "connectWS session roomID s =
     (case session of
        None \<Rightarrow> s
      | Some a \<Rightarrow>
          if pr_userId (as_principal a) = [] then s
          else (let s1 = dropSocket (s\<lparr>ws_timer := None\<rparr>);
                    n = ws_next s1
                in s1\<lparr>ws_ref := Some n, ws_open := n # ws_open s1, ws_conn := (ws_conn s1)(n := Some (roomID, a)),
                      ws_next := Suc n, ws_live := Connecting\<rparr>))"

definition ws_onopen :: "nat \<Rightarrow> ws_sys \<Rightarrow> ws_sys" where
  "ws_onopen n s = s\<lparr>ws_ready := n # ws_ready s, ws_live := Connected\<rparr>"

definition ws_onerror :: "nat \<Rightarrow> ws_sys \<Rightarrow> ws_sys" where
  "ws_onerror n s = (if ws_ref s = Some n then s\<lparr>ws_live := Disconnected\<rparr> else s)"

definition ws_onclose :: "nat \<Rightarrow> ws_sys \<Rightarrow> ws_sys" where
  "ws_onclose n s =
     (let s1 = (if ws_ref s = Some n then s\<lparr>ws_live := Disconnected\<rparr> else s)
      in case ws_conn s n of
           None \<Rightarrow> s1
         | Some (roomID, a) \<Rightarrow>
             if as_accessToken a = [] \<or> ws_ref s1 \<noteq> Some n then s1 else s1\<lparr>ws_timer := Some (roomID, a)\<rparr>)"

definition ws_reconnect :: "ws_sys \<Rightarrow> ws_sys" where
  "ws_reconnect s = (case ws_timer s of None \<Rightarrow> s | Some (roomID, a) \<Rightarrow> connectWS (Some a) roomID s)"

definition ws_cleanup :: "ws_sys \<Rightarrow> ws_sys" where
  "ws_cleanup s = dropSocket (s\<lparr>ws_timer := None\<rparr>)"

text \<open>The effect on the room and the user: the cleanup of the last run, then the connection.\<close>

definition ws_effect :: "auth_session option \<Rightarrow> jstr \<Rightarrow> ws_sys \<Rightarrow> ws_sys" where
  "ws_effect session roomID s = connectWS session roomID (ws_cleanup s)"

definition ws_can_send :: "ws_sys \<Rightarrow> bool" where
  "ws_can_send s = (case ws_ref s of None \<Rightarrow> False | Some n \<Rightarrow> n \<in> set (ws_ready s))"

section \<open>The system\<close>

inductive ws_step :: "ws_sys \<Rightarrow> ws_sys \<Rightarrow> bool" where
  Effect: "ws_step s (ws_effect session roomID s)"
| Opens: "n \<in> set (ws_open s) \<Longrightarrow> ws_step s (ws_onopen n s)"
| Fails: "ws_step s (ws_onerror n s)"
| Drops: "n \<in> set (ws_open s) \<Longrightarrow> ws_step s (ws_onclose n (ws_close (Some n) s))"
| Closed: "n \<notin> set (ws_open s) \<Longrightarrow> ws_step s (ws_onclose n s)"
| Reconnects: "ws_timer s \<noteq> None \<Longrightarrow> ws_step s (ws_reconnect s)"
| Expires: "ws_step s (dropSocket s)"
| LogsOut: "ws_step s (ws_close (ws_ref s) s)"

inductive ws_reachable :: "ws_sys \<Rightarrow> bool" where
  Init: "ws_reachable no_socket"
| Step: "ws_reachable s \<Longrightarrow> ws_step s s' \<Longrightarrow> ws_reachable s'"

definition ws_inv :: "ws_sys \<Rightarrow> bool" where
  "ws_inv s = (set (ws_open s) \<subseteq> set_option (ws_ref s) \<and> set (ws_ready s) \<subseteq> set (ws_open s) \<and> distinct (ws_open s)
     \<and> (ws_timer s \<noteq> None \<longrightarrow> ws_open s = [])
     \<and> (\<forall>n. ws_ref s = Some n \<longrightarrow> n < ws_next s \<and> ws_conn s n \<noteq> None))"

lemma dropSocket_inv: "ws_inv s \<Longrightarrow> ws_inv (dropSocket s) \<and> ws_open (dropSocket s) = [] \<and> ws_ready (dropSocket s) = []"
  by (auto simp: ws_inv_def dropSocket_def ws_close_def removeAll_filter_not_eq filter_empty_conv split: option.splits)

lemma ws_inv_timer: "ws_inv s \<Longrightarrow> ws_inv (s\<lparr>ws_timer := None\<rparr>)"
  by (simp add: ws_inv_def)

lemma dropSocket_next [simp]: "ws_next (dropSocket s) = ws_next s" "ws_timer (dropSocket s) = ws_timer s" "ws_ref (dropSocket s) = None"
  by (auto simp: dropSocket_def ws_close_def split: option.splits)

lemma connectWS_Some:
  assumes "ws_inv s" "pr_userId (as_principal a) \<noteq> []"
  shows "ws_open (connectWS (Some a) roomID s) = [ws_next s]" "ws_ref (connectWS (Some a) roomID s) = Some (ws_next s)"
    "ws_conn (connectWS (Some a) roomID s) (ws_next s) = Some (roomID, a)" "ws_timer (connectWS (Some a) roomID s) = None"
    "ws_ready (connectWS (Some a) roomID s) = []" "ws_next (connectWS (Some a) roomID s) = Suc (ws_next s)"
  using assms dropSocket_inv [OF ws_inv_timer [OF assms(1)]] by (simp_all add: connectWS_def Let_def)

lemma connectWS_inv: "ws_inv s \<Longrightarrow> ws_inv (connectWS session roomID s)"
proof (cases "session = None \<or> pr_userId (as_principal (the session)) = []")
  case True
  assume "ws_inv s" with True show ?thesis by (auto simp: connectWS_def split: option.splits)
next
  case False
  assume inv: "ws_inv s"
  from False obtain a where a: "session = Some a" "pr_userId (as_principal a) \<noteq> []" by auto
  show ?thesis using connectWS_Some [OF inv a(2), of roomID] by (simp add: ws_inv_def a(1))
qed

lemma ws_close_inv: "ws_inv s \<Longrightarrow> ws_inv (ws_close r s)"
  by (auto simp: ws_inv_def ws_close_def distinct_removeAll split: option.splits)

lemma ws_onclose_inv:
  assumes "ws_inv s" "n \<notin> set (ws_open s)"
  shows "ws_inv (ws_onclose n s)"
proof -
  have "ws_open s = []" if "ws_ref s = Some n"
    using assms that by (cases "ws_open s") (auto simp: ws_inv_def)
  then show ?thesis using assms(1)
    by (cases "ws_ref s = Some n") (auto simp: ws_onclose_def ws_inv_def Let_def split: option.splits)
qed

lemma ws_step_inv: "ws_step s s' \<Longrightarrow> ws_inv s \<Longrightarrow> ws_inv s'"
proof (induction rule: ws_step.induct)
  case (Effect s session roomID)
  then show ?case by (simp add: ws_effect_def ws_cleanup_def connectWS_inv dropSocket_inv ws_inv_timer)
next
  case (Opens n s) then show ?case by (auto simp: ws_onopen_def ws_inv_def)
next
  case (Fails s n) then show ?case by (auto simp: ws_onerror_def ws_inv_def)
next
  case (Drops n s)
  then have "n \<notin> set (ws_open (ws_close (Some n) s))" by (simp add: ws_close_def)
  with Drops show ?case by (simp add: ws_onclose_inv ws_close_inv)
next
  case (Closed n s) then show ?case by (simp add: ws_onclose_inv)
next
  case (Reconnects s)
  then show ?case by (auto simp: ws_reconnect_def connectWS_inv split: option.splits)
next
  case (Expires s) then show ?case by (simp add: dropSocket_inv)
next
  case (LogsOut s) then show ?case by (simp add: ws_close_inv)
qed

lemma ws_reachable_inv: "ws_reachable s \<Longrightarrow> ws_inv s"
  by (induction rule: ws_reachable.induct) (simp add: ws_inv_def no_socket_def, blast intro: ws_step_inv)

text \<open>C5. Whatever the order of renders, opens, errors, closes, timers, expiry and logout: at most one
  connection is open, it is the one the ref names, messages go out on it alone, and a reconnect is
  pending only when none is open.\<close>

theorem single_connection:
  assumes "ws_reachable s"
  shows "length (ws_open s) \<le> 1 \<and> (\<forall>n \<in> set (ws_open s). ws_ref s = Some n) \<and> set (ws_ready s) \<subseteq> set (ws_open s)
    \<and> (ws_can_send s \<longrightarrow> ws_timer s = None) \<and> (ws_timer s \<noteq> None \<longrightarrow> ws_open s = [])"
proof -
  have inv: "ws_inv s" using ws_reachable_inv [OF assms] .
  have "length (ws_open s) \<le> 1"
  proof -
    have "card (set (ws_open s)) \<le> card (set_option (ws_ref s))"
      using inv by (intro card_mono) (auto simp: ws_inv_def)
    also have "\<dots> \<le> 1" by (cases "ws_ref s") auto
    finally show ?thesis using inv by (simp add: ws_inv_def distinct_card)
  qed
  moreover have "ws_open s \<noteq> []" if "ws_can_send s"
    using that inv by (auto simp: ws_can_send_def ws_inv_def split: option.splits)
  ultimately show ?thesis using inv by (cases "ws_timer s") (auto simp: ws_inv_def)
qed

lemma sample_connected: "ws_reachable (ws_onopen 0 (ws_effect (Some sample_session) (js ''r'') no_socket))"
proof (rule ws_reachable.Step [OF ws_reachable.Step [OF ws_reachable.Init ws_step.Effect] ws_step.Opens])
  show "0 \<in> set (ws_open (ws_effect (Some sample_session) (js ''r'') no_socket))"
    by (simp add: ws_effect_def ws_cleanup_def connectWS_def dropSocket_def ws_close_def sample_session_def no_socket_def)
qed

theorem single_connection_witness:
  "length (ws_open (ws_onopen 0 (ws_effect (Some sample_session) (js ''r'') no_socket))) \<le> 1"
  using single_connection [OF sample_connected] by blast

text \<open>A room or user change leaves one connection, of the new room and user, and no reconnect; a
  connection the server drops is made again by the timer for the same room and session, and
  without a user the change leaves neither connection nor timer.\<close>

theorem connection_follows_room:
  assumes "ws_reachable s" "pr_userId (as_principal a) \<noteq> []" "as_accessToken a \<noteq> []"
  shows "let s1 = ws_effect (Some a) roomID s; n = ws_next s;
      s2 = ws_onclose n (ws_close (Some n) s1);
      s3 = ws_reconnect s2
    in ws_open s1 = [n] \<and> ws_conn s1 n = Some (roomID, a) \<and> ws_timer s1 = None
       \<and> ws_open s2 = [] \<and> ws_timer s2 = Some (roomID, a)
       \<and> ws_open s3 = [Suc n] \<and> ws_conn s3 (Suc n) = Some (roomID, a) \<and> ws_timer s3 = None
       \<and> ws_open (ws_effect None roomID s) = [] \<and> ws_timer (ws_effect None roomID s) = None"
proof -
  let ?s1 = "ws_effect (Some a) roomID s" and ?n = "ws_next s"
  have inv: "ws_inv s" using ws_reachable_inv [OF assms(1)] .
  have c: "ws_inv (ws_cleanup s)" "ws_open (ws_cleanup s) = []" "ws_next (ws_cleanup s) = ?n" "ws_timer (ws_cleanup s) = None"
    using dropSocket_inv [OF ws_inv_timer [OF inv]] by (simp_all add: ws_cleanup_def)
  note s1 = connectWS_Some [OF c(1) assms(2), of roomID, folded ws_effect_def, unfolded c(3)]
  let ?s2 = "ws_onclose ?n (ws_close (Some ?n) ?s1)"
  have s2: "ws_open ?s2 = []" "ws_timer ?s2 = Some (roomID, a)" "ws_next ?s2 = Suc ?n"
    using s1 assms(3) by (simp_all add: ws_onclose_def ws_close_def Let_def)
  have i2: "ws_inv ?s2"
    using s1 by (auto intro!: ws_onclose_inv ws_close_inv connectWS_inv simp: c(1) ws_effect_def) (simp add: ws_close_def)
  note s3 = connectWS_Some [OF i2 assms(2), of roomID, unfolded s2(3)]
  show ?thesis using s1 s2 s3 c by (simp add: Let_def ws_reconnect_def) (simp add: ws_effect_def connectWS_def)
qed

theorem connection_follows_room_witness:
  "let s1 = ws_effect (Some sample_session) (js ''r'') no_socket; n = ws_next no_socket;
      s2 = ws_onclose n (ws_close (Some n) s1);
      s3 = ws_reconnect s2
    in ws_open s1 = [n] \<and> ws_conn s1 n = Some (js ''r'', sample_session) \<and> ws_timer s1 = None
       \<and> ws_open s2 = [] \<and> ws_timer s2 = Some (js ''r'', sample_session)
       \<and> ws_open s3 = [Suc n] \<and> ws_conn s3 (Suc n) = Some (js ''r'', sample_session) \<and> ws_timer s3 = None
       \<and> ws_open (ws_effect None (js ''r'') no_socket) = [] \<and> ws_timer (ws_effect None (js ''r'') no_socket) = None"
  by (rule connection_follows_room [OF ws_reachable.Init]) (simp_all add: sample_session_def)

end
