(* ===== verification/App.thy ===== *)
theory App
  imports Calls Sockets
begin

text \<open>
  The state of \<open>components/MessengerApp.tsx\<close> outside the call, and its session: storage of the
  account, expiry, login with a second factor, refresh, logout, sessions and profile.
  \<open>app_state\<close> holds the React state, the refs and the browser's storage.  A handler gets the
  state \<open>c\<close> of the render it was made in, for what it reads, and the state \<open>s\<close> it updates; an
  asynchronous handler is a begin and a continuation, which keeps the \<open>c\<close> of the begin.
  \<open>Key k\<close> is the text \<open>t(k)\<close>.
\<close>

section \<open>State\<close>

datatype ui_text = Key jstr | Text jstr

datatype auth_mode = LoginMode | RegisterMode

record auth_ui =
  au_session :: "auth_session option"
  au_bootstrapped :: bool
  au_identity :: "identity option"
  au_mode :: auth_mode
  au_username :: jstr
  au_password :: jstr
  au_totpCode :: jstr
  au_error :: ui_text
  au_totpRequired :: bool
  au_displayName :: jstr
  au_avatarVersion :: int
  au_expiredNotified :: bool
  au_totpSetup :: "(jstr \<times> jstr) option"
  au_totpConfirm :: jstr
  au_totpDisablePassword :: jstr
  au_totpDisableCode :: jstr
  au_color :: theme

record nav_ui = auth_ui +
  nv_room :: jstr
  nv_highlighted :: jstr
  nv_secrets :: "(jstr, jstr) jmap"
  nv_deleted :: "(jstr, bool) jmap"
  nv_mobileView :: app_view
  nv_sidebarView :: app_view
  nv_roomSecret :: jstr
  nv_inviteText :: jstr
  nv_leaving :: bool
  nv_chatActions :: bool
  nv_createRoom :: bool
  nv_importInvite :: bool
  nv_leaveConfirm :: bool
  nv_urlReady :: bool

record presence_entry =
  pe_displayName :: "jstr option"
  pe_status :: presence_status
  pe_lastSeenAt :: jstr

record app_state = nav_ui +
  ap_typing :: "(jstr, jstr \<times> int) jmap"
  ap_presence :: "(jstr, presence_entry) jmap"
  ap_msgs :: msg_state
  ap_call :: call_sys
  ap_ws :: ws_sys
  ap_rooms :: "room list option"
  ap_storage :: storage

datatype app_effect =
    AxApi api_call
  | AxNotify ui_text ui_text
  | AxInvalidate jstr
  | AxRefetch jstr
  | AxClearQueries
  | AxPath jstr
  | AxSend jstr realtime_event
  | AxCall call_effect
  | AxClipboard jstr
  | AxAskPermission
  | AxDesktop jstr jstr

definition blank_app :: app_state where
  "blank_app = \<lparr>au_session = None, au_bootstrapped = False, au_identity = None, au_mode = LoginMode, au_username = [],
     au_password = [], au_totpCode = [], au_error = Text [], au_totpRequired = False, au_displayName = [],
     au_avatarVersion = 0, au_expiredNotified = False, au_totpSetup = None, au_totpConfirm = [],
     au_totpDisablePassword = [], au_totpDisableCode = [], au_color = Light,
     nv_room = [], nv_highlighted = [], nv_secrets = [], nv_deleted = [], nv_mobileView = VRooms, nv_sidebarView = VRooms,
     nv_roomSecret = [], nv_inviteText = [], nv_leaving = False, nv_chatActions = False, nv_createRoom = False,
     nv_importInvite = False, nv_leaveConfirm = False, nv_urlReady = False,
     ap_typing = [], ap_presence = [], ap_msgs = initial_state, ap_call = idle_call, ap_ws = no_socket, ap_rooms = None,
     ap_storage = (\<lambda>_. None)\<rparr>"

section \<open>Storage of the account\<close>

definition accountStorageID :: "auth_session option \<Rightarrow> jstr" where
  "accountStorageID target =
     (case target of None \<Rightarrow> [] | Some a \<Rightarrow> or_str (pr_userId (as_principal a)) (pr_clientId (as_principal a)))"

definition json_of_secrets :: "(jstr, jstr) jmap \<Rightarrow> json" where
  "json_of_secrets m = JObj (map (\<lambda>(k, v). (k, JStr v)) m)"

definition json_of_deleted :: "(jstr, bool) jmap \<Rightarrow> json" where
  "json_of_deleted m = JObj (map (\<lambda>(k, v). (k, JBool v)) m)"

text \<open>A stored object read as a record of strings or flags; members of another type are dropped here.\<close>

fun secrets_of_json :: "json \<Rightarrow> (jstr, jstr) jmap" where
  "secrets_of_json (JObj kvs) = List.map_filter (\<lambda>(k, v). case v of JStr t \<Rightarrow> Some (k, t) | _ \<Rightarrow> None) kvs"
| "secrets_of_json _ = []"

fun deleted_of_json :: "json \<Rightarrow> (jstr, bool) jmap" where
  "deleted_of_json (JObj kvs) = List.map_filter (\<lambda>(k, v). case v of JBool b \<Rightarrow> Some (k, b) | _ \<Rightarrow> None) kvs"
| "deleted_of_json _ = []"

definition persistRoomSecrets :: "app_state \<Rightarrow> (jstr, jstr) jmap \<Rightarrow> app_state \<Rightarrow> app_state" where
  "persistRoomSecrets c nextSecrets s =
     (let accountId = accountStorageID (au_session c); s1 = s\<lparr>nv_secrets := nextSecrets\<rparr>
      in if accountId = [] then s1
         else s1\<lparr>ap_storage := (ap_storage s1)(accountScopedKey ROOM_SECRETS_KEY accountId
            \<mapsto> stringify (json_of_secrets nextSecrets))\<rparr>)"

definition persistLocalDeletedMessages :: "app_state \<Rightarrow> (jstr, bool) jmap \<Rightarrow> app_state \<Rightarrow> app_state" where
  "persistLocalDeletedMessages c nextDeleted s =
     (let accountId = accountStorageID (au_session c); s1 = s\<lparr>nv_deleted := nextDeleted\<rparr>
      in if accountId = [] then s1
         else s1\<lparr>ap_storage := (ap_storage s1)(accountScopedKey LOCAL_DELETED_MESSAGES_KEY accountId
            \<mapsto> stringify (json_of_deleted nextDeleted))\<rparr>)"

definition reset_chat :: "app_state \<Rightarrow> app_state" where
  "reset_chat s = s\<lparr>nv_room := [], nv_highlighted := [],
     ap_msgs := (ap_msgs s)\<lparr>ms_live := [], ms_pending := []\<rparr>, ap_typing := [], ap_presence := [],
     nv_chatActions := False, nv_leaveConfirm := False, au_totpRequired := False, au_totpCode := []\<rparr>"

definition loadAccountLocalState :: "bool \<Rightarrow> auth_session \<Rightarrow> app_state \<Rightarrow> app_state \<times> app_effect list" where
  "loadAccountLocalState isMobile target s =
     (let accountId = accountStorageID (Some target);
          stored = (\<lambda>key. if accountId = [] then None else readStoredJSON (ap_storage s) (accountScopedKey key accountId));
          s1 = reset_chat (s\<lparr>au_identity := None,
            nv_secrets := (case stored ROOM_SECRETS_KEY of None \<Rightarrow> [] | Some v \<Rightarrow> secrets_of_json v),
            nv_deleted := (case stored LOCAL_DELETED_MESSAGES_KEY of None \<Rightarrow> [] | Some v \<Rightarrow> deleted_of_json v)\<rparr>)
      in (if isMobile then s1\<lparr>nv_mobileView := VRooms\<rparr> else s1\<lparr>nv_sidebarView := VRooms\<rparr>,
          [AxApi (CallFetchCurrentIdentity (as_accessToken target)), AxApi (CallFetchCurrentPrincipal (as_accessToken target))]))"

definition clearAccountLocalState :: "app_state \<Rightarrow> app_state" where
  "clearAccountLocalState s =
     (reset_chat (s\<lparr>au_identity := None, nv_secrets := [], nv_deleted := []\<rparr>))\<lparr>nv_mobileView := VRooms, nv_sidebarView := VRooms\<rparr>"

section \<open>Errors\<close>

text \<open>\<open>err.message\<close>; the texts of the platform's errors are the argument \<open>pm\<close>.\<close>

fun message_of :: "(js_error \<Rightarrow> jstr) \<Rightarrow> js_error \<Rightarrow> jstr" where
  "message_of pm (Err m) = m"
| "message_of pm (AuthError m) = m"
| "message_of pm e = pm e"

definition error_keys :: "(jstr \<times> jstr) list" where
  "error_keys =
     [(js ''account_required'', js ''errorAccountRequired''),
      (js ''avatar_too_large_after_compression'', js ''errorAvatarTooLarge''),
      (js ''call_failed'', js ''errorCallFailed''),
      (js ''invite_format_must_be_roomId_secret'', js ''errorInviteFormat''),
      (js ''leave_failed'', js ''errorLeaveFailed''),
      (js ''login_required'', js ''errorLoginRequired''),
      (js ''message_not_ready'', js ''errorMessageNotReady''),
      (js ''room_not_ready'', js ''errorChatNotReady''),
      (js ''username_required'', js ''errorUsernameRequired''),
      (js ''user_not_found'', js ''errorUserNotFound'')]"

definition errorMessage :: "jstr \<Rightarrow> ui_text" where
  "errorMessage code =
     (let normalized = js_trim code
      in case map_of error_keys normalized of Some k \<Rightarrow> Key k | None \<Rightarrow> Text normalized)"

definition handleAuthExpired :: "app_state \<Rightarrow> app_state \<times> app_effect list" where
  "handleAuthExpired s =
     (if au_expiredNotified s then (s, [])
      else ((clearAccountLocalState (s\<lparr>au_expiredNotified := True, ap_ws := dropSocket (ap_ws s), ap_rooms := None\<rparr>))
              \<lparr>au_session := None\<rparr>,
            [AxClearQueries, AxNotify (Key (js ''sessionExpired'')) (Key (js ''sessionExpiredMessage''))]))"

definition handleRequestError ::
    "(js_error \<Rightarrow> jstr) \<Rightarrow> js_error \<Rightarrow> ui_text \<Rightarrow> app_state \<Rightarrow> app_state \<times> app_effect list" where
  "handleRequestError pm err title s =
     (if is_auth_error err then handleAuthExpired s else (s, [AxNotify title (errorMessage (message_of pm err))]))"

text \<open>The effect that forwards the first error of the queries, in the order rooms, messages, attachments, members, sessions, friends.\<close>

definition forwardErrors :: "js_error option list \<Rightarrow> app_state \<Rightarrow> app_state \<times> app_effect list" where
  "forwardErrors errors s =
     (case List.find (\<lambda>e. e \<noteq> None) errors of
        Some (Some e) \<Rightarrow> if is_auth_error e then handleAuthExpired s else (s, [])
      | _ \<Rightarrow> (s, []))"

definition notifyChat :: "bool \<Rightarrow> jstr \<Rightarrow> jstr \<Rightarrow> app_effect list" where
  "notifyChat granted title message =
     AxNotify (Text title) (Text message) # (if granted then [AxDesktop title message] else [])"

section \<open>Sending on the socket\<close>

text \<open>\<open>event.roomId\<close> of the kinds that have one.\<close>

fun event_room :: "realtime_event \<Rightarrow> jstr option" where
  "event_room (EvChatsChanged r _ _) = r"
| "event_room (EvRoomsChanged r _ _) = r"
| "event_room (EvMessageRead r _ _) = Some r"
| "event_room (EvMessageCreated r _ _ _) = Some r"
| "event_room ev = map_option cr_roomId (call_ref_of ev)"

definition realtime_topic :: "jstr \<Rightarrow> realtime_event \<Rightarrow> jstr" where
  "realtime_topic activeRoomID ev =
     (case call_ref_of ev of
        Some r \<Rightarrow> if cr_toUserId r \<noteq> [] then user_topic (cr_toUserId r)
                  else if cr_roomId r \<noteq> [] then room_topic (cr_roomId r)
                  else if activeRoomID \<noteq> [] then room_topic activeRoomID else []
      | None \<Rightarrow> if truthy (event_room ev) then room_topic (the (event_room ev))
                else if activeRoomID \<noteq> [] then room_topic activeRoomID else [])"

definition sendRealtimeRaw :: "app_state \<Rightarrow> realtime_event \<Rightarrow> app_state \<Rightarrow> app_effect list" where
  "sendRealtimeRaw c ev s =
     (let topic = realtime_topic (nv_room c) ev
      in if ws_can_send (ap_ws s) \<and> topic \<noteq> [] then [AxSend topic ev] else [])"

definition sendToUserRaw :: "jstr \<Rightarrow> realtime_event \<Rightarrow> app_state \<Rightarrow> app_effect list" where
  "sendToUserRaw targetUserId ev s =
     (if ws_can_send (ap_ws s) \<and> targetUserId \<noteq> [] then [AxSend (user_topic targetUserId) ev] else [])"

text \<open>What the call logic sends goes the same way.\<close>

fun run_call_effect :: "app_state \<Rightarrow> app_state \<Rightarrow> call_effect \<Rightarrow> app_effect list" where
  "run_call_effect c s (CxSend ev) = sendRealtimeRaw c ev s"
| "run_call_effect c s (CxApi calls) = map AxApi calls"
| "run_call_effect c s fx = [AxCall fx]"

end
