(* ===== verification/Session.thy ===== *)
theory Session
  imports App
begin

text \<open>
  The session of \<open>components/MessengerApp.tsx\<close>: restoring, login and registration with a second
  factor, refresh, theme, logout, the list of sessions, the avatar (\<open>lib/avatar.ts\<close>) and the
  second factor's setup; and the session hook of \<open>hooks/useSession.ts\<close>, an earlier version of it.
\<close>

section \<open>Saving and restoring\<close>

definition saveSession :: "bool \<Rightarrow> auth_session \<Rightarrow> bool \<Rightarrow> app_state \<Rightarrow> app_state \<times> app_effect list" where
  "saveSession isMobile next_session reloadLocalState s =
     (let s1 = s\<lparr>au_expiredNotified := False, au_session := Some next_session\<rparr>
      in if reloadLocalState then loadAccountLocalState isMobile next_session s1 else (s1, []))"

definition updateSessionPrincipal :: "app_state \<Rightarrow> principal \<Rightarrow> app_state \<Rightarrow> app_state" where
  "updateSessionPrincipal c p s =
     (case au_session c of None \<Rightarrow> s | Some a \<Rightarrow> s\<lparr>au_session := Some (a\<lparr>as_principal := p\<rparr>)\<rparr>)"

definition identityLoaded ::
    "(js_error \<Rightarrow> jstr) \<Rightarrow> identity result \<Rightarrow> app_state \<Rightarrow> app_state \<times> app_effect list" where
  "identityLoaded pm res s =
     (case res of
        Inr i \<Rightarrow> (s\<lparr>au_identity := Some i\<rparr>, [])
      | Inl err \<Rightarrow> if is_auth_error err then handleAuthExpired s
                   else (s, [AxNotify (Key (js ''profileTitle'')) (Text (message_of pm err))]))"

definition principalLoaded :: "auth_session \<Rightarrow> principal result \<Rightarrow> app_state \<Rightarrow> app_state" where
  "principalLoaded target res s =
     (case res of
        Inl _ \<Rightarrow> s
      | Inr p \<Rightarrow>
          if map_option as_accessToken (au_session s) = Some (as_accessToken target)
          then s\<lparr>au_session := Some (target\<lparr>as_principal := p\<rparr>)\<rparr> else s)"

text \<open>The timer of the refresh, in milliseconds, and what its answer does.\<close>

definition refreshInMs :: "auth_session \<Rightarrow> int \<Rightarrow> int" where
  "refreshInMs a now = max 30000 (as_expiresAt a * 1000 - now - 60000)"

definition refreshDone :: "bool \<Rightarrow> auth_session result \<Rightarrow> app_state \<Rightarrow> app_state \<times> app_effect list" where
  "refreshDone isMobile res s =
     (case res of Inr a \<Rightarrow> saveSession isMobile a False s | Inl _ \<Rightarrow> handleAuthExpired s)"

text \<open>The handler of the first render: \<open>useMediaQuery\<close> answers after it, in an effect, so \<open>isMobile\<close> is
  false there.\<close>

definition restoreDone :: "bool \<Rightarrow> auth_session result \<Rightarrow> app_state \<Rightarrow> app_state \<times> app_effect list" where
  "restoreDone isMobile res s =
     (let (s1, fx) = (case res of
            Inl _ \<Rightarrow> (s, [])
          | Inr a \<Rightarrow>
              (let (s', fx) = saveSession isMobile a True s
               in (s'\<lparr>au_color := pr_theme (as_principal a),
                     au_displayName := or_str (pr_displayName (as_principal a)) (pr_username (as_principal a))\<rparr>, fx)))
      in (s1\<lparr>au_bootstrapped := True\<rparr>, fx))"

section \<open>Login\<close>

record auth_values =
  av_username :: jstr
  av_password :: jstr
  av_displayName :: jstr
  av_totpCode :: jstr

definition auth_values_of :: "app_state \<Rightarrow> auth_values option \<Rightarrow> auth_values" where
  "auth_values_of c values = nullish values \<lparr>av_username = au_username c, av_password = au_password c,
     av_displayName = au_displayName c, av_totpCode = au_totpCode c\<rparr>"

definition authCall :: "app_state \<Rightarrow> auth_values \<Rightarrow> api_call" where
  "authCall c v =
     (if au_mode c = RegisterMode
      then CallRegisterUser (av_username v) (av_password v) (or_str (js_trim (av_displayName v)) (av_username v))
      else CallLoginUser (av_username v) (av_password v) (nonempty (js_trim (av_totpCode v))))"

definition submitAuth :: "app_state \<Rightarrow> bool \<Rightarrow> auth_values option \<Rightarrow> app_state \<Rightarrow> app_state \<times> app_effect list" where
  "submitAuth c isPending values s =
     (let v = auth_values_of c values
      in if js_trim (av_username v) = [] \<or> length (av_password v) < 8 \<or> isPending then (s, [])
         else let s1 = (if values = None then s
                  else s\<lparr>au_username := av_username v, au_password := av_password v, au_displayName := av_displayName v,
                         au_totpCode := av_totpCode v\<rparr>)
              in (s1\<lparr>au_error := Text []\<rparr>, [AxApi (authCall c v)]))"

datatype auth_answer = Challenge | LoggedIn auth_session

definition authSuccess :: "app_state \<Rightarrow> bool \<Rightarrow> auth_answer \<Rightarrow> app_state \<Rightarrow> app_state \<times> app_effect list" where
  "authSuccess c isMobile answer s =
     (case answer of
        Challenge \<Rightarrow>
          (s\<lparr>au_totpRequired := True, au_error := Text []\<rparr>, [AxNotify (Key (js ''login'')) (Key (js ''twoFactorPrompt''))])
      | LoggedIn a \<Rightarrow>
          (let (s1, fx) = saveSession isMobile a True s
           in (s1\<lparr>au_color := pr_theme (as_principal a),
                 au_displayName := or_str (pr_username (as_principal a)) (au_username c),
                 au_totpRequired := False, au_totpCode := [], au_error := Text []\<rparr>,
               fx @ [AxNotify (Key (if au_mode c = RegisterMode then js ''createAccount'' else js ''login''))
                       (Key (js ''sessionReady''))])))"

definition authFailure :: "app_state \<Rightarrow> (js_error \<Rightarrow> jstr) \<Rightarrow> js_error \<Rightarrow> app_state \<Rightarrow> app_state \<times> app_effect list" where
  "authFailure c pm err s =
     (if is_auth_error err then handleAuthExpired s
      else (s\<lparr>au_error := (if au_totpRequired c then Key (js ''invalidTwoFactor'') else Text (message_of pm err))\<rparr>, []))"

definition setAuthMode :: "auth_mode \<Rightarrow> app_state \<Rightarrow> app_state" where
  "setAuthMode mode s = s\<lparr>au_mode := mode, au_totpRequired := False, au_totpCode := [], au_error := Text []\<rparr>"

section \<open>Logout and sessions\<close>

definition offline_event :: "identity \<Rightarrow> jstr \<Rightarrow> realtime_event" where
  "offline_event i now = EvPresence (iy_userId i) (iy_displayName i) Offline now None"

definition logoutLocal :: "app_state \<Rightarrow> jstr \<Rightarrow> bool \<Rightarrow> app_state \<Rightarrow> app_state \<times> app_effect list" where
  "logoutLocal c now remote s =
     ((clearAccountLocalState (s\<lparr>ap_rooms := None, ap_ws := ws_close (ws_ref (ap_ws s)) (ap_ws s)\<rparr>))\<lparr>au_session := None\<rparr>,
      (case au_identity c of Some i \<Rightarrow> if nv_room c \<noteq> [] then sendRealtimeRaw c (offline_event i now) s else [] | None \<Rightarrow> [])
      @ (if remote then [AxApi CallLogoutSession] else []) @ [AxClearQueries])"

definition revokeSessionCall :: "app_state \<Rightarrow> account_session \<Rightarrow> api_call result" where
  "revokeSessionCall c target =
     (case au_session c of None \<Rightarrow> Inl (Err (js ''login_required''))
      | Some a \<Rightarrow> Inr (CallRevokeAccountSession (as_accessToken a) (ac_sessionId target)))"

definition revokeSessionSuccess :: "app_state \<Rightarrow> jstr \<Rightarrow> account_session \<Rightarrow> app_state \<Rightarrow> app_state \<times> app_effect list" where
  "revokeSessionSuccess c now target s =
     (if ac_current target = Some True then logoutLocal c now True s else (s, [AxRefetch (js ''account-sessions'')]))"

definition logout :: "app_state \<Rightarrow> jstr \<Rightarrow> account_session list \<Rightarrow> app_state \<Rightarrow> app_state \<times> app_effect list" where
  "logout c now sessions s =
     (case (List.find (\<lambda>x. ac_current x = Some True) sessions, au_session c) of
        (Some current, Some a) \<Rightarrow> (s, [AxApi (CallRevokeAccountSession (as_accessToken a) (ac_sessionId current))])
      | _ \<Rightarrow> logoutLocal c now True s)"

definition revokeOtherSessionsCall :: "app_state \<Rightarrow> api_call result" where
  "revokeOtherSessionsCall c =
     (case au_session c of None \<Rightarrow> Inl (Err (js ''login_required''))
      | Some a \<Rightarrow> Inr (CallRevokeOtherAccountSessions (as_accessToken a)))"

section \<open>Profile\<close>

definition toggleThemeBegin :: "app_state \<Rightarrow> app_state \<Rightarrow> app_state \<times> app_effect list" where
  "toggleThemeBegin c s =
     (let theme = (if au_color c = Dark then Light else Dark)
      in (s\<lparr>au_color := theme\<rparr>,
          case au_session c of None \<Rightarrow> [] | Some a \<Rightarrow> [AxApi (CallUpdateTheme (as_accessToken a) theme)]))"

definition toggleThemeDone ::
    "app_state \<Rightarrow> (js_error \<Rightarrow> jstr) \<Rightarrow> principal result \<Rightarrow> app_state \<Rightarrow> app_state \<times> app_effect list" where
  "toggleThemeDone c pm res s =
     (case res of
        Inr p \<Rightarrow> (updateSessionPrincipal c p s, [])
      | Inl err \<Rightarrow> (s, [AxNotify (Key (js ''saveLocalThemeFailed'')) (Text (message_of pm err))]))"

definition AVATAR_SIZE :: nat where
  "AVATAR_SIZE = 256"

text \<open>The square of the image that is drawn: its corner and its side.\<close>

definition avatarCrop :: "nat \<Rightarrow> nat \<Rightarrow> nat \<times> nat \<times> nat" where
  "avatarCrop width height =
     (let sourceSize = min width height in ((width - sourceSize) div 2, (height - sourceSize) div 2, sourceSize))"

definition canvasToBlob :: "blob option \<Rightarrow> blob result" where
  "canvasToBlob b = (case b of None \<Rightarrow> Inl (Err (js ''avatar_compression_failed'')) | Some x \<Rightarrow> Inr x)"

text \<open>\<open>bitmap\<close> gives the size of the decoded image or fails, \<open>encode\<close> is the canvas drawing and its encoding.\<close>

definition compressAvatar ::
    "(blob \<Rightarrow> (nat \<times> nat) result) \<Rightarrow> bool \<Rightarrow> (blob \<Rightarrow> nat \<times> nat \<times> nat \<Rightarrow> blob option) \<Rightarrow> blob \<Rightarrow> blob result" where
  "compressAvatar bitmap hasContext encode file =
     (if \<not> js_starts (js ''image/'') (bl_type file) then Inl (Err (js ''avatar_must_be_image''))
      else bindR (bitmap file) (\<lambda>(w, h).
        if \<not> hasContext then Inl (Err (js ''canvas_unavailable'')) else canvasToBlob (encode file (avatarCrop w h))))"

definition avatarCall :: "app_state \<Rightarrow> blob result \<Rightarrow> api_call result" where
  "avatarCall c compressed =
     (case au_session c of None \<Rightarrow> Inl (Err (js ''login_required''))
      | Some a \<Rightarrow> bindR compressed (\<lambda>avatar.
          if length (bl_bytes avatar) > 1024 * 1024 then Inl (Err (js ''avatar_too_large_after_compression''))
          else Inr (CallUploadAvatar (as_accessToken a) avatar)))"

definition avatarSuccess :: "app_state \<Rightarrow> int \<Rightarrow> principal \<Rightarrow> app_state \<Rightarrow> app_state \<times> app_effect list" where
  "avatarSuccess c now p s =
     ((updateSessionPrincipal c p s)\<lparr>au_avatarVersion := now\<rparr>,
      [AxNotify (Key (js ''avatarReady'')) (Key (js ''avatarReadyMessage''))])"

definition ownAvatarSrc :: "jstr \<Rightarrow> app_state \<Rightarrow> jstr" where
  "ownAvatarSrc base c =
     (let url = absoluteAvatarUrl base (case au_session c of None \<Rightarrow> None | Some a \<Rightarrow> pr_avatarUrl (as_principal a))
      in if url \<noteq> [] then url @ js ''?v='' @ js_of_int (au_avatarVersion c) else [])"

section \<open>The second factor\<close>

definition with_token :: "app_state \<Rightarrow> (jstr \<Rightarrow> api_call) \<Rightarrow> api_call result" where
  "with_token c f = (case au_session c of None \<Rightarrow> Inl (Err (js ''login_required'')) | Some a \<Rightarrow> Inr (f (as_accessToken a)))"

definition beginTOTPCall :: "app_state \<Rightarrow> api_call result" where
  "beginTOTPCall c = with_token c CallBeginTOTPSetup"

definition beginTOTPSuccess :: "jstr \<times> jstr \<Rightarrow> app_state \<Rightarrow> app_state" where
  "beginTOTPSuccess setup s = s\<lparr>au_totpSetup := Some setup\<rparr>"

definition confirmTOTPCall :: "app_state \<Rightarrow> api_call result" where
  "confirmTOTPCall c = with_token c (\<lambda>token. CallConfirmTOTP token (js_trim (au_totpConfirm c)))"

definition confirmTOTPSuccess :: "app_state \<Rightarrow> principal \<Rightarrow> app_state \<Rightarrow> app_state \<times> app_effect list" where
  "confirmTOTPSuccess c p s =
     ((updateSessionPrincipal c p s)\<lparr>au_totpSetup := None, au_totpConfirm := []\<rparr>,
      [AxNotify (Text (js ''2FA enabled'')) (Text (js ''Two-factor authentication is active.''))])"

definition disableTOTPCall :: "app_state \<Rightarrow> api_call result" where
  "disableTOTPCall c = with_token c (\<lambda>token. CallDisableTOTP token (au_totpDisablePassword c) (js_trim (au_totpDisableCode c)))"

definition disableTOTPSuccess :: "app_state \<Rightarrow> principal \<Rightarrow> app_state \<Rightarrow> app_state \<times> app_effect list" where
  "disableTOTPSuccess c p s =
     ((updateSessionPrincipal c p s)\<lparr>au_totpDisablePassword := [], au_totpDisableCode := []\<rparr>,
      [AxNotify (Text (js ''2FA disabled'')) (Text (js ''Two-factor authentication is off.''))])"

section \<open>The session hook\<close>

text \<open>\<open>hooks/useSession.ts\<close> writes the same operations without the application around it; \<open>h\<close> marks
  the ones that differ: the principal is set by a functional update, expiry and logout leave the
  account's state to the caller, and what is cleared does not include the second factor.\<close>

definition h_updateSessionPrincipal :: "principal \<Rightarrow> app_state \<Rightarrow> app_state" where
  "h_updateSessionPrincipal p s =
     (case au_session s of None \<Rightarrow> s | Some a \<Rightarrow> s\<lparr>au_session := Some (a\<lparr>as_principal := p\<rparr>)\<rparr>)"

definition h_handleAuthExpired :: "(ws_sys \<Rightarrow> ws_sys) \<Rightarrow> app_state \<Rightarrow> app_state \<times> app_effect list" where
  "h_handleAuthExpired wsClose s =
     (if au_expiredNotified s then (s, [])
      else (s\<lparr>au_expiredNotified := True, au_session := None, ap_ws := wsClose (ap_ws s), ap_rooms := None\<rparr>,
            [AxClearQueries, AxNotify (Key (js ''sessionExpired'')) (Key (js ''sessionExpiredMessage''))]))"

definition h_clearAccountLocalState :: "app_state \<Rightarrow> app_state" where
  "h_clearAccountLocalState s =
     s\<lparr>au_identity := None, nv_secrets := [], nv_deleted := [], nv_room := [], nv_highlighted := [],
       ap_msgs := (ap_msgs s)\<lparr>ms_live := [], ms_pending := []\<rparr>, ap_typing := [], ap_presence := [],
       nv_mobileView := VRooms, nv_sidebarView := VRooms, nv_chatActions := False, nv_leaveConfirm := False\<rparr>"

definition h_loadAccountLocalState :: "bool \<Rightarrow> auth_session \<Rightarrow> app_state \<Rightarrow> app_state \<times> app_effect list" where
  "h_loadAccountLocalState isMobile target s =
     (fst (loadAccountLocalState isMobile target s), [AxApi (CallFetchCurrentIdentity (as_accessToken target))])"

definition h_authSuccess :: "app_state \<Rightarrow> auth_answer \<Rightarrow> app_state \<Rightarrow> app_state \<times> app_effect list" where
  "h_authSuccess c answer s =
     (case answer of
        Challenge \<Rightarrow>
          (s\<lparr>au_totpRequired := True, au_error := Text []\<rparr>, [AxNotify (Key (js ''login'')) (Key (js ''twoFactorPrompt''))])
      | LoggedIn a \<Rightarrow>
          (s\<lparr>au_expiredNotified := False, au_session := Some a, au_color := pr_theme (as_principal a),
             au_displayName := or_str (pr_username (as_principal a)) (au_username c),
             au_totpRequired := False, au_totpCode := [], au_error := Text []\<rparr>,
           [AxNotify (Key (if au_mode c = RegisterMode then js ''createAccount'' else js ''login''))
              (Key (js ''sessionReady''))]))"

definition h_submitAuth :: "app_state \<Rightarrow> bool \<Rightarrow> app_state \<Rightarrow> app_state \<times> app_effect list" where
  "h_submitAuth c isPending s = submitAuth c isPending None s"

definition h_logoutLocal :: "(ws_sys \<Rightarrow> ws_sys) \<Rightarrow> app_effect list \<Rightarrow> app_state \<Rightarrow> app_state \<times> app_effect list" where
  "h_logoutLocal wsClose presenceOffline s =
     (s\<lparr>au_session := None, ap_ws := wsClose (ap_ws s), ap_rooms := None\<rparr>, presenceOffline @ [AxClearQueries])"

end
