(* ===== verification/Bubbles.thy ===== *)
theory Bubbles
  imports Messages
begin

text \<open>
  What \<open>components/chat/ChatView.tsx\<close> shows of one message and lets the user do with it: day
  dividers, call and system notes, delivery status, the menu, the attachment preview, the
  clipboard, the composer's keys and the room's name.  The local calendar is a parameter: \<open>day\<close>
  gives the local year, month and date of an ISO time, None for an invalid one.
\<close>

section \<open>Day dividers\<close>

type_synonym calendar_day = "int \<times> int \<times> int"

text \<open>The getters of an invalid date are NaN, which equals nothing.\<close>

fun isSameDay :: "calendar_day option \<Rightarrow> calendar_day option \<Rightarrow> bool" where
  "isSameDay (Some a) (Some b) = (a = b)"
| "isSameDay _ _ = False"

text \<open>\<open>DayLabel\<close> is the date written out, with its year when that is not the current one.\<close>

datatype divider = TodayLabel | YesterdayLabel | DayLabel (dl_createdAt: jstr) (dl_year: bool)

definition divider_label ::
  "calendar_day \<Rightarrow> calendar_day \<Rightarrow> calendar_day option \<Rightarrow> jstr \<Rightarrow> divider" where
  "divider_label today yesterday date createdAt =
     (if isSameDay date (Some today) then TodayLabel
      else if isSameDay date (Some yesterday) then YesterdayLabel
      else DayLabel createdAt (case date of None \<Rightarrow> True | Some (y, _) \<Rightarrow> y \<noteq> fst today))"

definition messageMeta ::
  "(jstr \<Rightarrow> calendar_day option) \<Rightarrow> calendar_day \<Rightarrow> calendar_day \<Rightarrow> bool \<Rightarrow> decrypted_message list \<Rightarrow>
   nat \<times> decrypted_message \<Rightarrow> decrypted_message \<times> divider option" where
  "messageMeta day today yesterday hasMore messages = (\<lambda>(i, msg).
     let prev = (if 0 < i then Some (messages ! (i - 1)) else None);
         date = day (dm_createdAt msg);
         isTopBoundary = (i = 0 \<and> hasMore)
     in (msg, if \<not> isTopBoundary \<and> (case prev of None \<Rightarrow> True | Some p \<Rightarrow> \<not> isSameDay (day (dm_createdAt p)) date)
              then Some (divider_label today yesterday date (dm_createdAt msg)) else None))"

definition buildMessageMeta ::
  "(jstr \<Rightarrow> calendar_day option) \<Rightarrow> calendar_day \<Rightarrow> calendar_day \<Rightarrow> bool \<Rightarrow> decrypted_message list \<Rightarrow>
   (decrypted_message \<times> divider option) list" where
  "buildMessageMeta day today yesterday hasMore messages =
     map (messageMeta day today yesterday hasMore messages) (enumerate 0 messages)"

section \<open>Call and system notes\<close>

datatype note_icon = PhoneOut | PhoneEnd | PhoneIncoming

datatype note_label = LabelCall | LabelMissed | LabelDeclined

definition pad2 :: "int \<Rightarrow> jstr" where
  "pad2 n = js_pad_start 2 48 (js_of_int n)"

text \<open>\<open>mm:ss\<close> of a number of seconds, as \<open>CallOrSystemBubble\<close> and both \<open>formatCallDuration\<close> write it.\<close>

definition formatCallDuration :: "int \<Rightarrow> jstr" where
  "formatCallDuration sec = pad2 (sec div 60) @ js '':'' @ pad2 (sec mod 60)"

datatype note_view =
    NoteText jstr
  | NoteCall (nv_icon: note_icon) (nv_green: bool) (nv_label: note_label) (nv_duration: "jstr option")

definition callOrSystemBubble :: "jstr \<Rightarrow> system_note \<Rightarrow> note_view" where
  "callOrSystemBubble me note = (case note of
      Join t \<Rightarrow> NoteText t
    | Leave t \<Rightarrow> NoteText t
    | CallNote status sec caller callee \<Rightarrow>
        (let isOutgoing = (caller = me); isCompleted = (status = Completed); isMissed = (status = Missed)
         in NoteCall (if isOutgoing then PhoneOut else if isMissed then PhoneEnd else PhoneIncoming)
              isCompleted
              (if isCompleted then LabelCall else if isMissed then LabelMissed else LabelDeclined)
              (if isCompleted \<and> 0 < sec then Some (formatCallDuration sec) else None)))"

section \<open>Delivery status and menu\<close>

datatype status_icon = IconSending | IconFailed | IconRead | IconSent

definition renderMessageStatus :: "jstr \<Rightarrow> decrypted_message \<Rightarrow> status_icon option" where
  "renderMessageStatus me msg =
     (if dm_senderId msg \<noteq> me \<or> (case dm_body msg of None \<Rightarrow> False | Some b \<Rightarrow> pm_system b \<noteq> None) then None
      else if dm_status msg = Some Sending then Some IconSending
      else if dm_status msg = Some Failed then Some IconFailed
      else if dm_status msg = Some Read \<or> nullish (dm_read msg) False then Some IconRead
      else Some IconSent)"

datatype menu_item = MenuReact nat | MenuReply | MenuCopy | MenuCopyLink | MenuEdit | MenuInfo | MenuDelete

text \<open>\<open>quick\<close> is the number of \<open>QUICK_REACTIONS\<close>.\<close>

definition messageMenu :: "nat \<Rightarrow> jstr \<Rightarrow> decrypted_message \<Rightarrow> menu_item list" where
  "messageMenu quick me msg =
     (if truthy (dm_deletedAt msg) then []
      else map MenuReact [0..<quick] @ [MenuReply, MenuCopy]
           @ (if isPersistedMessageID (dm_id msg) then [MenuCopyLink] else []))
     @ (if me = dm_senderId msg \<and> \<not> truthy (dm_deletedAt msg) \<and> isPersistedMessageID (dm_id msg) then [MenuEdit] else [])
     @ [MenuInfo, MenuDelete]"

text \<open>What the card shows: a system note, or a bubble whose body depends on deletion and decryption.\<close>

datatype body_view = ViewNote note_view | ViewDeleted | ViewUndecryptable | ViewBody

definition messageBody :: "jstr \<Rightarrow> decrypted_message \<Rightarrow> body_view" where
  "messageBody me msg =
     (case (case dm_body msg of None \<Rightarrow> None | Some b \<Rightarrow> pm_system b) of
        Some note \<Rightarrow> ViewNote (callOrSystemBubble me note)
      | None \<Rightarrow>
          (if truthy (dm_deletedAt msg) then ViewDeleted
           else if nullish (dm_failed msg) False then ViewUndecryptable
           else ViewBody))"

definition showsEdited :: "decrypted_message \<Rightarrow> bool" where
  "showsEdited msg = (truthy (dm_editedAt msg) \<and> \<not> truthy (dm_deletedAt msg))"

definition asksForSecret :: "jstr \<Rightarrow> decrypted_message list \<Rightarrow> bool" where
  "asksForSecret activeRoomSecret displayed =
     (activeRoomSecret = [] \<and> list_ex (\<lambda>msg. nullish (dm_failed msg) False) displayed)"

section \<open>Attachment preview\<close>

record preview_ui =
  pu_attachmentsOpened :: bool
  pu_imageViewer :: "(jstr \<times> jstr) option"
  pu_pendingImage :: jstr

definition attachment_of :: "decrypted_message \<Rightarrow> encrypted_attachment option" where
  "attachment_of msg = (case dm_body msg of None \<Rightarrow> None | Some b \<Rightarrow> pm_attachment b)"

definition is_image :: "encrypted_attachment \<Rightarrow> bool" where
  "is_image a = js_starts (js ''image/'') (at_type a)"

text \<open>\<open>previews\<close> holds the object URLs of decrypted files; the flag says whether
  \<open>previewAttachment\<close> is called.\<close>

definition openAttachmentPreview ::
  "(jstr \<Rightarrow> jstr option) \<Rightarrow> decrypted_message \<Rightarrow> preview_ui \<Rightarrow> preview_ui \<times> bool" where
  "openAttachmentPreview previews msg u =
     (case attachment_of msg of
        None \<Rightarrow> (u, False)
      | Some attachment \<Rightarrow>
          (let u1 = u\<lparr>pu_attachmentsOpened := False\<rparr>
           in if is_image attachment \<and> truthy (previews (dm_id msg))
              then (u1\<lparr>pu_imageViewer := Some (the (previews (dm_id msg)), at_name attachment)\<rparr>, False)
              else if is_image attachment then (u1\<lparr>pu_pendingImage := dm_id msg\<rparr>, True)
              else (u1, True)))"

definition previewsChanged ::
  "jstr \<Rightarrow> (jstr \<Rightarrow> jstr option) \<Rightarrow> decrypted_message list \<Rightarrow> preview_ui \<Rightarrow> preview_ui" where
  "previewsChanged previewText previews visible u =
     (if pu_pendingImage u = [] \<or> \<not> truthy (previews (pu_pendingImage u)) then u
      else (let name = (case find (\<lambda>m. dm_id m = pu_pendingImage u) visible of
                          None \<Rightarrow> None | Some m \<Rightarrow> map_option at_name (attachment_of m))
            in u\<lparr>pu_attachmentsOpened := False,
                 pu_imageViewer := Some (the (previews (pu_pendingImage u)), or_opt name previewText),
                 pu_pendingImage := []\<rparr>))"

section \<open>Clipboard, keys, room name\<close>

record clip_item =
  ci_kind :: jstr
  ci_type :: jstr
  ci_file :: "(jstr \<times> jstr \<times> byte list) option"

text \<open>\<open>replace\<close> with a string pattern replaces its first occurrence.\<close>

fun js_replace_first :: "jstr \<Rightarrow> jstr \<Rightarrow> jstr \<Rightarrow> jstr" where
  "js_replace_first a b [] = (if a = [] then b else [])"
| "js_replace_first a b (c # cs) =
     (if js_starts a (c # cs) then b @ drop (length a) (c # cs) else c # js_replace_first a b cs)"

definition extension_of :: "jstr \<Rightarrow> jstr" where
  "extension_of mime =
     or_opt (map_option (js_replace_first (js ''jpeg'') (js ''jpg'')) (nth_opt (js_split 47 mime) 1)) (js ''png'')"

definition imageFileFromClipboard ::
  "jstr \<Rightarrow> clip_item list \<Rightarrow> (jstr \<times> jstr \<times> byte list) option" where
  "imageFileFromClipboard nowISO items =
     (case find (\<lambda>e. ci_kind e = js ''file'' \<and> js_starts (js ''image/'') (ci_type e)) items of
        None \<Rightarrow> None
      | Some item \<Rightarrow>
          (case ci_file item of
             None \<Rightarrow> None
           | Some (name, mime, bytes) \<Rightarrow>
               (let fallbackName = js ''pasted-image-'' @ js_replace 46 45 (js_replace 58 45 nowISO) @ js ''.'' @ extension_of mime
                in Some (or_str name fallbackName, or_str mime (js ''image/png''), bytes))))"

text \<open>The file handed to \<open>selectFile\<close>; then the paste itself is prevented.\<close>

definition handleMessagePaste ::
  "jstr \<Rightarrow> bool \<Rightarrow> jstr \<Rightarrow> clip_item list \<Rightarrow> (jstr \<times> jstr \<times> byte list) option" where
  "handleMessagePaste activeRoomID sending nowISO items =
     (if activeRoomID = [] \<or> sending then None else imageFileFromClipboard nowISO items)"

text \<open>Whether a key press in the composer sends the message.\<close>

definition composerKey :: "bool \<Rightarrow> jstr \<Rightarrow> bool \<Rightarrow> bool" where
  "composerKey isMobile key shiftKey = (key = js ''Enter'' \<and> \<not> isMobile \<and> \<not> shiftKey)"

record rename_ui =
  rn_renaming :: bool
  rn_text :: jstr

definition renameStart :: "jstr \<Rightarrow> rename_ui \<Rightarrow> rename_ui" where
  "renameStart name u = u\<lparr>rn_text := name, rn_renaming := True\<rparr>"

definition renameKey :: "jstr \<Rightarrow> jstr \<Rightarrow> jstr \<Rightarrow> rename_ui \<Rightarrow> rename_ui \<times> api_call list" where
  "renameKey token roomId key u =
     (if key = js ''Escape'' then u\<lparr>rn_renaming := False\<rparr> else u,
      if key = js ''Enter'' \<and> js_trim (rn_text u) \<noteq> [] then [CallUpdateRoomName token roomId (js_trim (rn_text u))] else [])"

definition renameClick :: "jstr \<Rightarrow> jstr \<Rightarrow> rename_ui \<Rightarrow> api_call list" where
  "renameClick token roomId u =
     (if js_trim (rn_text u) \<noteq> [] then [CallUpdateRoomName token roomId (js_trim (rn_text u))] else [])"

definition renameSuccess :: "rename_ui \<Rightarrow> rename_ui" where
  "renameSuccess u = u\<lparr>rn_renaming := False\<rparr>"

section \<open>Dividers mark the days\<close>

definition day_of :: "(jstr \<Rightarrow> calendar_day option) \<Rightarrow> decrypted_message \<Rightarrow> calendar_day option" where
  "day_of day msg = day (dm_createdAt msg)"

text \<open>The messages that carry a divider, by a recursion that remembers the day before.\<close>

fun divided :: "(jstr \<Rightarrow> calendar_day option) \<Rightarrow> calendar_day option \<Rightarrow> decrypted_message list \<Rightarrow> decrypted_message list" where
  "divided day prev [] = []"
| "divided day prev (msg # msgs) =
     (if isSameDay prev (day_of day msg) then [] else [msg]) @ divided day (day_of day msg) msgs"

lemma isSameDay_valid: "b \<noteq> None \<Longrightarrow> isSameDay a b \<longleftrightarrow> a = b"
  by (cases a; cases b) auto

lemma divided_days:
  "\<forall>m\<in>set msgs. day_of day m \<noteq> None \<Longrightarrow>
   map (day_of day) (divided day prev msgs) =
     (let ds = remdups_adj (map (day_of day) msgs) in if ds \<noteq> [] \<and> hd ds = prev then tl ds else ds)"
proof (induction msgs arbitrary: prev)
  case (Cons m msgs)
  then have m: "isSameDay prev (day_of day m) \<longleftrightarrow> prev = day_of day m" by (simp add: isSameDay_valid)
  show ?case
  proof (cases msgs)
    case Nil
    with m show ?thesis by auto
  next
    case (Cons m2 rest)
    with Cons.IH[of "day_of day m"] Cons.prems m show ?thesis
      by (auto simp: Let_def split: if_splits)
  qed
qed simp

definition with_divider :: "(decrypted_message \<times> divider option) list \<Rightarrow> decrypted_message list" where
  "with_divider metas = map fst (filter (\<lambda>m. snd m \<noteq> None) metas)"

lemma meta_rest:
  "pre \<noteq> [] \<Longrightarrow>
   with_divider (map (messageMeta day today yesterday hasMore (pre @ msgs)) (enumerate (length pre) msgs)) =
     divided day (day_of day (last pre)) msgs"
proof (induction msgs arbitrary: pre)
  case Nil
  show ?case by (simp add: with_divider_def)
next
  case (Cons m msgs)
  have "(pre @ m # msgs) ! (length pre - Suc 0) = last pre"
    using Cons.prems by (simp add: last_conv_nth nth_append)
  with Cons.prems Cons.IH[of "pre @ [m]"] show ?case
    by (simp add: with_divider_def messageMeta_def day_of_def Let_def)
qed

lemma meta_first: "with_divider (messageMeta day today yesterday hasMore msgs (0, m) # rest) =
    (if hasMore then [] else [m]) @ with_divider rest"
  by (simp add: with_divider_def messageMeta_def Let_def)

lemma meta_divided:
  "with_divider (buildMessageMeta day today yesterday hasMore (m # msgs)) =
     (if hasMore then [] else [m]) @ divided day (day_of day m) msgs"
  using meta_rest[of "[m]" day today yesterday hasMore msgs]
  by (simp add: buildMessageMeta_def meta_first)

text \<open>C26. The dividers cut the list into its days: the messages that carry one have, in order, the days
  of the list with repetitions next to each other removed.  While older history exists above, the
  first of them is left out.
\<close>

theorem dividers_cut_days:
  assumes "\<forall>m\<in>set msgs. day_of day m \<noteq> None"
  shows "map (day_of day) (with_divider (buildMessageMeta day today yesterday hasMore msgs)) =
    (if hasMore then tl else (\<lambda>ds. ds)) (remdups_adj (map (day_of day) msgs))"
proof (cases msgs)
  case Nil
  then show ?thesis by (simp add: buildMessageMeta_def with_divider_def)
next
  case (Cons m rest)
  have "map (day_of day) (divided day None msgs) = remdups_adj (map (day_of day) msgs)"
    using divided_days[OF assms, of None] assms Cons
    by (auto simp: Let_def split: if_splits)
  moreover have "divided day None msgs = m # divided day (day_of day m) rest" by (simp add: Cons)
  ultimately have days: "day_of day m # map (day_of day) (divided day (day_of day m) rest) =
      remdups_adj (map (day_of day) msgs)" by simp
  then have "tl (remdups_adj (map (day_of day) msgs)) = map (day_of day) (divided day (day_of day m) rest)"
    by (metis list.sel(3))
  with days show ?thesis by (simp add: meta_divided Cons)
qed

theorem dividers_cut_days_witness:
  "map (day_of (\<lambda>at. Some (2024, 5, int (length at))))
     (with_divider (buildMessageMeta (\<lambda>at. Some (2024, 5, int (length at))) (2024, 5, 2) (2024, 5, 1) True
        [sample_dm (js ''m1'') [] (js ''1''), sample_dm (js ''m2'') [] (js ''1''),
         sample_dm (js ''m3'') [] (js ''22''), sample_dm (js ''m4'') [] (js ''22'')])) = [Some (2024, 5, 2)]"
  by (rule trans[OF dividers_cut_days]) (simp_all add: day_of_def sample_dm_def)

section \<open>Durations\<close>

lemma digits_value_zeros: "digits_value (replicate k 48 @ ds) = digits_value ds"
proof -
  have "foldl (\<lambda>a c. a * 10 + (unat c - 48)) 0 (replicate k (48 :: code_unit)) = 0" by (induction k) auto
  then show ?thesis by (simp add: digits_value_def)
qed

lemma pad2_value: "0 \<le> n \<Longrightarrow> digits_value (pad2 n) = nat n"
  by (simp add: pad2_def js_pad_start_def js_of_int_def digits_value_zeros digits_value_of)

lemma pad2_digits: "0 \<le> n \<Longrightarrow> 58 \<notin> set (pad2 n)"
  using digits_of_range[of 58 "nat n"] by (auto simp: pad2_def js_pad_start_def js_of_int_def)

lemma pad2_length: "0 \<le> n \<Longrightarrow> n < 100 \<Longrightarrow> length (pad2 n) = 2"
proof -
  assume n: "0 \<le> n" "n < 100"
  then have "length (digits_of (nat n)) \<le> 2"
    by (subst digits_of.simps) (auto simp: digits_of.simps[of "nat n div 10"])
  with n show ?thesis by (simp add: pad2_def js_pad_start_def js_of_int_def)
qed

text \<open>The \<open>mm:ss\<close> text of a call loses nothing: the numbers on both sides of its colon, read back,
  give the duration in seconds, however long the call was, and each has at least two digits.
\<close>

theorem duration_roundtrip:
  assumes "0 \<le> sec"
  shows "\<exists>m s. js_split 58 (formatCallDuration sec) = [m, s] \<and> 2 \<le> length m \<and> length s = 2 \<and>
    60 * int (digits_value m) + int (digits_value s) = sec"
proof -
  have split: "js_split 58 (formatCallDuration sec) = [pad2 (sec div 60), pad2 (sec mod 60)]"
    using assms by (simp add: formatCallDuration_def js_split_append js_split_no_sep pad2_digits js_def)
  have "length (pad2 (sec mod 60)) = 2"
    using assms by (intro pad2_length) simp_all
  moreover have "2 \<le> length (pad2 (sec div 60))" by (simp add: pad2_def js_pad_start_def)
  moreover have "60 * int (digits_value (pad2 (sec div 60))) + int (digits_value (pad2 (sec mod 60))) = sec"
    using assms by (simp add: pad2_value pos_imp_zdiv_nonneg_iff)
  ultimately show ?thesis using split by blast
qed

theorem duration_roundtrip_witness:
  "\<exists>m s. js_split 58 (formatCallDuration 6065) = [m, s] \<and> 2 \<le> length m \<and> length s = 2 \<and>
    60 * int (digits_value m) + int (digits_value s) = 6065"
  by (rule duration_roundtrip) simp

section \<open>Previews, pastes and menus\<close>

text \<open>Opening an image that is not decrypted yet asks for it once and shows it as soon as its preview
  exists, under the attachment's name, closing the list of attachments; until then nothing is shown.
\<close>

theorem preview_opens_when_decrypted:
  assumes "attachment_of msg = Some a" "is_image a" "at_name a \<noteq> []" "dm_id msg \<noteq> []"
    and "\<not> truthy (previews (dm_id msg))" "previews' (dm_id msg) = Some url" "url \<noteq> []"
    and "msg \<in> set visible" "distinct (map dm_id visible)"
  shows "let (u1, asked) = openAttachmentPreview previews msg u;
             u2 = previewsChanged previewText previews visible u1;
             u3 = previewsChanged previewText previews' visible u2
         in asked \<and> pu_imageViewer u2 = pu_imageViewer u \<and> pu_imageViewer u3 = Some (url, at_name a) \<and>
            pu_pendingImage u3 = [] \<and> \<not> pu_attachmentsOpened u3"
proof -
  have "find (\<lambda>m. dm_id m = dm_id msg) visible = Some msg"
    using assms(8,9) by (induction visible) auto
  with assms show ?thesis
    by (simp add: openAttachmentPreview_def previewsChanged_def Let_def or_str_def)
qed

definition image_msg :: decrypted_message where
  "image_msg = (sample_dm (js ''m1'') (js ''r'') [])\<lparr>dm_body := Some (sample_message\<lparr>pm_attachment :=
     Some \<lparr>at_fileId = js ''f'', at_name = js ''cat.png'', at_type = js ''image/png'', at_size = 9,
       at_ciphertextSize = 25, at_nonce = [], at_algorithm = []\<rparr>\<rparr>)\<rparr>"

theorem preview_opens_when_decrypted_witness:
  "let (u1, asked) = openAttachmentPreview (\<lambda>_. None) image_msg
         \<lparr>pu_attachmentsOpened = True, pu_imageViewer = None, pu_pendingImage = []\<rparr>;
       u2 = previewsChanged (js ''Preview'') (\<lambda>_. None) [image_msg] u1;
       u3 = previewsChanged (js ''Preview'') [js ''m1'' \<mapsto> js ''blob:1''] [image_msg] u2
   in asked \<and> pu_imageViewer u2 = None \<and> pu_imageViewer u3 = Some (js ''blob:1'', js ''cat.png'') \<and>
      pu_pendingImage u3 = [] \<and> \<not> pu_attachmentsOpened u3"
  using preview_opens_when_decrypted[of image_msg "the (attachment_of image_msg)" "\<lambda>_. None"
      "[js ''m1'' \<mapsto> js ''blob:1'']" "js ''blob:1''" "[image_msg]"
      "\<lparr>pu_attachmentsOpened = True, pu_imageViewer = None, pu_pendingImage = []\<rparr>" "js ''Preview''"]
  by (simp add: image_msg_def attachment_of_def is_image_def Let_def js_starts_def sample_message_def js_def)

text \<open>A deleted message offers no action but its details and its removal from this device.\<close>

lemma deleted_menu: "truthy (dm_deletedAt msg) \<Longrightarrow> messageMenu quick me msg = [MenuInfo, MenuDelete]"
  by (simp add: messageMenu_def)

lemma edit_offered:
  "MenuEdit \<in> set (messageMenu quick me msg) \<longleftrightarrow>
   dm_senderId msg = me \<and> \<not> truthy (dm_deletedAt msg) \<and> isPersistedMessageID (dm_id msg)"
  by (auto simp: messageMenu_def)

lemma extension_nonempty: "extension_of mime \<noteq> []"
  by (cases "map_option (js_replace_first (js ''jpeg'') (js ''jpg'')) (nth_opt (js_split 47 mime) 1)")
     (auto simp: extension_of_def or_str_def split: if_splits)

lemma pasted_file_named:
  "handleMessagePaste room sending now items = Some (name, mime, bytes) \<Longrightarrow> name \<noteq> [] \<and> mime \<noteq> [] \<and> \<not> sending"
  by (auto simp: handleMessagePaste_def imageFileFromClipboard_def or_str_def Let_def
      split: if_splits option.splits prod.splits)

end
