(* ===== verification/Shell.thy ===== *)
theory Shell
  imports Session Bubbles Complex_Main
begin

text \<open>
  The shell around the views: \<open>components/layout/AppShell.tsx\<close> (the resizable sidebar, the mobile
  tabs, the call panel and the modals), the room and call lists of \<open>components/layout/Sidebar.tsx\<close>,
  the login form of \<open>components/layout/AuthPage.tsx\<close> and the locale of \<open>lib/i18n.tsx\<close>.  A word
  picked by locale is a constructor; numbers of pixels are rational.  \<open>Number\<close> of a stored text is
  a parameter: its finite value, or None for NaN and the infinities.
\<close>

section \<open>The sidebar's width\<close>

definition DESKTOP_SIDEBAR_WIDTH_KEY :: jstr where
  "DESKTOP_SIDEBAR_WIDTH_KEY = js ''quietline:desktop-sidebar-width''"

definition MIN_DESKTOP_SIDEBAR_WIDTH :: rat where
  "MIN_DESKTOP_SIDEBAR_WIDTH = 280"

definition MAX_DESKTOP_SIDEBAR_WIDTH :: rat where
  "MAX_DESKTOP_SIDEBAR_WIDTH = 520"

definition clamp :: "rat \<Rightarrow> rat \<Rightarrow> rat \<Rightarrow> rat" where
  "clamp v lo hi = min (max v lo) hi"

definition storedNumber :: "(jstr option \<Rightarrow> rat option) \<Rightarrow> storage option \<Rightarrow> jstr \<Rightarrow> rat \<Rightarrow> rat" where
  "storedNumber number window key fallback =
     (case window of
        None \<Rightarrow> fallback
      | Some ls \<Rightarrow>
          (case number (ls key) of
             None \<Rightarrow> fallback
           | Some parsed \<Rightarrow> (if 0 < parsed then parsed else fallback)))"

record resize_ui =
  rz_width :: rat
  rz_drag :: "(rat \<times> rat) option"
  rz_listening :: bool

definition resizeMounted :: "(jstr option \<Rightarrow> rat option) \<Rightarrow> storage option \<Rightarrow> bool \<Rightarrow> resize_ui" where
  "resizeMounted number window isTablet =
     \<lparr>rz_width = storedNumber number window DESKTOP_SIDEBAR_WIDTH_KEY (if isTablet then 300 else 340),
      rz_drag = None, rz_listening = False\<rparr>"

definition startDesktopResize :: "bool \<Rightarrow> rat \<Rightarrow> resize_ui \<Rightarrow> resize_ui" where
  "startDesktopResize isMobile clientX u =
     (if isMobile then u else u\<lparr>rz_drag := Some (clientX, rz_width u), rz_listening := True\<rparr>)"

definition handleMove :: "rat \<Rightarrow> resize_ui \<Rightarrow> resize_ui" where
  "handleMove clientX u =
     (if \<not> rz_listening u then u
      else (case rz_drag u of
              None \<Rightarrow> u
            | Some (startX, startSidebarWidth) \<Rightarrow>
                u\<lparr>rz_width := clamp (startSidebarWidth + (clientX - startX)) MIN_DESKTOP_SIDEBAR_WIDTH MAX_DESKTOP_SIDEBAR_WIDTH\<rparr>))"

definition stopResize :: "resize_ui \<Rightarrow> resize_ui" where
  "stopResize u = u\<lparr>rz_drag := None, rz_listening := False\<rparr>"

text \<open>\<open>Math.round\<close>: the nearest integer, halves up.\<close>

definition js_round :: "rat \<Rightarrow> int" where
  "js_round x = floor (x + 1 / 2)"

definition widthEffect :: "bool \<Rightarrow> resize_ui \<Rightarrow> storage \<Rightarrow> storage" where
  "widthEffect isMobile u ls =
     (if isMobile then ls else ls(DESKTOP_SIDEBAR_WIDTH_KEY := Some (js_of_int (js_round (rz_width u)))))"

section \<open>Mobile tabs\<close>

datatype mobile_tab = TabContacts | TabRooms | TabCalls | TabSettings

fun tab_view :: "mobile_tab \<Rightarrow> app_view" where
  "tab_view TabContacts = VContacts"
| "tab_view TabRooms = VRooms"
| "tab_view TabCalls = VCalls"
| "tab_view TabSettings = VSettings"

datatype tab_action = CloseChat | SetMobileView app_view

definition openMobileTab :: "mobile_tab \<Rightarrow> app_view \<Rightarrow> nat \<times> nat \<Rightarrow> (nat \<times> nat) \<times> tab_action" where
  "openMobileTab tab mobileView = (\<lambda>(contactsResetKey, settingsResetKey).
     let current = (if mobileView = VChat then VRooms else mobileView)
     in if tab = TabRooms \<and> current = VRooms then ((contactsResetKey, settingsResetKey), CloseChat)
        else ((if tab = TabContacts \<and> current = VContacts then contactsResetKey + 1 else contactsResetKey,
               if tab = TabSettings \<and> current = VSettings then settingsResetKey + 1 else settingsResetKey),
              SetMobileView (tab_view tab)))"

definition showsTopBar :: "bool \<Rightarrow> app_view \<Rightarrow> bool" where
  "showsTopBar isMobile mobileView = (\<not> isMobile \<or> mobileView \<noteq> VChat)"

datatype badge_colour = BadgeGreen | BadgeYellow | BadgeRed

definition liveBadge :: "live_status \<Rightarrow> badge_colour" where
  "liveBadge s = (if s = Connected then BadgeGreen else if s = Connecting then BadgeYellow else BadgeRed)"

section \<open>The call panel\<close>

record call_panel =
  cp_opened :: bool
  cp_peerName :: jstr
  cp_incoming :: bool
  cp_active :: bool
  cp_failed :: bool

definition callPanel :: "jstr \<Rightarrow> call_state \<Rightarrow> call_offer option \<Rightarrow> jstr \<Rightarrow> call_panel" where
  "callPanel unknownUser callState incomingCall callPeerName =
     \<lparr>cp_opened = (callState \<noteq> CIdle \<or> incomingCall \<noteq> None),
      cp_peerName = or_str callPeerName (or_opt (map_option co_displayName incomingCall) unknownUser),
      cp_incoming = (callState = CRinging \<and> incomingCall \<noteq> None),
      cp_active = (callState = CConnected),
      cp_failed = (callState = CFailed)\<rparr>"

datatype panel_button = ButtonDismiss | ButtonDecline | ButtonAnswer | ButtonMute | ButtonHangUp

definition panelButtons :: "call_panel \<Rightarrow> panel_button list" where
  "panelButtons p =
     (if cp_failed p then [ButtonDismiss]
      else if cp_incoming p then [ButtonDecline, ButtonAnswer]
      else [ButtonMute, ButtonHangUp])"

fun call_state_name :: "call_state \<Rightarrow> jstr" where
  "call_state_name CIdle = js ''idle''"
| "call_state_name CCalling = js ''calling''"
| "call_state_name CRinging = js ''ringing''"
| "call_state_name CConnecting = js ''connecting''"
| "call_state_name CConnected = js ''connected''"
| "call_state_name CFailed = js ''failed''"

definition callDiagnosticsText :: "call_state \<Rightarrow> jstr \<Rightarrow> jstr \<Rightarrow> jstr \<Rightarrow> jstr \<Rightarrow> jstr list \<Rightarrow> jstr" where
  "callDiagnosticsText callState peerName callStatus callError nowISO diagnostics =
     js_join [10] ([js ''Quietline call diagnostics'',
       js ''state: '' @ call_state_name callState,
       js ''peer: '' @ peerName,
       js ''status: '' @ or_str callStatus (js ''-''),
       js ''error: '' @ or_str callError (js ''-''),
       js ''at: '' @ nowISO] @ [[]] @ diagnostics)"

text \<open>Device labels; an unnamed one is numbered from 1 after the word of the locale.\<close>

definition deviceOptions :: "jstr \<Rightarrow> (jstr \<times> jstr) list \<Rightarrow> (jstr \<times> jstr) list" where
  "deviceOptions word devices =
     map (\<lambda>(index, (deviceId, label)). (deviceId, or_str label (word @ js '' '' @ js_of_int (int index + 1))))
       (enumerate 0 devices)"

section \<open>Modals\<close>

definition profileAvatarSrc :: "jstr \<Rightarrow> identity \<Rightarrow> jstr \<Rightarrow> identity \<Rightarrow> jstr result" where
  "profileAvatarSrc base me ownSrc user =
     (if iy_userId user = iy_userId me then Inr ownSrc
      else bindR (encodeURIComponent (iy_userId user)) (\<lambda>e.
             Inr (absoluteAvatarUrl base (Some (js ''/v1/users/'' @ e @ js ''/avatar'')))))"

text \<open>None is the word for online; otherwise the time the user was last seen.\<close>

definition profilePresence :: "presence_entry option \<Rightarrow> identity \<Rightarrow> jstr option" where
  "profilePresence current user =
     (if map_option pe_status current = Some Online then None
      else Some (or_opt (map_option pe_lastSeenAt current) (iy_lastSeenAt user)))"

definition offersDeleteForEveryone :: "identity option \<Rightarrow> decrypted_message option \<Rightarrow> bool" where
  "offersDeleteForEveryone me target =
     (case target of
        None \<Rightarrow> False
      | Some msg \<Rightarrow> map_option iy_userId me = Some (dm_senderId msg) \<and> isPersistedMessageID (dm_id msg))"

section \<open>The room list\<close>

datatype room_time = TimeOfDay jstr | YesterdayWord | ShortDate jstr

text \<open>\<open>toDateString\<close> of an invalid date equals that of no valid one.\<close>

definition formatRoomTime ::
  "(jstr \<Rightarrow> calendar_day option) \<Rightarrow> calendar_day \<Rightarrow> calendar_day \<Rightarrow> jstr \<Rightarrow> room_time" where
  "formatRoomTime day today yesterday dateStr =
     (if day dateStr = Some today then TimeOfDay dateStr
      else if day dateStr = Some yesterday then YesterdayWord
      else ShortDate dateStr)"

definition isRecentlyOnline :: "(jstr \<Rightarrow> int option) \<Rightarrow> int \<Rightarrow> presence_entry option \<Rightarrow> bool" where
  "isRecentlyOnline dp now presence =
     (case presence of
        None \<Rightarrow> False
      | Some p \<Rightarrow>
          (if pe_status p = Online then True
           else (case dp (pe_lastSeenAt p) of None \<Rightarrow> False | Some seen \<Rightarrow> now - seen < 30000)))"

definition roomPeer :: "identity \<Rightarrow> room \<Rightarrow> identity option" where
  "roomPeer me r =
     (let peerID = find (\<lambda>m. m \<noteq> iy_userId me) (ro_members r)
      in find (\<lambda>p. Some (iy_userId p) = peerID) (nullish (ro_memberProfiles r) []))"

definition roomDisplayName :: "jstr \<Rightarrow> identity \<Rightarrow> room \<Rightarrow> jstr" where
  "roomDisplayName chatWord me r =
     or_str (js_trim (ro_name r))
       (if length (ro_members r) = 2 then or_opt (map_option iy_displayName (roomPeer me r)) chatWord else chatWord)"

definition roomAvatarUrl :: "jstr \<Rightarrow> identity \<Rightarrow> room \<Rightarrow> jstr result" where
  "roomAvatarUrl base me r =
     (case roomPeer me r of
        None \<Rightarrow> Inr []
      | Some peer \<Rightarrow>
          (if length (ro_members r) \<noteq> 2 then Inr []
           else bindR (encodeURIComponent (iy_userId peer)) (\<lambda>e. Inr (base @ js ''/v1/users/'' @ e @ js ''/avatar''))))"

datatype room_subtitle = SubOnline | SubLastSeen jstr | SubOffline | SubMembers nat

definition roomSubtitle ::
  "(jstr \<Rightarrow> int option) \<Rightarrow> int \<Rightarrow> (jstr, presence_entry) jmap \<Rightarrow> identity \<Rightarrow> room \<Rightarrow> room_subtitle" where
  "roomSubtitle dp now presence me r =
     (let peer = roomPeer me r;
          peerPresence = (case peer of None \<Rightarrow> None | Some p \<Rightarrow> jm_get presence (iy_userId p));
          peerLastSeen = or_opt (map_option pe_lastSeenAt peerPresence) (case peer of None \<Rightarrow> [] | Some p \<Rightarrow> iy_lastSeenAt p)
      in if length (ro_members r) = 2
         then (if isRecentlyOnline dp now peerPresence then SubOnline
               else if peerLastSeen \<noteq> [] then SubLastSeen peerLastSeen else SubOffline)
         else SubMembers (length (ro_members r)))"

definition roomLastActivity :: "room \<Rightarrow> jstr" where
  "roomLastActivity r = or_opt (ro_lastMessageAt r) (ro_createdAt r)"

definition totalUnread :: "room list \<Rightarrow> int" where
  "totalUnread rooms = foldl (\<lambda>sum r. sum + nullish (ro_unreadCount r) 0) 0 rooms"

definition unreadBadge :: "int \<Rightarrow> jstr option" where
  "unreadBadge n = (if 0 < n then Some (if 99 < n then js ''99+'' else js_of_int n) else None)"

section \<open>The call list\<close>

record call_entry =
  ce_peerName :: "jstr option"
  ce_icon :: note_icon
  ce_colour :: nat
  ce_status :: call_status
  ce_duration :: "jstr option"
  ce_room :: "room option"

text \<open>\<open>ce_peerName\<close> is None for the word of an unknown peer; \<open>ce_colour\<close> 0, 1, 2 is blue, red, gray.\<close>

definition callEntry :: "identity \<Rightarrow> room list \<Rightarrow> call_log \<Rightarrow> call_entry" where
  "callEntry me rooms entry =
     (let isOutgoing = (cl_callerId entry = iy_userId me);
          roomsMap = fold (\<lambda>r m. jm_set (ro_roomId r) r m) rooms [];
          r = jm_get roomsMap (cl_roomId entry);
          peerId = (if isOutgoing then cl_calleeId entry else cl_callerId entry);
          peerProfile = (case r of None \<Rightarrow> None | Some rm \<Rightarrow> find (\<lambda>m. iy_userId m = peerId) (nullish (ro_memberProfiles rm) []));
          peerName = or_opt (map_option iy_displayName peerProfile) (or_opt (map_option ro_name r) []);
          isMissed = (cl_status entry = Missed)
      in \<lparr>ce_peerName = nonempty peerName,
          ce_icon = (if isOutgoing then PhoneOut else if isMissed then PhoneEnd else PhoneIncoming),
          ce_colour = (if isOutgoing then 0 else if isMissed then 1 else 2),
          ce_status = cl_status entry,
          ce_duration = (if cl_status entry = Completed \<and> 0 < cl_durationSec entry
                         then Some (formatCallDuration (cl_durationSec entry)) else None),
          ce_room = r\<rparr>)"

section \<open>The login form\<close>

text \<open>The DOM values of the inputs that are mounted, and the values last read from them.\<close>

record form_refs =
  fr_username :: "jstr option"
  fr_password :: "jstr option"
  fr_displayName :: "jstr option"
  fr_totpCode :: "jstr option"

definition readFormValues :: "form_refs \<Rightarrow> app_state \<Rightarrow> jstr \<times> jstr \<times> jstr \<times> jstr" where
  "readFormValues refs c =
     (nullish (fr_username refs) (au_username c), nullish (fr_password refs) (au_password c),
      nullish (fr_displayName refs) (au_displayName c), nullish (fr_totpCode refs) (au_totpCode c))"

definition formDisabled :: "jstr \<times> jstr \<times> jstr \<times> jstr \<Rightarrow> app_state \<Rightarrow> bool" where
  "formDisabled snapshot c = (case snapshot of (u, p, d, t) \<Rightarrow>
     let effectiveUsername = or_str (au_username c) u;
         effectivePassword = or_str (au_password c) p;
         effectiveTotpCode = or_str (au_totpCode c) t
     in js_trim effectiveUsername = [] \<or> length effectivePassword < 8
        \<or> (au_totpRequired c \<and> length (js_trim effectiveTotpCode) < 6))"

text \<open>Enter submits unless disabled; the values submitted are read anew from the inputs.\<close>

definition formKey ::
  "jstr \<Rightarrow> jstr \<times> jstr \<times> jstr \<times> jstr \<Rightarrow> form_refs \<Rightarrow> app_state \<Rightarrow> (jstr \<times> jstr \<times> jstr \<times> jstr) option" where
  "formKey key snapshot refs c =
     (if key = js ''Enter'' \<and> \<not> formDisabled snapshot c then Some (readFormValues refs c) else None)"

datatype login_field = FieldUsername | FieldDisplayName | FieldPassword | FieldTotp | FieldError

definition loginFields :: "app_state \<Rightarrow> login_field list" where
  "loginFields c =
     [FieldUsername] @ (if au_mode c = RegisterMode then [FieldDisplayName] else []) @ [FieldPassword]
     @ (if au_totpRequired c \<and> au_mode c = LoginMode then [FieldTotp] else [])
     @ (if au_error c \<noteq> Text [] \<and> \<not> au_totpRequired c then [FieldError] else [])"

section \<open>The locale\<close>

datatype ui_locale = Ru | En

definition LOCALE_KEY :: jstr where
  "LOCALE_KEY = js ''quietline.locale.v1''"

fun locale_name :: "ui_locale \<Rightarrow> jstr" where
  "locale_name Ru = js ''ru''"
| "locale_name En = js ''en''"

text \<open>The locale after the provider's effect; \<open>language\<close> is \<open>navigator.language\<close> in lower case.\<close>

definition mountLocale :: "jstr \<Rightarrow> storage \<Rightarrow> ui_locale" where
  "mountLocale language ls =
     (if ls LOCALE_KEY = Some (js ''ru'') then Ru
      else if ls LOCALE_KEY = Some (js ''en'') then En
      else if js_starts (js ''ru'') language then Ru else En)"

definition setLocale :: "ui_locale \<Rightarrow> storage \<Rightarrow> ui_locale \<times> storage" where
  "setLocale nxt ls = (nxt, ls(LOCALE_KEY := Some (locale_name nxt)))"

section \<open>The width stays in its bounds\<close>

datatype resize_event = PointerDown bool rat | PointerMove rat | PointerUp

fun resize_step :: "resize_ui \<Rightarrow> resize_event \<Rightarrow> resize_ui" where
  "resize_step u (PointerDown isMobile x) = startDesktopResize isMobile x u"
| "resize_step u (PointerMove x) = handleMove x u"
| "resize_step u PointerUp = stopResize u"

definition width_ok :: "rat \<Rightarrow> resize_ui \<Rightarrow> bool" where
  "width_ok w0 u \<longleftrightarrow> rz_width u \<in> insert w0 {MIN_DESKTOP_SIDEBAR_WIDTH..MAX_DESKTOP_SIDEBAR_WIDTH}"

lemma clamp_bounds: "clamp v MIN_DESKTOP_SIDEBAR_WIDTH MAX_DESKTOP_SIDEBAR_WIDTH \<in>
    {MIN_DESKTOP_SIDEBAR_WIDTH..MAX_DESKTOP_SIDEBAR_WIDTH}"
  by (simp add: clamp_def MIN_DESKTOP_SIDEBAR_WIDTH_def MAX_DESKTOP_SIDEBAR_WIDTH_def min_def max_def)

lemma width_ok_step: "width_ok w0 u \<Longrightarrow> width_ok w0 (resize_step u e)"
  using clamp_bounds
  by (cases e) (auto simp: width_ok_def startDesktopResize_def handleMove_def stopResize_def split: option.split)

interpretation sidebar: step_system resize_step "width_ok w0" for w0
  by unfold_locales (rule width_ok_step)

text \<open>C28. However the pointer is dragged, the sidebar has the width it was mounted with or one between
  280 and 520 pixels.
\<close>

theorem dragged_width_bounds:
  "rz_width (foldl resize_step u events) \<in> insert (rz_width u) {MIN_DESKTOP_SIDEBAR_WIDTH..MAX_DESKTOP_SIDEBAR_WIDTH}"
  using sidebar.run_inv[of "rz_width u" u events] by (simp add: width_ok_def)

lemma js_round_bounds:
  "280 \<le> x \<Longrightarrow> x \<le> 520 \<Longrightarrow> 280 \<le> js_round x \<and> js_round x \<le> 520 \<and> \<bar>of_int (js_round x) - x\<bar> \<le> 1 / 2"
  unfolding js_round_def by linarith

text \<open>A width within the bounds that is stored and read back on the next visit is within the bounds
  again, at most half a pixel away; but what is read is only tested for being positive: any other
  stored number becomes the width as it is.
\<close>

theorem stored_width_survives:
  assumes number: "\<And>n. number (Some (js_of_int n)) = Some (of_int n)"
    and "280 \<le> rz_width u" "rz_width u \<le> 520"
  shows "(let w = rz_width (resizeMounted number (Some (widthEffect False u ls)) isTablet)
          in 280 \<le> w \<and> w \<le> 520 \<and> \<bar>w - rz_width u\<bar> \<le> 1 / 2)
    \<and> rz_width (resizeMounted number (Some [DESKTOP_SIDEBAR_WIDTH_KEY \<mapsto> js_of_int 5000]) isTablet) = 5000"
proof -
  note b = js_round_bounds[OF assms(2,3)]
  then have "(0 :: rat) < of_int (js_round (rz_width u))" by simp
  moreover have "(280 :: rat) \<le> of_int (js_round (rz_width u))" "of_int (js_round (rz_width u)) \<le> (520 :: rat)"
    using b by linarith+
  ultimately show ?thesis
    using b by (simp add: resizeMounted_def storedNumber_def widthEffect_def number Let_def)
qed

text \<open>\<open>Number\<close> on the texts of integers.\<close>

definition sample_number :: "jstr option \<Rightarrow> rat option" where
  "sample_number s = (case s of
      None \<Rightarrow> Some 0
    | Some t \<Rightarrow> (if t \<noteq> [] \<and> hd t = 45 then Some (- of_nat (digits_value (tl t))) else Some (of_nat (digits_value t))))"

lemma sample_number_int: "sample_number (Some (js_of_int n)) = Some (of_int n)"
proof (cases "n < 0")
  case True
  then show ?thesis by (simp add: sample_number_def js_of_int_def digits_value_of js_def)
next
  case False
  moreover have "hd (digits_of (nat n)) \<noteq> 45"
    using digits_of_range[of "hd (digits_of (nat n))" "nat n"] by auto
  ultimately show ?thesis by (simp add: sample_number_def js_of_int_def digits_value_of)
qed

theorem stored_width_survives_witness:
  "let u = \<lparr>rz_width = 811 / 2, rz_drag = None, rz_listening = False\<rparr>
   in (let w = rz_width (resizeMounted sample_number (Some (widthEffect False u Map.empty)) False)
          in 280 \<le> w \<and> w \<le> 520 \<and> \<bar>w - rz_width u\<bar> \<le> 1 / 2)
    \<and> rz_width (resizeMounted sample_number (Some [DESKTOP_SIDEBAR_WIDTH_KEY \<mapsto> js_of_int 5000]) False) = 5000"
  unfolding Let_def[of "\<lparr>rz_width = _, rz_drag = _, rz_listening = _\<rparr>"]
  by (rule stored_width_survives) (simp_all add: sample_number_int)

section \<open>The locale survives a reload\<close>

text \<open>The locale the user picks is the one the next visit starts with, whatever the browser's language.\<close>

theorem locale_survives_reload: "mountLocale language (snd (setLocale l ls)) = fst (setLocale l ls)"
  by (cases l) (simp_all add: mountLocale_def setLocale_def)

section \<open>The form submits what it shows\<close>

lemma or_str_self: "or_str a b = a \<or> a = []"
  by (simp add: or_str_def)

text \<open>When the inputs hold what the form takes them to hold (the state, or what the browser filled
  in), pressing Enter on an enabled form starts the login or the registration with the values of
  the inputs: the hook's own test of name and password does not refuse what the form let through.
\<close>

theorem enabled_form_submits:
  assumes "formKey (js ''Enter'') snapshot refs c = Some (u, p, d, t)"
    and "u = or_str (au_username c) (fst snapshot)" "p = or_str (au_password c) (fst (snd snapshot))"
  shows "let v = \<lparr>av_username = u, av_password = p, av_displayName = d, av_totpCode = t\<rparr>
         in snd (submitAuth c False (Some v) s) = [AxApi (authCall c v)] \<and>
            au_username (fst (submitAuth c False (Some v) s)) = u"
proof -
  from assms have "js_trim u \<noteq> []" "8 \<le> length p"
    by (auto simp: formKey_def formDisabled_def Let_def split: if_splits prod.splits)
  then show ?thesis by (simp add: submitAuth_def auth_values_of_def Let_def)
qed

section \<open>The peer of a call\<close>

lemma rooms_map_get:
  "distinct (map ro_roomId rooms) \<Longrightarrow> r \<in> set rooms \<Longrightarrow>
   jm_get (fold (\<lambda>r m. jm_set (ro_roomId r) r m) rooms m) (ro_roomId r) = Some r"
proof (induction rooms arbitrary: m rule: rev_induct)
  case (snoc x xs)
  then show ?case by (auto simp: jm_get_set) (metis imageI)
qed simp

text \<open>An entry of the call list names the other party of the call, not the user, and leads to its
  room: for a call in a listed room whose profiles include the other party, the name is that
  profile's, whichever side called.
\<close>

theorem call_entry_names_peer:
  assumes "r \<in> set rooms" "distinct (map ro_roomId rooms)" "ro_roomId r = cl_roomId entry"
    and "ro_memberProfiles r = Some profiles" "peer \<in> set profiles" "distinct (map iy_userId profiles)"
    and "{cl_callerId entry, cl_calleeId entry} = {iy_userId me, iy_userId peer}" "iy_userId me \<noteq> iy_userId peer"
    and "iy_displayName peer \<noteq> []"
  shows "let e = callEntry me rooms entry
         in ce_peerName e = Some (iy_displayName peer) \<and> ce_room e = Some r
            \<and> (ce_icon e = PhoneOut \<longleftrightarrow> cl_callerId entry = iy_userId me)"
proof -
  have "find (\<lambda>m. iy_userId m = iy_userId peer) profiles = Some peer"
    using assms(5,6) by (induction profiles) auto
  moreover have "(if cl_callerId entry = iy_userId me then cl_calleeId entry else cl_callerId entry) = iy_userId peer"
    using assms(7,8) by (auto simp: doubleton_eq_iff)
  moreover have "jm_get (fold (\<lambda>r m. jm_set (ro_roomId r) r m) rooms []) (cl_roomId entry) = Some r"
    using rooms_map_get[OF assms(2,1)] assms(3) by simp
  ultimately show ?thesis
    using assms(4,9) by (simp add: callEntry_def Let_def or_str_def nonempty_def)
qed

theorem enabled_form_submits_witness:
  "let c = blank_app\<lparr>au_username := js ''ann''\<rparr>;
       v = \<lparr>av_username = js ''ann'', av_password = js ''password'', av_displayName = [], av_totpCode = []\<rparr>
   in snd (submitAuth c False (Some v) c) = [AxApi (authCall c v)] \<and>
      au_username (fst (submitAuth c False (Some v) c)) = js ''ann''"
  using enabled_form_submits[of "(js ''ann'', js ''password'', [], [])"
      "\<lparr>fr_username = Some (js ''ann''), fr_password = Some (js ''password''), fr_displayName = None, fr_totpCode = None\<rparr>"
      "blank_app\<lparr>au_username := js ''ann''\<rparr>" "js ''ann''" "js ''password''" "[]" "[]"
      "blank_app\<lparr>au_username := js ''ann''\<rparr>"]
  by (simp add: formKey_def formDisabled_def readFormValues_def blank_app_def or_str_def js_trim_def js_def js_space_def Let_def)

definition shell_room :: room where
  "shell_room = \<lparr>ro_roomId = js ''r'', ro_name = [], ro_members = [js ''u'', js ''p''],
     ro_memberProfiles = Some [sample_identity, sample_identity\<lparr>iy_userId := js ''p'', iy_displayName := js ''Bob''\<rparr>],
     ro_roomSecret = None, ro_lastMessageAt = None, ro_unreadCount = None, ro_createdAt = []\<rparr>"

definition shell_log :: call_log where
  "shell_log = \<lparr>cl_id = js ''c'', cl_roomId = js ''r'', cl_callerId = js ''p'', cl_calleeId = js ''u'',
     cl_status = Missed, cl_durationSec = 0, cl_startedAt = [], cl_endedAt = []\<rparr>"

theorem call_entry_names_peer_witness:
  "let e = callEntry sample_identity [shell_room] shell_log
   in ce_peerName e = Some (js ''Bob'') \<and> ce_room e = Some shell_room
      \<and> (ce_icon e = PhoneOut \<longleftrightarrow> cl_callerId shell_log = js ''u'')"
  using call_entry_names_peer[of shell_room "[shell_room]" shell_log "the (ro_memberProfiles shell_room)"
      "sample_identity\<lparr>iy_userId := js ''p'', iy_displayName := js ''Bob''\<rparr>" sample_identity]
  by (simp add: shell_room_def shell_log_def sample_identity_def Let_def insert_commute)

end
