(* ===== verification/CallControls.thy ===== *)
theory CallControls
  imports CallProps Shell
begin

text \<open>
  The controls of a call, in \<open>components/MessengerApp.tsx\<close> and the panel of
  \<open>components/layout/AppShell.tsx\<close>: mute, the peer's volume, the lists of devices, and what the
  panel's buttons do.  \<open>Calls\<close> models the call; here its state is paired with the flag \<open>enabled\<close> of
  each microphone track and the value of the gain node.  The flag and the volume an asynchronous
  handler uses are those of the render it was made in, and are arguments.
\<close>

section \<open>State\<close>

record media_device =
  md_id :: jstr
  md_kind :: jstr
  md_label :: jstr

record call_controls =
  kc_sys :: call_sys
  kc_muted :: bool
  kc_volume :: rat
  kc_enabled :: "nat \<Rightarrow> bool"
  kc_gain :: rat
  kc_inputs :: "media_device list"
  kc_outputs :: "media_device list"

definition initial_controls :: call_controls where
  "initial_controls = \<lparr>kc_sys = idle_call, kc_muted = False, kc_volume = 1, kc_enabled = (\<lambda>_. True), kc_gain = 1,
     kc_inputs = [], kc_outputs = []\<rparr>"

text \<open>\<open>enumerateDevices\<close> is missing on some platforms.\<close>

definition refreshCallDevices :: "media_device list option \<Rightarrow> call_controls \<Rightarrow> call_controls" where
  "refreshCallDevices devices u =
     (case devices of
        None \<Rightarrow> u
      | Some ds \<Rightarrow> u\<lparr>kc_inputs := filter (\<lambda>d. md_kind d = js ''audioinput'') ds,
                     kc_outputs := filter (\<lambda>d. md_kind d = js ''audiooutput'') ds\<rparr>)"

section \<open>Mute and volume\<close>

definition mutedEffect :: "call_controls \<Rightarrow> call_controls" where
  "mutedEffect u =
     (case cf_stream (kc_sys u) of
        None \<Rightarrow> u
      | Some n \<Rightarrow> u\<lparr>kc_enabled := (kc_enabled u)(n := \<not> kc_muted u)\<rparr>)"

definition volumeEffect :: "call_controls \<Rightarrow> call_controls" where
  "volumeEffect u = (if cf_gain (kc_sys u) then u\<lparr>kc_gain := kc_volume u\<rparr> else u)"

definition clickMute :: "call_controls \<Rightarrow> call_controls" where
  "clickMute u = mutedEffect (u\<lparr>kc_muted := \<not> kc_muted u\<rparr>)"

definition slideVolume :: "rat \<Rightarrow> call_controls \<Rightarrow> call_controls" where
  "slideVolume v u = volumeEffect (u\<lparr>kc_volume := v\<rparr>)"

section \<open>Streams and gain nodes as they are made\<close>

text \<open>\<open>track.enabled = !isCallMuted\<close> on the stream \<open>getUserMedia\<close> gives.\<close>

definition newTracks :: "bool \<Rightarrow> nat \<Rightarrow> call_controls \<Rightarrow> call_controls" where
  "newTracks isCallMuted stream u = u\<lparr>kc_enabled := (kc_enabled u)(stream := \<not> isCallMuted)\<rparr>"

definition mediaTracks :: "bool \<Rightarrow> media_result \<Rightarrow> call_controls \<Rightarrow> call_controls" where
  "mediaTracks isCallMuted media u =
     (case media of
        MediaDenied _ \<Rightarrow> u
      | MediaGranted stream _ \<Rightarrow> newTracks isCallMuted stream u
      | MediaNoContext stream _ \<Rightarrow> newTracks isCallMuted stream u)"

definition startCallWith ::
    "call_closure \<Rightarrow> bool \<Rightarrow> jstr \<Rightarrow> jstr \<Rightarrow> jstr \<Rightarrow> identity \<Rightarrow> media_result \<Rightarrow> call_controls \<Rightarrow>
     call_controls \<times> call_effect list" where
  "startCallWith c isCallMuted stamp now callId target media u =
     (let (s', fx) = startCallMedia c stamp now callId target media (kc_sys u)
      in ((mediaTracks isCallMuted media u)\<lparr>kc_sys := s'\<rparr>, fx))"

text \<open>The gain node \<open>setupAudioPlayback\<close> makes, when there is an audio context.\<close>

definition newGain :: "rat \<Rightarrow> call_sys \<Rightarrow> call_controls \<Rightarrow> call_controls" where
  "newGain peerVolume s u = (if cf_context s = None then u else u\<lparr>kc_gain := peerVolume\<rparr>)"

definition answerCallWith ::
    "call_closure \<Rightarrow> bool \<Rightarrow> rat \<Rightarrow> jstr \<Rightarrow> jstr \<Rightarrow> jstr \<Rightarrow> call_offer \<Rightarrow> media_result \<Rightarrow> call_controls \<Rightarrow>
     call_controls \<times> call_effect list" where
  "answerCallWith c isCallMuted peerVolume myUserID stamp now inc media u =
     (let (s', fx) = answerCallMedia c myUserID stamp now inc media (kc_sys u);
          u1 = mediaTracks isCallMuted media u;
          u2 = (case media of MediaGranted stream ctx \<Rightarrow> newGain peerVolume (take_media stream ctx (kc_sys u)) u1 | _ \<Rightarrow> u1)
      in (u2\<lparr>kc_sys := s'\<rparr>, fx))"

definition handleAnswerWith :: "call_ctx \<Rightarrow> rat \<Rightarrow> jstr \<Rightarrow> call_controls \<Rightarrow> call_controls" where
  "handleAnswerWith x peerVolume callId u =
     (newGain peerVolume (kc_sys u) u)\<lparr>kc_sys := handleAnswer x callId (kc_sys u)\<rparr>"

text \<open>A stream that comes after the call changed is stopped and its tracks are left alone.\<close>

definition switchMicWith :: "bool \<Rightarrow> jstr \<Rightarrow> jstr \<Rightarrow> jstr \<Rightarrow> jstr + nat \<Rightarrow> call_controls \<Rightarrow> call_controls" where
  "switchMicWith isCallMuted myUserID stamp currentCallId media u =
     (case media of
        Inl _ \<Rightarrow> u
      | Inr stream \<Rightarrow> if cf_callId (kc_sys u) \<noteq> currentCallId then u else newTracks isCallMuted stream u)
     \<lparr>kc_sys := switchMicMedia myUserID stamp currentCallId media (kc_sys u)\<rparr>"

section \<open>The panel\<close>

datatype panel_action = DoEnd bool | DoDecline | DoAnswer | DoMute

fun buttonAction :: "panel_button \<Rightarrow> panel_action" where
  "buttonAction ButtonDismiss = DoEnd False"
| "buttonAction ButtonDecline = DoDecline"
| "buttonAction ButtonAnswer = DoAnswer"
| "buttonAction ButtonMute = DoMute"
| "buttonAction ButtonHangUp = DoEnd True"

text \<open>Closing the panel, with Escape, its cross or a click beside it.\<close>

definition closePanel :: panel_action where
  "closePanel = DoEnd True"

definition panelOf :: "jstr \<Rightarrow> call_sys \<Rightarrow> call_panel" where
  "panelOf unknownUser s = callPanel unknownUser (cu_state s) (cu_incoming s) (cu_peerName s)"

definition showsVolumeAndDevices :: "call_panel \<Rightarrow> bool" where
  "showsVolumeAndDevices p = (\<not> cp_incoming p \<and> \<not> cp_failed p)"

definition panelLine :: "call_panel \<Rightarrow> jstr \<Rightarrow> jstr \<Rightarrow> jstr \<Rightarrow> int \<Rightarrow> jstr" where
  "panelLine p callingWord callError callStatus callDurationSec =
     or_str callError (if cp_active p then formatCallDuration callDurationSec else or_str callStatus callingWord)"

text \<open>The button of the chat's menu: calls when idle, hangs up otherwise.\<close>

definition menuCallAction :: "jstr \<Rightarrow> call_state \<Rightarrow> panel_action option option" where
  "menuCallAction activeRoomID callState =
     (if activeRoomID = [] then None else Some (if callState = CIdle then None else Some (DoEnd True)))"

section \<open>What the mute button shows is what the microphone does\<close>

definition mute_true :: "call_controls \<Rightarrow> bool" where
  "mute_true u = (\<forall>n. cf_stream (kc_sys u) = Some n \<longrightarrow> kc_enabled u n = (\<not> kc_muted u))"

text \<open>The controls when a handler's answer comes in the render that asked for it; the other steps of
  the call open no stream (\<open>rest_opens_none\<close>).\<close>

inductive ctl_step :: "call_controls \<Rightarrow> call_controls \<Rightarrow> bool" where
  CStart: "startCallBegin c target stamp (kc_sys u) = (s1, fx1, Some peer) \<Longrightarrow>
    ctl_step u (fst (startCallWith c (kc_muted u) stamp now callId peer media (u\<lparr>kc_sys := s1\<rparr>)))"
| CAnswer: "answerCallBegin c stamp (kc_sys u) = (s1, fx1, Some off) \<Longrightarrow>
    ctl_step u (fst (answerCallWith c (kc_muted u) (kc_volume u) me stamp now off media (u\<lparr>kc_sys := s1\<rparr>)))"
| CSwitch: "switchMicBegin c (kc_sys u) = Some i \<Longrightarrow> ctl_step u (switchMicWith (kc_muted u) me stamp i media u)"
| CRest: "cf_stream s' = cf_stream (kc_sys u) \<or> cf_stream s' = None \<Longrightarrow> ctl_step u (u\<lparr>kc_sys := s', kc_gain := g\<rparr>)"
| CMute: "ctl_step u (clickMute u)"
| CVolume: "ctl_step u (slideVolume v u)"

inductive ctl_reachable :: "call_controls \<Rightarrow> bool" where
  CInit: "ctl_reachable initial_controls"
| CNext: "ctl_reachable u \<Longrightarrow> ctl_step u u' \<Longrightarrow> ctl_reachable u'"

lemma cleanup_stream [simp]: "cf_stream (cleanup_state k s) = None"
  by (simp add: cleanup_state_def)

lemma cleanupCall_stream: "cleanupCall c now n k s = (s', fx) \<Longrightarrow> cf_stream s' = None"
  by (auto simp: cleanupCall_def)

lemma media_failed_stream: "cf_stream (fst (media_failed c now n m s)) = None"
  by (simp add: media_failed_def cleanupCall_def)

lemma take_media_stream: "cf_stream (take_media stream ctx s) = Some stream"
  by (simp add: take_media_def Let_def split: option.split)

lemma started_stream:
  "cf_stream (fst (startCallMedia c stamp now i peer media s))
    = (case media of MediaGranted n _ \<Rightarrow> Some n | _ \<Rightarrow> None)"
  by (auto simp: startCallMedia_def media_failed_stream take_media_stream Let_def armCallTimeout_def clearCallTimeout_def
      split: media_result.split)

lemma answered_stream:
  "cf_stream (fst (answerCallMedia c me stamp now off media s))
    = (case media of MediaGranted n _ \<Rightarrow> Some n | _ \<Rightarrow> None)"
  by (auto simp: answerCallMedia_def media_failed_stream take_media_stream Let_def armConnectionTimeout_def clearCallTimeout_def
      split: media_result.split)

lemma switched_stream:
  "cf_stream (switchMicMedia me stamp i media s)
    = (case media of Inr n \<Rightarrow> if cf_callId s = i then Some n else cf_stream s | Inl _ \<Rightarrow> cf_stream s)"
  by (auto simp: switchMicMedia_def split: sum.split)

text \<open>The steps of a call that ask for no microphone keep its stream or give it up.\<close>

lemma rest_opens_none:
  "timerFired now s = (s', fx) \<Longrightarrow> cf_stream s' = cf_stream s \<or> cf_stream s' = None"
  "handleCallEvent x ev s = (s', fx) \<Longrightarrow> cf_stream s' = cf_stream s \<or> cf_stream s' = None"
  "declineIncomingCall c now s = (s', fx) \<Longrightarrow> cf_stream s' = None"
  "endCall c now n s = (s', fx) \<Longrightarrow> cf_stream s' = None"
  "cf_stream (durationTick dp ms c s) = cf_stream s"
proof -
  show "timerFired now s = (s', fx) \<Longrightarrow> cf_stream s' = cf_stream s \<or> cf_stream s' = None"
    by (auto simp: timerFired_def cleanupCall_def clearCallTimeout_def Let_def split: option.splits call_timer.splits if_splits)
  have audio: "cf_stream (fst (handleAudio x chunk sq t)) = cf_stream t" for chunk sq t
    by (auto simp: handleAudio_def appendRemoteAudioChunk_def clearCallTimeout_def Let_def split: option.split prod.split)
  have answer: "cf_stream (handleAnswer x i t) = cf_stream t" for i t
    by (simp add: handleAnswer_def Let_def armConnectionTimeout_def clearCallTimeout_def)
  have offer: "cf_stream (fst (handleOffer x off t)) = cf_stream t" for off t
    by (simp add: handleOffer_def armCallTimeout_def clearCallTimeout_def)
  show "cf_stream s' = cf_stream s \<or> cf_stream s' = None" if "handleCallEvent x ev s = (s', fx)"
  proof -
    have "s' = fst (handleCallEvent x ev s)" using that by simp
    then show ?thesis
      by (simp add: handleCallEvent_def cleanupCall_def Let_def audio answer offer split: option.split realtime_event.split)
  qed
  show "declineIncomingCall c now s = (s', fx) \<Longrightarrow> cf_stream s' = None"
    by (auto simp: declineIncomingCall_def cleanupCall_def)
  show "endCall c now n s = (s', fx) \<Longrightarrow> cf_stream s' = None"
    by (auto simp: endCall_def cleanupCall_def)
  show "cf_stream (durationTick dp ms c s) = cf_stream s"
    by (simp add: durationTick_def)
qed

lemma newGain_fields [simp]:
  "kc_enabled (newGain v s u) = kc_enabled u" "kc_muted (newGain v s u) = kc_muted u" "kc_sys (newGain v s u) = kc_sys u"
  by (simp_all add: newGain_def)

lemma mediaTracks_fields [simp]:
  "kc_muted (mediaTracks m media u) = kc_muted u" "kc_sys (mediaTracks m media u) = kc_sys u"
  by (simp_all add: mediaTracks_def newTracks_def split: media_result.split)

lemma ctl_step_true: "ctl_step u u' \<Longrightarrow> mute_true u \<Longrightarrow> mute_true u'"
proof (induction rule: ctl_step.induct)
  case (CStart c target stamp u s1 fx1 peer now callId media)
  then show ?case
    using started_stream[of c stamp now callId peer media s1]
    by (auto simp: startCallWith_def mute_true_def mediaTracks_def newTracks_def split: prod.splits media_result.splits)
next
  case (CAnswer c stamp u s1 fx1 off me now media)
  then show ?case
    using answered_stream[of c me stamp now off media s1]
    by (auto simp: answerCallWith_def mute_true_def mediaTracks_def newTracks_def Let_def
        split: prod.splits media_result.splits)
next
  case (CSwitch c u i me stamp media)
  then show ?case
    using switched_stream[of me stamp i media "kc_sys u"]
    by (auto simp: switchMicWith_def mute_true_def newTracks_def split: sum.splits if_splits)
next
  case (CMute u)
  then show ?case by (auto simp: mute_true_def clickMute_def mutedEffect_def split: option.splits)
next
  case (CVolume u v)
  then show ?case by (auto simp: mute_true_def slideVolume_def volumeEffect_def)
qed (auto simp: mute_true_def)

section \<open>Properties\<close>

text \<open>C14. The mute button tells the truth: in every state the controls reach when the answer of
  \<open>getUserMedia\<close> comes in the render that asked for it, the tracks of the microphone are enabled
  exactly when the call is not shown as muted, through new calls and changes of the microphone.\<close>

theorem mute_button_is_true:
  assumes "ctl_reachable u" "cf_stream (kc_sys u) = Some n"
  shows "kc_enabled u n \<longleftrightarrow> \<not> kc_muted u"
proof -
  have "mute_true u"
    using assms(1)
  proof (induction rule: ctl_reachable.induct)
    case CInit
    show ?case by (simp add: mute_true_def initial_controls_def idle_call_def)
  qed (rule ctl_step_true)
  with assms(2) show ?thesis by (simp add: mute_true_def)
qed

definition alice_muted :: call_controls where
  "alice_muted = (let s1 = fst (startCallBegin alice (js ''b'') [] idle_call);
       peer = sample_identity\<lparr>iy_userId := js ''b''\<rparr>
     in clickMute (fst (startCallWith alice False [] [] (js ''i'') peer (MediaGranted 1 None) (initial_controls\<lparr>kc_sys := s1\<rparr>))))"

lemma alice_begins: "startCallBegin alice (js ''b'') [] idle_call
    = (addCallDiagnostic [] (js ''Starting call'') (idle_call\<lparr>cu_diagnostics := []\<rparr>), [CxGetUserMedia],
       Some (sample_identity\<lparr>iy_userId := js ''b''\<rparr>))"
  by (simp add: startCallBegin_def alice_def)

lemma alice_muted_reachable: "ctl_reachable alice_muted"
proof -
  have "startCallBegin alice (js ''b'') [] (kc_sys initial_controls) = (fst (startCallBegin alice (js ''b'') [] idle_call),
      [CxGetUserMedia], Some (sample_identity\<lparr>iy_userId := js ''b''\<rparr>))"
    by (simp add: initial_controls_def alice_begins)
  from CStart[OF this, of "[]" "js ''i''" "MediaGranted 1 None"] show ?thesis
    unfolding alice_muted_def Let_def
    by (intro CNext[OF CNext[OF CInit] CMute]) (simp add: initial_controls_def)
qed

lemma clickMute_sys: "kc_sys (clickMute u) = kc_sys u"
  by (simp add: clickMute_def mutedEffect_def split: option.split)

lemma startCallWith_sys: "kc_sys (fst (startCallWith c m stamp now i peer media u)) = fst (startCallMedia c stamp now i peer media (kc_sys u))"
  by (simp add: startCallWith_def split: prod.split)

lemma alice_muted_stream: "cf_stream (kc_sys alice_muted) = Some 1"
  by (simp add: alice_muted_def Let_def clickMute_sys startCallWith_sys started_stream)

theorem mute_button_is_true_witness: "kc_enabled alice_muted 1 \<longleftrightarrow> \<not> kc_muted alice_muted"
  by (rule mute_button_is_true [OF alice_muted_reachable alice_muted_stream])

text \<open>But a user who answers and presses Mute while the browser still asks for the microphone is
  shown as muted and heard all the same: the button is there, the effect finds no stream yet, and
  \<open>answerCall\<close> enables the tracks by the flag of the render in which it was called.\<close>

theorem mute_while_answering_is_lost:
  assumes "cu_incoming (kc_sys u) = Some off" "cf_stream (kc_sys u) = None" "cc_identity c = Some B" "iy_userId B \<noteq> []"
    and "co_fromUserId off \<noteq> []" "\<not> kc_muted u"
  shows "let c0 = render_of c (kc_sys u);
      s1 = fst (answerCallBegin c0 stamp (kc_sys u));
      u1 = clickMute (u\<lparr>kc_sys := s1\<rparr>);
      u2 = fst (answerCallWith c0 (kc_muted u) (kc_volume u) (iy_userId B) stamp now off (MediaGranted n (Some cx)) u1)
    in ButtonMute \<in> set (panelButtons (panelOf w s1)) \<and> kc_muted u2
       \<and> cf_stream (kc_sys u2) = Some n \<and> kc_enabled u2 n \<and> cf_source (kc_sys u2)"
proof -
  define s1 where "s1 = fst (answerCallBegin (render_of c (kc_sys u)) stamp (kc_sys u))"
  define u1 where "u1 = clickMute (u\<lparr>kc_sys := s1\<rparr>)"
  have s1: "s1 = addCallDiagnostic stamp (js ''Answering call'') ((kc_sys u)\<lparr>cu_state := CConnecting\<rparr>)"
    using assms(1,3) by (simp add: s1_def answerCallBegin_def)
  then have "cf_stream s1 = None" "cu_state s1 = CConnecting" using assms(2) by simp_all
  then have u1: "u1 = u\<lparr>kc_sys := s1, kc_muted := True\<rparr>" and panel: "ButtonMute \<in> set (panelButtons (panelOf w s1))"
    using assms(6) by (simp_all add: u1_def clickMute_def mutedEffect_def panelOf_def callPanel_def panelButtons_def)
  obtain s2 fx where a: "answerCallMedia (render_of c (kc_sys u)) (iy_userId B) stamp now off (MediaGranted n (Some cx)) s1 = (s2, fx)"
    by fastforce
  then have s2: "cf_stream s2 = Some n" "cf_source s2"
    using answered_stream[of "render_of c (kc_sys u)" "iy_userId B" stamp now off "MediaGranted n (Some cx)" s1] assms(4,5)
    by (auto simp: answerCallMedia_def Let_def streaming_source armConnectionTimeout_def clearCallTimeout_def
        take_media_def)
  show ?thesis
    unfolding Let_def s1_def[symmetric] u1_def[symmetric]
    using panel a s2 assms(6)
    by (simp add: u1 answerCallWith_def mediaTracks_def newTracks_def)
qed

theorem mute_while_answering_is_lost_witness:
  "let c0 = render_of bob (kc_sys (initial_controls\<lparr>kc_sys := bob_rings\<rparr>));
      s1 = fst (answerCallBegin c0 [] (kc_sys (initial_controls\<lparr>kc_sys := bob_rings\<rparr>)));
      u1 = clickMute ((initial_controls\<lparr>kc_sys := bob_rings\<rparr>)\<lparr>kc_sys := s1\<rparr>);
      u2 = fst (answerCallWith c0 (kc_muted (initial_controls\<lparr>kc_sys := bob_rings\<rparr>)) (kc_volume (initial_controls\<lparr>kc_sys := bob_rings\<rparr>))
        (iy_userId (sample_identity\<lparr>iy_userId := js ''b''\<rparr>)) [] [] sample_offer (MediaGranted 1 (Some 2)) u1)
    in ButtonMute \<in> set (panelButtons (panelOf [] s1)) \<and> kc_muted u2
       \<and> cf_stream (kc_sys u2) = Some 1 \<and> kc_enabled u2 1 \<and> cf_source (kc_sys u2)"
proof -
  have "released bob_rings" using call_reachable_inv[OF bob_rings_reachable] bob_rings_fields(1) by (auto simp: call_inv_def)
  then show ?thesis
    by (intro mute_while_answering_is_lost)
      (simp_all add: bob_rings_fields released_def bob_def sample_offer_def initial_controls_def)
qed

text \<open>Closing the panel of a call that rings, unlike its Decline button, tells nobody: the call is
  gone here, nothing is sent to the caller and no note is written, since the identifiers \<open>endCall\<close>
  uses are set by answering only.\<close>

theorem closing_ringing_panel_is_silent:
  assumes "call_reachable s" "cu_state s = CRinging" "cc_identity c = Some B"
  shows "closePanel = DoEnd True \<and> endCall (render_of c s) now True s = (idle_call, [])
    \<and> (\<exists>off. cu_incoming s = Some off \<and> panelButtons (panelOf w s) = [ButtonDecline, ButtonAnswer]
        \<and> sends (snd (declineIncomingCall (render_of c s) now s)) = [EvCallDecline \<lparr>cr_callId = co_callId off,
            cr_roomId = co_roomId off, cr_fromUserId = iy_userId B, cr_toUserId = co_fromUserId off\<rparr> (Some DeclinedByUser)])"
proof -
  have inv: "call_inv s" using call_reachable_inv[OF assms(1)] .
  then obtain off where off: "cu_incoming s = Some off" using assms(2) by (auto simp: call_inv_def)
  have rel: "released s" using inv assms(2) by (auto simp: call_inv_def)
  have "endCall (render_of c s) now True s = (idle_call, [])"
    using rel cleanup_idle[OF inv] by (simp add: endCall_def cleanupCall_def cleanup_effects_def released_def Let_def)
  moreover have "panelButtons (panelOf w s) = [ButtonDecline, ButtonAnswer]"
    using assms(2) off by (simp add: panelButtons_def panelOf_def callPanel_def)
  ultimately show ?thesis
    using off assms(3)
    by (simp add: closePanel_def declineIncomingCall_def cleanupCall_def cleanup_effects_def)
qed

theorem closing_ringing_panel_is_silent_witness:
  "endCall (render_of bob bob_rings) [] True bob_rings = (idle_call, [])"
  by (rule closing_ringing_panel_is_silent [THEN conjunct2, THEN conjunct1, OF bob_rings_reachable bob_rings_fields(1)])
    (simp add: bob_def)

end
