(* ===== verification/Rooms.thy ===== *)
theory Rooms
  imports Session
begin

text \<open>
  Rooms, members and friends: \<open>hooks/useRooms.ts\<close>, \<open>hooks/useIdentity.ts\<close>, \<open>hooks/useFriends.ts\<close>
  and the room helpers of \<open>components/MessengerApp.tsx\<close>.  A mutation is the call it makes and the
  handlers of its answer; \<open>tr k\<close> is the translation \<open>t(k)\<close> where it goes into a request.
\<close>

section \<open>Activity of rooms\<close>

definition room_activity :: "room \<Rightarrow> jstr" where
  "room_activity r = or_opt (ro_lastMessageAt r) (ro_createdAt r)"

definition room_cmp :: "(jstr \<Rightarrow> int option) \<Rightarrow> room \<Rightarrow> room \<Rightarrow> int" where
  "room_cmp dp a b = date_diff (dp (room_activity b)) (dp (room_activity a))"

definition patch_room :: "jstr \<Rightarrow> jstr option \<Rightarrow> bool \<Rightarrow> bool \<Rightarrow> room \<Rightarrow> room" where
  "patch_room roomId at_opt incrementUnread clearUnread r =
     (if ro_roomId r \<noteq> roomId then r
      else r\<lparr>ro_lastMessageAt := (case at_opt of None \<Rightarrow> ro_lastMessageAt r | Some t \<Rightarrow> Some t),
             ro_unreadCount := Some (if clearUnread then 0
               else nullish (ro_unreadCount r) 0 + (if incrementUnread then 1 else 0))\<rparr>)"

definition patchRoomActivity ::
    "(jstr \<Rightarrow> int option) \<Rightarrow> jstr \<Rightarrow> jstr option \<Rightarrow> bool \<Rightarrow> bool \<Rightarrow> app_state \<Rightarrow> app_state" where
  "patchRoomActivity dp roomId at_opt incrementUnread clearUnread s =
     s\<lparr>ap_rooms := map_option (\<lambda>rs. js_sort (room_cmp dp) (map (patch_room roomId at_opt incrementUnread clearUnread) rs))
        (ap_rooms s)\<rparr>"

section \<open>Creating and importing\<close>

definition account_call :: "app_state \<Rightarrow> (identity \<Rightarrow> jstr \<Rightarrow> 'a result) \<Rightarrow> 'a result" where
  "account_call c f =
     (case (au_identity c, au_session c) of
        (Some i, Some a) \<Rightarrow> f i (as_accessToken a)
      | _ \<Rightarrow> Inl (Err (js ''account_required'')))"

definition createRoomCall :: "(jstr \<Rightarrow> jstr) \<Rightarrow> app_state \<Rightarrow> jstr \<Rightarrow> jstr \<Rightarrow> api_call result" where
  "createRoomCall tr c roomName newRoomSecret =
     account_call c (\<lambda>i token. Inr (CallCreateRoom token None (or_str (js_trim roomName) (tr (js ''privateRoom'')))
       [iy_userId i] (nonempty (js_trim newRoomSecret))))"

definition createdSecret :: "room \<Rightarrow> jstr \<Rightarrow> jstr \<Rightarrow> jstr" where
  "createdSecret r requested freshSecret = or_opt (ro_roomSecret r) (or_str requested freshSecret)"

text \<open>The members of an invite are sent as texts; what the payload holds instead is printed.\<close>

definition json_text_of :: "json \<Rightarrow> jstr" where
  "json_text_of v = (case v of JStr t \<Rightarrow> t | _ \<Rightarrow> stringify v)"

definition importInviteCall :: "(jstr \<Rightarrow> jstr) \<Rightarrow> app_state \<Rightarrow> jstr \<Rightarrow> (api_call \<times> jstr) result" where
  "importInviteCall tr c inviteText =
     account_call c (\<lambda>i token.
       case parseInviteToken inviteText of
         None \<Rightarrow> Inl (Err (js ''invite_format_must_be_roomId_secret''))
       | Some p \<Rightarrow> Inr (CallCreateRoom token (Some (json_text_of (ip_roomId p))) (tr (js ''importedRoom'')) [iy_userId i]
                     (Some (json_text_of (ip_secret p))), json_text_of (ip_secret p)))"

definition chat_route :: "jstr \<Rightarrow> app_route" where
  "chat_route roomId = \<lparr>ar_view = Some VChat, ar_roomId = Some roomId, ar_messageId = None\<rparr>"

text \<open>What both success handlers do; a room name that is no valid text makes \<open>encodeURIComponent\<close>
  raise, and the rest of the handler is not run.\<close>

definition enterRoom :: "app_state \<Rightarrow> bool \<Rightarrow> room \<Rightarrow> jstr \<Rightarrow> ui_text \<Rightarrow> ui_text \<Rightarrow> app_state \<Rightarrow> app_state \<times> app_effect list" where
  "enterRoom c isMobile r secret title body s =
     (let s1 = (persistRoomSecrets c (jm_set (ro_roomId r) secret (nv_secrets c)) s)\<lparr>nv_room := ro_roomId r, nv_highlighted := []\<rparr>;
          s2 = (if isMobile then s1\<lparr>nv_mobileView := VChat\<rparr> else s1\<lparr>nv_sidebarView := VChat\<rparr>)
      in (s2, case replaceAppURL True (chat_route (ro_roomId r)) of
                Inr (Some p) \<Rightarrow> [AxPath p, AxInvalidate (js ''chat-rooms''), AxNotify title body]
              | _ \<Rightarrow> []))"

definition createRoomSuccess :: "app_state \<Rightarrow> bool \<Rightarrow> room \<Rightarrow> jstr \<Rightarrow> app_state \<Rightarrow> app_state \<times> app_effect list" where
  "createRoomSuccess c isMobile r secret s =
     enterRoom c isMobile r secret (Key (js ''roomReady'')) (Key (js ''roomReadyMessage'')) (s\<lparr>nv_createRoom := False\<rparr>)"

definition importInviteSuccess :: "app_state \<Rightarrow> bool \<Rightarrow> room \<Rightarrow> jstr \<Rightarrow> app_state \<Rightarrow> app_state \<times> app_effect list" where
  "importInviteSuccess c isMobile r inviteSecret s =
     enterRoom c isMobile r (or_opt (ro_roomSecret r) inviteSecret)
       (Key (js ''inviteImported'')) (Key (js ''inviteImportedMessage'')) (s\<lparr>nv_importInvite := False\<rparr>)"

definition inviteFriendCall :: "app_state \<Rightarrow> friend \<Rightarrow> api_call result" where
  "inviteFriendCall c f =
     (case au_session c of
        Some a \<Rightarrow> if nv_room c = [] then Inl (Err (js ''room_not_ready''))
                  else Inr (CallInviteFriendToRoom (as_accessToken a) (nv_room c) (fr_userId f))
      | None \<Rightarrow> Inl (Err (js ''room_not_ready'')))"

definition inviteFriendSuccess :: "friend \<Rightarrow> app_effect list" where
  "inviteFriendSuccess f = [AxInvalidate (js ''chat-rooms''), AxNotify (Key (js ''inviteFriend'')) (Text (fr_displayName f))]"

section \<open>Leaving and reading\<close>

definition sendSystemMessage :: "(jstr \<Rightarrow> jstr) \<Rightarrow> app_state \<Rightarrow> jstr \<Rightarrow> jstr \<Rightarrow> api_call option result" where
  "sendSystemMessage tr c now roomID =
     (case (au_identity c, au_session c) of
        (Some i, Some a) \<Rightarrow>
          if roomID = [] then Inr None
          else bindR (encodePlainMessage \<lparr>pm_text = [], pm_senderName = iy_displayName i,
                  pm_senderAvatarUrl = pr_avatarUrl (as_principal a), pm_sentAt = now, pm_replyTo = None,
                  pm_system = Some (Leave (iy_displayName i @ js '' '' @ tr (js ''systemLeft''))), pm_attachment = None\<rparr>)
                (\<lambda>p. Inr (Some (CallSendEncryptedMessage (as_accessToken a) roomID (iy_userId i) p)))
      | _ \<Rightarrow> Inr None)"

text \<open>The calls of leaving: the note, whose failure is ignored, then the request.\<close>

definition leaveCalls :: "(jstr \<Rightarrow> jstr) \<Rightarrow> app_state \<Rightarrow> jstr \<Rightarrow> api_call list" where
  "leaveCalls tr c now =
     (case (au_identity c, au_session c) of
        (Some i, Some a) \<Rightarrow>
          if nv_room c = [] then []
          else (case sendSystemMessage tr c now (nv_room c) of Inr (Some call) \<Rightarrow> [call] | _ \<Rightarrow> [])
               @ [CallLeaveRoom (as_accessToken a) (nv_room c) (iy_userId i)]
      | _ \<Rightarrow> [])"

definition leaveSuccess :: "app_state \<Rightarrow> app_state \<Rightarrow> app_state \<times> app_effect list" where
  "leaveSuccess c s =
     ((persistRoomSecrets c (AList.delete (nv_room c) (nv_secrets c)) s)
        \<lparr>nv_room := [], nv_highlighted := [], ap_msgs := (ap_msgs s)\<lparr>ms_pending := []\<rparr>, nv_mobileView := VRooms,
         nv_sidebarView := VRooms, nv_chatActions := False, nv_leaveConfirm := False\<rparr>,
      [AxInvalidate (js ''chat-rooms'')])"

definition leaveFailure :: "(js_error \<Rightarrow> jstr) \<Rightarrow> js_error \<Rightarrow> app_state \<Rightarrow> app_state \<times> app_effect list" where
  "leaveFailure pm err s =
     (if is_auth_error err then handleAuthExpired s
      else (s, [AxNotify (Key (js ''leaveFailed'')) (Text (message_of pm err))]))"

text \<open>The version of \<open>MessengerApp\<close>, which marks the time it runs.\<close>

definition leaveActiveRoomBegin :: "(jstr \<Rightarrow> jstr) \<Rightarrow> app_state \<Rightarrow> jstr \<Rightarrow> app_state \<Rightarrow> app_state \<times> app_effect list" where
  "leaveActiveRoomBegin tr c now s =
     (if nv_room c = [] \<or> au_identity c = None \<or> au_session c = None then (s, [])
      else (s\<lparr>nv_leaving := True\<rparr>, map AxApi (leaveCalls tr c now)))"

definition leaveActiveRoomDone ::
    "(js_error \<Rightarrow> jstr) \<Rightarrow> app_state \<Rightarrow> unit result \<Rightarrow> app_state \<Rightarrow> app_state \<times> app_effect list" where
  "leaveActiveRoomDone pm c res s =
     (let (s', fx) = (case res of Inr _ \<Rightarrow> leaveSuccess c s | Inl err \<Rightarrow> leaveFailure pm err s)
      in (s'\<lparr>nv_leaving := False\<rparr>, fx))"

definition markReadFailure :: "js_error \<Rightarrow> app_state \<Rightarrow> app_state \<times> app_effect list" where
  "markReadFailure err s = (if is_auth_error err then handleAuthExpired s else (s, []))"

text \<open>The effect that marks a room read when the number of shown messages changed; \<open>marks\<close> is the ref.\<close>

definition markReadEffect ::
    "app_state \<Rightarrow> nat \<Rightarrow> (jstr, nat) jmap \<Rightarrow> (jstr, nat) jmap \<times> app_effect list" where
  "markReadEffect c shown marks =
     (case au_session c of
        None \<Rightarrow> (marks, [])
      | Some a \<Rightarrow>
          if nv_room c = [] \<or> jm_get marks (nv_room c) = Some shown then (marks, [])
          else (jm_set (nv_room c) shown marks, [AxApi (CallMarkRoomRead (as_accessToken a) (nv_room c))]))"

section \<open>Choosing a room\<close>

definition selectRoom :: "bool \<Rightarrow> room \<Rightarrow> app_state \<Rightarrow> app_state \<times> app_effect list" where
  "selectRoom isMobile r s =
     (let s1 = s\<lparr>nv_room := ro_roomId r, nv_highlighted := [], ap_msgs := (ap_msgs s)\<lparr>ms_pending := []\<rparr>\<rparr>
      in (if isMobile then s1\<lparr>nv_mobileView := VChat\<rparr> else s1\<lparr>nv_sidebarView := VRooms\<rparr>, [AxAskPermission]))"

definition closeChat :: "app_state \<Rightarrow> app_state" where
  "closeChat s = s\<lparr>nv_chatActions := False, nv_room := [], nv_highlighted := [],
     ap_msgs := (ap_msgs s)\<lparr>ms_pending := []\<rparr>, nv_mobileView := VRooms, nv_sidebarView := VRooms\<rparr>"

definition requestLeaveChat :: "app_state \<Rightarrow> app_state" where
  "requestLeaveChat s = s\<lparr>nv_leaveConfirm := True\<rparr>"

definition saveManualSecret :: "app_state \<Rightarrow> app_state \<Rightarrow> app_state" where
  "saveManualSecret c s =
     (if nv_room c = [] \<or> js_trim (nv_roomSecret c) = [] then s
      else (persistRoomSecrets c (jm_set (nv_room c) (js_trim (nv_roomSecret c)) (nv_secrets c)) s)\<lparr>nv_roomSecret := []\<rparr>)"

text \<open>The order of \<open>sort()\<close> on two strings: by code units.\<close>

fun js_le :: "jstr \<Rightarrow> jstr \<Rightarrow> bool" where
  "js_le [] t = True"
| "js_le (a # s) [] = False"
| "js_le (a # s) (b # t) = (a < b \<or> a = b \<and> js_le s t)"

definition directRoomId :: "jstr \<Rightarrow> jstr \<Rightarrow> jstr" where
  "directRoomId me other = js ''direct-'' @ js_join (js ''-'') (if js_le me other then [me, other] else [other, me])"

definition openDirectChatBegin ::
    "app_state \<Rightarrow> bool \<Rightarrow> friend \<Rightarrow> jstr \<Rightarrow> app_state \<Rightarrow> app_state \<times> app_effect list" where
  "openDirectChatBegin c isMobile f secret s =
     (case (au_identity c, au_session c) of
        (Some i, Some a) \<Rightarrow>
          (let directRoomId = directRoomId (iy_userId i) (fr_userId f)
           in case List.find (\<lambda>r. ro_roomId r = directRoomId) (nullish (ap_rooms c) []) of
                Some r \<Rightarrow> selectRoom isMobile r s
              | None \<Rightarrow> (s, [AxApi (CallCreateRoom (as_accessToken a) (Some directRoomId)
                  (or_str (fr_displayName f) (js ''Direct'')) [iy_userId i] (Some secret))]))
      | _ \<Rightarrow> (s, []))"

definition openDirectChatCreated ::
    "app_state \<Rightarrow> friend \<Rightarrow> jstr \<Rightarrow> room \<Rightarrow> app_state \<Rightarrow> app_state \<times> app_effect list" where
  "openDirectChatCreated c f secret r s =
     (persistRoomSecrets c (jm_set (ro_roomId r) (or_opt (ro_roomSecret r) secret) (nv_secrets c)) s,
      case au_session c of None \<Rightarrow> [] | Some a \<Rightarrow> [AxApi (CallInviteFriendToRoom (as_accessToken a) (ro_roomId r) (fr_userId f))])"

definition openDirectChatInvited :: "bool \<Rightarrow> room \<Rightarrow> app_state \<Rightarrow> app_state \<times> app_effect list" where
  "openDirectChatInvited isMobile r s =
     (let (s', fx) = selectRoom isMobile r s in (s', AxInvalidate (js ''chat-rooms'') # fx))"

definition copyAppURL :: "jstr \<Rightarrow> app_route \<Rightarrow> app_effect list result" where
  "copyAppURL origin options =
     bindR (buildAppURL True origin options) (\<lambda>link. Inr (if link = [] then [] else [AxClipboard link]))"

section \<open>Derived values\<close>

definition activeRoomData :: "app_state \<Rightarrow> room option" where
  "activeRoomData c = List.find (\<lambda>r. ro_roomId r = nv_room c) (nullish (ap_rooms c) [])"

definition activeRoomSecret :: "app_state \<Rightarrow> jstr" where
  "activeRoomSecret c =
     (let own = (case activeRoomData c of None \<Rightarrow> None | Some r \<Rightarrow> ro_roomSecret r)
      in or_opt own (if nv_room c = [] then [] else nullish (jm_get (nv_secrets c) (nv_room c)) []))"

definition activeInvite :: "app_state \<Rightarrow> jstr result" where
  "activeInvite c =
     (if nv_room c \<noteq> [] \<and> activeRoomSecret c \<noteq> [] then createInviteToken (nv_room c) (activeRoomSecret c) else Inr [])"

definition activeInviteLink :: "jstr \<Rightarrow> jstr \<Rightarrow> app_state \<Rightarrow> jstr result" where
  "activeInviteLink origin pathname c =
     bindR (activeInvite c) (\<lambda>t. if t = [] then Inr []
       else bindR (encodeURIComponent t) (\<lambda>q. Inr (origin @ pathname @ js ''?invite='' @ q)))"

definition activeChatLink :: "jstr \<Rightarrow> app_state \<Rightarrow> jstr result" where
  "activeChatLink origin c = (if nv_room c = [] then Inr [] else buildAppURL True origin (chat_route (nv_room c)))"

definition filteredRooms :: "(jstr \<Rightarrow> jstr) \<Rightarrow> jstr \<Rightarrow> app_state \<Rightarrow> room list" where
  "filteredRooms lower roomSearch c =
     (let query = lower (js_trim roomSearch); rs = nullish (ap_rooms c) []
      in if query = [] then rs else filter (\<lambda>r. js_includes (lower (ro_name r @ js '' '' @ ro_roomId r)) query) rs)"

section \<open>Members and friends\<close>

text \<open>\<open>Promise.all\<close> over the members: the first authentication error rejects, any other failure leaves the member out.\<close>

definition memberCalls :: "room \<Rightarrow> jstr \<Rightarrow> api_call list" where
  "memberCalls r token = map (\<lambda>m. CallFetchIdentity m token) (ro_members r)"

fun memberIdentities :: "identity result list \<Rightarrow> identity list result" where
  "memberIdentities [] = Inr []"
| "memberIdentities (Inr i # rs) = bindR (memberIdentities rs) (\<lambda>xs. Inr (i # xs))"
| "memberIdentities (Inl e # rs) = (if is_auth_error e then Inl e else memberIdentities rs)"

definition touchCall :: "app_state \<Rightarrow> api_call option" where
  "touchCall c = (case (au_identity c, au_session c) of
     (Some i, Some a) \<Rightarrow> Some (CallTouchIdentity (iy_userId i) (as_accessToken a)) | _ \<Rightarrow> None)"

definition identitiesByID :: "identity list \<Rightarrow> (jstr, identity) jmap" where
  "identitiesByID is = fold (\<lambda>i m. jm_set (iy_userId i) i m) is []"

definition peers_of :: "identity option \<Rightarrow> identity list \<Rightarrow> identity list" where
  "peers_of me is = filter (\<lambda>i. Some (iy_userId i) \<noteq> map_option iy_userId me) is"

definition acceptedFriends :: "friend list \<Rightarrow> friend list" where
  "acceptedFriends fs = filter (\<lambda>f. fr_status f = Accepted) fs"

definition requestFriendCall :: "app_state \<Rightarrow> jstr \<Rightarrow> api_call result" where
  "requestFriendCall c friendUsername =
     (case au_session c of
        Some a \<Rightarrow> if js_trim friendUsername = [] then Inl (Err (js ''friend_code_required''))
                  else Inr (CallRequestFriend (as_accessToken a) (js_trim friendUsername))
      | None \<Rightarrow> Inl (Err (js ''friend_code_required'')))"

definition respondFriendCall :: "app_state \<Rightarrow> friend \<Rightarrow> bool \<Rightarrow> api_call result" where
  "respondFriendCall c f accept = with_token c (\<lambda>token. CallRespondFriend token (fr_userId f) accept)"

end
