(* ===== verification/Realtime.thy ===== *)
theory Realtime
  imports Rooms
begin

text \<open>
  The realtime side of \<open>components/MessengerApp.tsx\<close>: the frames of the socket, the events, typing
  and presence, the fan-out to friends, and the sending part of \<open>hooks/useWebSocket.ts\<close>.
  \<open>rt_env\<close> is what a handler takes from its render besides the state: the parser of dates, the
  clock, and the context of the call handlers of the same render.
\<close>

section \<open>Events\<close>

record rt_env =
  rv_dp :: "jstr \<Rightarrow> int option"
  rv_nowMs :: int
  rv_now :: jstr
  rv_call :: call_ctx

definition currentUserID :: "app_state \<Rightarrow> jstr" where
  "currentUserID c =
     or_str (case au_identity c of None \<Rightarrow> [] | Some i \<Rightarrow> iy_userId i)
       (case au_session c of None \<Rightarrow> [] | Some a \<Rightarrow> pr_userId (as_principal a))"

definition currentDisplayName :: "app_state \<Rightarrow> jstr" where
  "currentDisplayName c =
     or_str (case au_identity c of None \<Rightarrow> [] | Some i \<Rightarrow> iy_displayName i)
       (case au_session c of None \<Rightarrow> []
        | Some a \<Rightarrow> or_str (pr_displayName (as_principal a)) (pr_username (as_principal a)))"

definition online_event :: "jstr \<Rightarrow> jstr \<Rightarrow> jstr \<Rightarrow> bool option \<Rightarrow> realtime_event" where
  "online_event userId name now echo = EvPresence userId name Online now echo"

definition presence_set :: "jstr \<Rightarrow> presence_entry \<Rightarrow> app_state \<Rightarrow> app_state" where
  "presence_set u e s = s\<lparr>ap_presence := jm_set u e (ap_presence s)\<rparr>"

definition profile_entry :: "rt_env \<Rightarrow> jstr \<Rightarrow> presence_entry option \<Rightarrow> presence_entry" where
  "profile_entry e name old =
     \<lparr>pe_displayName = Some name, pe_status = (case old of None \<Rightarrow> Offline | Some p \<Rightarrow> pe_status p),
      pe_lastSeenAt = (case old of None \<Rightarrow> rv_now e | Some p \<Rightarrow> pe_lastSeenAt p)\<rparr>"

definition call_event :: "rt_env \<Rightarrow> app_state \<Rightarrow> realtime_event \<Rightarrow> app_state \<Rightarrow> app_state \<times> app_effect list" where
  "call_event e c ev s =
     (let (cs, fx) = handleCallEvent (rv_call e) ev (ap_call s)
      in (s\<lparr>ap_call := cs\<rparr>, concat (map (run_call_effect c s) fx)))"

definition rooms_changed :: "app_state \<Rightarrow> jstr option \<Rightarrow> app_effect list" where
  "rooms_changed c roomId =
     AxRefetch (js ''chat-rooms'')
     # (if truthy roomId \<and> the roomId = nv_room c then [AxRefetch (js ''chat-identities'')] else [])"

definition revoked :: "app_state \<Rightarrow> jstr option \<Rightarrow> bool" where
  "revoked c sessionId =
     (truthy sessionId \<and> sessionId = (case au_session c of None \<Rightarrow> None | Some a \<Rightarrow> pr_sessionId (as_principal a)))"

definition from_self :: "jstr \<Rightarrow> realtime_event \<Rightarrow> bool" where
  "from_self me ev = (case call_ref_of ev of None \<Rightarrow> False | Some r \<Rightarrow> cr_fromUserId r = me)"

definition handleRealtimeEvent :: "rt_env \<Rightarrow> app_state \<Rightarrow> realtime_event \<Rightarrow> app_state \<Rightarrow> app_state \<times> app_effect list" where
  "handleRealtimeEvent e c ev s =
     (let me = currentUserID c
      in if me = [] \<or> from_self me ev then (s, [])
      else case ev of
        EvTyping userId name typing _ \<Rightarrow>
          if userId = me then (s, [])
          else (s\<lparr>ap_typing := jm_set userId (name, if typing then rv_nowMs e + 3500 else 0) (ap_typing s)\<rparr>, [])
      | EvPresence userId name status seen echo \<Rightarrow>
          if userId = me then (s, [])
          else (presence_set userId \<lparr>pe_displayName = Some name, pe_status = status, pe_lastSeenAt = seen\<rparr> s,
                case au_identity c of
                  Some i \<Rightarrow> if echo = Some True
                    then sendToUserRaw userId (online_event (iy_userId i) (iy_displayName i) (rv_now e) None) s else []
                | None \<Rightarrow> [])
      | EvProfileUpdated userId name _ \<Rightarrow>
          if userId = me then (s, [])
          else ((presence_set userId (profile_entry e name (jm_get (ap_presence s) userId)) s)\<lparr>au_avatarVersion := rv_nowMs e\<rparr>,
                [AxInvalidate (js ''chat-rooms'')])
      | EvChatsChanged roomId _ _ \<Rightarrow> (s, rooms_changed c roomId)
      | EvRoomsChanged roomId _ _ \<Rightarrow> (s, rooms_changed c roomId)
      | EvMessageCreated roomId _ senderId at_time \<Rightarrow>
          (patchRoomActivity (rv_dp e) roomId (Some at_time) (senderId \<noteq> me \<and> roomId \<noteq> nv_room c) False s, [])
      | EvFriendsChanged _ _ \<Rightarrow> (s, [AxInvalidate (js ''friends'')])
      | EvSessionsChanged _ _ \<Rightarrow> (s, [AxInvalidate (js ''account-sessions'')])
      | EvSessionRevoked _ sessionId _ \<Rightarrow>
          if revoked c sessionId then handleAuthExpired s else (s, [AxInvalidate (js ''account-sessions'')])
      | EvMessageRead roomId userId _ \<Rightarrow>
          if userId = me then (patchRoomActivity (rv_dp e) roomId None False True s, [])
          else (s, if roomId = nv_room c then [AxRefetch (js ''chat-messages'')] else [])
      | _ \<Rightarrow> call_event e c ev s)"

text \<open>A frame's data is an event when it has a text \<open>kind\<close>, and a message otherwise.\<close>

datatype frame_data = FrameEvent realtime_event | FrameMessage encrypted_message

definition handleIncomingData :: "rt_env \<Rightarrow> app_state \<Rightarrow> frame_data \<Rightarrow> app_state \<Rightarrow> app_state \<times> app_effect list" where
  "handleIncomingData e c d s =
     (case d of
        FrameEvent ev \<Rightarrow> handleRealtimeEvent e c ev s
      | FrameMessage m \<Rightarrow>
          (patchRoomActivity (rv_dp e) (em_roomId m) (Some (em_createdAt m))
             (em_senderId m \<noteq> currentUserID c \<and> em_roomId m \<noteq> nv_room c) False
             (s\<lparr>ap_msgs := (ap_msgs s)\<lparr>ms_live := liveAppend m (ms_live (ap_msgs s))\<rparr>\<rparr>), []))"

datatype frame =
    Malformed
  | ErrorFrame "jstr option"
  | DataFrame jstr frame_data

text \<open>\<open>onmessage\<close> of the socket made for \<open>roomID\<close> and \<open>userID\<close>.\<close>

definition onFrame :: "rt_env \<Rightarrow> app_state \<Rightarrow> jstr \<Rightarrow> jstr \<Rightarrow> frame \<Rightarrow> app_state \<Rightarrow> app_state \<times> app_effect list" where
  "onFrame e c userID roomID f s =
     (case f of
        Malformed \<Rightarrow> (s, [])
      | ErrorFrame code \<Rightarrow> (s, [AxNotify (Key (js ''wsError'')) (Text (nullish code (js ''websocket_error'')))])
      | DataFrame topic d \<Rightarrow>
          if topic = room_topic roomID \<or> topic = user_topic userID then handleIncomingData e c d s else (s, []))"

definition onOpen :: "rt_env \<Rightarrow> app_state \<Rightarrow> jstr \<Rightarrow> nat \<Rightarrow> app_state \<Rightarrow> app_state \<times> app_effect list" where
  "onOpen e c userID n s =
     (let s1 = s\<lparr>ap_ws := ws_onopen n (ap_ws s)\<rparr>
      in (s1, if currentDisplayName c = [] then []
              else sendRealtimeRaw c (online_event userID (currentDisplayName c) (rv_now e) None) s1))"

section \<open>Typing and presence\<close>

definition typingExpiry :: "int \<Rightarrow> app_state \<Rightarrow> app_state" where
  "typingExpiry now s = s\<lparr>ap_typing := filter (\<lambda>(u, v). snd v > now) (ap_typing s)\<rparr>"

definition activeTyping :: "app_state \<Rightarrow> int \<Rightarrow> jstr list" where
  "activeTyping c now =
     map (\<lambda>(u, v). fst v) (filter (\<lambda>(u, v). Some u \<noteq> map_option iy_userId (au_identity c) \<and> snd v > now) (ap_typing c))"

text \<open>The effect of the fetched members; \<open>c\<close> is the render's presence, \<open>s\<close> the current one.\<close>

definition presence_of_member :: "app_state \<Rightarrow> identity \<Rightarrow> presence_entry" where
  "presence_of_member c i =
     (let old = jm_get (ap_presence c) (iy_userId i)
      in \<lparr>pe_displayName = Some (iy_displayName i), pe_status = (case old of None \<Rightarrow> Offline | Some p \<Rightarrow> pe_status p),
          pe_lastSeenAt = (case old of None \<Rightarrow> iy_lastSeenAt i | Some p \<Rightarrow> pe_lastSeenAt p)\<rparr>)"

definition presenceInit :: "app_state \<Rightarrow> identity list \<Rightarrow> app_state \<Rightarrow> app_state" where
  "presenceInit c members s = fold (\<lambda>i. presence_set (iy_userId i) (presence_of_member c i)) members s"

definition announcePresence :: "app_state \<Rightarrow> friend list \<Rightarrow> jstr \<Rightarrow> app_state \<Rightarrow> app_effect list" where
  "announcePresence c friends now s =
     (case au_identity c of
        Some i \<Rightarrow> if ws_live (ap_ws c) \<noteq> Connected then []
                  else concat (map (\<lambda>f. sendToUserRaw (fr_userId f) (online_event (iy_userId i) (iy_displayName i) now (Some True)) s) friends)
      | None \<Rightarrow> [])"

definition announceOffline :: "app_state \<Rightarrow> friend list \<Rightarrow> jstr \<Rightarrow> app_state \<Rightarrow> app_effect list" where
  "announceOffline c friends now s =
     (case au_identity c of
        Some i \<Rightarrow> concat (map (\<lambda>f. sendToUserRaw (fr_userId f) (offline_event i now) s) friends)
                  @ (if nv_room c \<noteq> [] then sendRealtimeRaw c (offline_event i now) s else [])
      | None \<Rightarrow> [])"

definition mobilePeerStatus :: "(jstr \<Rightarrow> jstr) \<Rightarrow> (jstr \<Rightarrow> jstr) \<Rightarrow> identity list \<Rightarrow> app_state \<Rightarrow> int \<Rightarrow> jstr" where
  "mobilePeerStatus tr toLocaleString peers c now =
     (let online = filter (\<lambda>m. map_option pe_status (jm_get (ap_presence c) (iy_userId m)) = Some Online) peers;
          typing = activeTyping c now;
          statusText = (if online \<noteq> [] then js_join (js '', '') (map iy_displayName online) @ js '': '' @ tr (js ''online'')
            else case peers of
              [m] \<Rightarrow> iy_displayName m @ js '': '' @ tr (js ''lastSeen'') @ js '' ''
                @ formatLastSeen toLocaleString (Some (or_opt (map_option pe_lastSeenAt (jm_get (ap_presence c) (iy_userId m))) (iy_lastSeenAt m)))
            | _ \<Rightarrow> js_of_int (int (length peers)) @ js '': '' @ tr (js ''offline''))
      in if peers = [] then []
         else if typing = [] then statusText
         else statusText @ js '' '' @ [183] @ js '' '' @ js_join (js '', '') typing @ js '' '' @ tr (js ''typing''))"

section \<open>The socket hook\<close>

text \<open>What \<open>hooks/useWebSocket.ts\<close> sends; its connection is that of \<open>Sockets\<close> without the status.\<close>

definition h_realtime_topic :: "jstr \<Rightarrow> realtime_event \<Rightarrow> jstr" where
  "h_realtime_topic activeRoomID ev =
     (if truthy (event_room ev) then room_topic (the (event_room ev))
      else if activeRoomID \<noteq> [] then room_topic activeRoomID else [])"

definition h_sendRealtime :: "jstr \<Rightarrow> realtime_event \<Rightarrow> ws_sys \<Rightarrow> app_effect list" where
  "h_sendRealtime activeRoomID ev s =
     (let topic = h_realtime_topic activeRoomID ev in if ws_can_send s \<and> topic \<noteq> [] then [AxSend topic ev] else [])"

definition h_connectWS :: "auth_session option \<Rightarrow> jstr \<Rightarrow> ws_sys \<Rightarrow> ws_sys" where
  "h_connectWS session roomID s = (connectWS session roomID s)\<lparr>ws_live := ws_live s\<rparr>"

definition h_onOpen :: "jstr \<Rightarrow> jstr \<Rightarrow> jstr \<Rightarrow> jstr \<Rightarrow> app_effect list" where
  "h_onOpen userID name roomID now =
     (if name = [] \<or> roomID = [] then [] else [AxSend (room_topic roomID) (online_event userID name now None)])"

definition h_onclose :: "nat \<Rightarrow> ws_sys \<Rightarrow> ws_sys" where
  "h_onclose n s =
     (case ws_conn s n of
        None \<Rightarrow> s
      | Some (roomID, a) \<Rightarrow>
          if as_accessToken a = [] \<or> ws_ref s \<noteq> Some n then s else s\<lparr>ws_timer := Some (roomID, a)\<rparr>)"

definition h_closeWS :: "ws_sys \<Rightarrow> ws_sys" where
  "h_closeWS s = ws_cleanup s"

definition h_sendPresenceOffline :: "jstr \<Rightarrow> jstr \<Rightarrow> jstr \<Rightarrow> jstr \<Rightarrow> ws_sys \<Rightarrow> app_effect list" where
  "h_sendPresenceOffline userId name roomId now s =
     (if ws_can_send s \<and> roomId \<noteq> [] then [AxSend (room_topic roomId) (EvPresence userId name Offline now None)] else [])"

end
