(* ===== verification/SessionProps.thy ===== *)
theory SessionProps
  imports Session
begin

text \<open>
  What the session promises: leaving an account clears it, expiry is told once, stored secrets
  come back to their own account, a login with a second factor; and the answers that arrive for
  a session that is gone.
\<close>

section \<open>Leaving an account\<close>

definition account_left :: "app_state \<Rightarrow> bool" where
  "account_left s = (au_session s = None \<and> au_identity s = None \<and> nv_secrets s = [] \<and> nv_deleted s = [] \<and> nv_room s = []
     \<and> nv_highlighted s = [] \<and> ms_live (ap_msgs s) = [] \<and> ms_pending (ap_msgs s) = [] \<and> ap_typing s = [] \<and> ap_presence s = []
     \<and> au_totpCode s = [] \<and> \<not> au_totpRequired s \<and> nv_mobileView s = VRooms \<and> nv_sidebarView s = VRooms
     \<and> ap_rooms s = None)"

lemmas left_defs = clearAccountLocalState_def reset_chat_def account_left_def

lemma expired_left: "\<not> au_expiredNotified s \<Longrightarrow> account_left (fst (handleAuthExpired s))"
  by (simp add: handleAuthExpired_def left_defs)

lemma expired_notified [simp]: "au_expiredNotified (fst (handleAuthExpired s))"
  by (simp add: handleAuthExpired_def left_defs)

lemma expired_again: "au_expiredNotified s \<Longrightarrow> handleAuthExpired s = (s, [])"
  by (simp add: handleAuthExpired_def)

lemma expired_ws: "\<not> au_expiredNotified s \<Longrightarrow> ap_ws (fst (handleAuthExpired s)) = dropSocket (ap_ws s)"
  by (simp add: handleAuthExpired_def left_defs)

definition auth_errors :: "(js_error \<Rightarrow> jstr) \<Rightarrow> (js_error \<times> ui_text) list \<Rightarrow> app_state \<Rightarrow> app_state \<times> app_effect list" where
  "auth_errors pm errs s = fold (\<lambda>(e, t) (s, fx). let (s', fx') = handleRequestError pm e t s in (s', fx @ fx')) errs (s, [])"

lemma auth_errors_again:
  "\<forall>(e, t) \<in> set errs. is_auth_error e \<Longrightarrow> au_expiredNotified s \<Longrightarrow>
     fold (\<lambda>(e, t) (s, fx). let (s', fx') = handleRequestError pm e t s in (s', fx @ fx')) errs (s, fx) = (s, fx)"
  by (induction errs) (auto simp: handleRequestError_def expired_again)

text \<open>C18. However many requests fail because the session expired, the user is told once, and the first
  failure has left the account: session, identity, room secrets, open chat, unsent and live
  messages, presence, second factor and cached queries are gone and the connection is closed.\<close>

theorem expiry_told_once:
  assumes "ws_reachable (ap_ws s)" "\<not> au_expiredNotified s" "errs \<noteq> []" "\<forall>(e, t) \<in> set errs. is_auth_error e"
  shows "let (s', fx) = auth_errors pm errs s
    in account_left s' \<and> ws_open (ap_ws s') = [] \<and> ws_ref (ap_ws s') = None
       \<and> fx = [AxClearQueries, AxNotify (Key (js ''sessionExpired'')) (Key (js ''sessionExpiredMessage''))]"
proof -
  from assms(3) obtain e t r where errs: "errs = (e, t) # r" by (cases errs) auto
  let ?s = "fst (handleAuthExpired s)"
  have "auth_errors pm errs s = fold (\<lambda>(e, t) (s, fx). let (s', fx') = handleRequestError pm e t s in (s', fx @ fx')) r
      (?s, snd (handleAuthExpired s))"
    using assms(4) by (auto simp: auth_errors_def errs handleRequestError_def split: prod.splits)
  also have "\<dots> = (?s, snd (handleAuthExpired s))"
    using assms(4) by (intro auth_errors_again) (auto simp: errs)
  finally show ?thesis
    using expired_left [OF assms(2)] expired_ws [OF assms(2)] dropSocket_inv [OF ws_reachable_inv [OF assms(1)]] assms(2)
    by (simp add: handleAuthExpired_def)
qed

theorem expiry_told_once_witness:
  "let (s', fx) = auth_errors (\<lambda>_. []) [(AuthError (js ''x''), Key (js ''roomError'')), (AuthError (js ''y''), Key (js ''sessions''))] blank_app
    in account_left s' \<and> ws_open (ap_ws s') = [] \<and> ws_ref (ap_ws s') = None
       \<and> fx = [AxClearQueries, AxNotify (Key (js ''sessionExpired'')) (Key (js ''sessionExpiredMessage''))]"
  by (rule expiry_told_once) (simp_all add: blank_app_def ws_reachable.Init)

section \<open>Secrets of an account\<close>

lemma secrets_of_json_of [simp]: "secrets_of_json (json_of_secrets m) = m"
  by (induction m) (auto simp: json_of_secrets_def List.map_filter_def)

lemma deleted_of_json_of [simp]: "deleted_of_json (json_of_deleted m) = m"
  by (induction m) (auto simp: json_of_deleted_def List.map_filter_def)

lemma json_ok_secrets: "json_ok (json_of_secrets m)" "json_ok (json_of_deleted d)"
  by (auto simp: json_of_secrets_def json_of_deleted_def list_all_iff)

lemma stringify_not_Nil: "json_ok v \<Longrightarrow> stringify v \<noteq> []"
  using stringify_start [of v] by auto

lemma read_back:
  "json_ok v \<Longrightarrow> readStoredJSON (st(k \<mapsto> stringify v)) k = Some v"
  by (simp add: readStoredJSON_def json_parse_stringify stringify_not_Nil)

lemma scoped_key_inject: "accountScopedKey k a = accountScopedKey k b \<longleftrightarrow> a = b"
  by (simp add: accountScopedKey_def)

lemma scoped_key_kinds: "accountScopedKey ROOM_SECRETS_KEY a \<noteq> accountScopedKey LOCAL_DELETED_MESSAGES_KEY b"
  by (simp add: accountScopedKey_def ROOM_SECRETS_KEY_def LOCAL_DELETED_MESSAGES_KEY_def js_lit)

text \<open>What loading an account reads of the storage.\<close>

definition stored_secrets :: "storage \<Rightarrow> auth_session \<Rightarrow> (jstr, jstr) jmap" where
  "stored_secrets st a =
     (let accountId = accountStorageID (Some a);
          v = (if accountId = [] then None else readStoredJSON st (accountScopedKey ROOM_SECRETS_KEY accountId))
      in case v of None \<Rightarrow> [] | Some j \<Rightarrow> secrets_of_json j)"

lemma load_secrets: "nv_secrets (fst (loadAccountLocalState mobile a s)) = stored_secrets (ap_storage s) a"
  by (simp add: loadAccountLocalState_def stored_secrets_def reset_chat_def Let_def)

lemma load_storage: "ap_storage (fst (loadAccountLocalState mobile a s)) = ap_storage s"
  by (simp add: loadAccountLocalState_def reset_chat_def Let_def)

lemma logout_storage: "ap_storage (fst (logoutLocal c now remote s)) = ap_storage s"
  by (simp add: logoutLocal_def left_defs)

lemma persist_storage:
  assumes "au_session c = Some a" "accountStorageID (Some a) \<noteq> []"
  shows "stored_secrets (ap_storage (persistRoomSecrets c m s)) b
    = (if accountStorageID (Some b) = accountStorageID (Some a) then m else stored_secrets (ap_storage s) b)"
  using assms scoped_key_inject [of ROOM_SECRETS_KEY]
  by (auto simp: persistRoomSecrets_def stored_secrets_def Let_def read_back json_ok_secrets)
    (auto simp: readStoredJSON_def)

lemma persist_other_key:
  "(\<And>a. k \<noteq> accountScopedKey ROOM_SECRETS_KEY a) \<Longrightarrow> ap_storage (persistRoomSecrets c m s) k = ap_storage s k"
  by (simp add: persistRoomSecrets_def Let_def)

text \<open>C19. The room secrets a user saves come back after logout when the same account logs in, entry for
  entry, and another account gets what it had stored itself; the message deletions stored under
  the other key are not touched.\<close>

theorem secrets_survive_relogin:
  assumes "au_session c = Some a" "accountStorageID (Some a) \<noteq> []"
  shows "let s1 = persistRoomSecrets c m s;
      s2 = fst (logoutLocal c now remote s1);
      s3 = fst (saveSession mobile b True s2)
    in nv_secrets s2 = []
       \<and> nv_secrets s3 = (if accountStorageID (Some b) = accountStorageID (Some a) then m else stored_secrets (ap_storage s) b)
       \<and> (\<forall>x. ap_storage s3 (accountScopedKey LOCAL_DELETED_MESSAGES_KEY x) = ap_storage s (accountScopedKey LOCAL_DELETED_MESSAGES_KEY x))"
proof -
  have "ap_storage (persistRoomSecrets c m s) (accountScopedKey LOCAL_DELETED_MESSAGES_KEY x)
      = ap_storage s (accountScopedKey LOCAL_DELETED_MESSAGES_KEY x)" for x
    using scoped_key_kinds [of _ x] by (metis persist_other_key)
  moreover have "nv_secrets (fst (logoutLocal c now remote (persistRoomSecrets c m s))) = []"
    by (simp add: logoutLocal_def left_defs)
  ultimately show ?thesis
    using persist_storage [OF assms, of m s b]
    by (simp add: Let_def saveSession_def load_secrets load_storage logout_storage)
qed

definition ann_app :: app_state where
  "ann_app = blank_app\<lparr>au_session := Some sample_session, au_identity := Some sample_identity\<rparr>"

theorem secrets_survive_relogin_witness:
  "let s1 = persistRoomSecrets ann_app [(js ''r'', js ''k'')] ann_app;
      s2 = fst (logoutLocal ann_app [] True s1);
      s3 = fst (saveSession True sample_session True s2)
    in nv_secrets s2 = []
       \<and> nv_secrets s3 = (if accountStorageID (Some sample_session) = accountStorageID (Some sample_session) then [(js ''r'', js ''k'')]
            else stored_secrets (ap_storage ann_app) sample_session)
       \<and> (\<forall>x. ap_storage s3 (accountScopedKey LOCAL_DELETED_MESSAGES_KEY x) = ap_storage ann_app (accountScopedKey LOCAL_DELETED_MESSAGES_KEY x))"
  by (rule secrets_survive_relogin) (simp_all add: ann_app_def accountStorageID_def sample_session_def or_str_def)

section \<open>Login\<close>

text \<open>C32. A login with a second factor: a submission without a user name, with a password under eight
  characters or while another is pending does nothing; a challenge asks for the code and keeps
  what was typed; the answer with a session saves it, forgets the code and the error, loads the
  account's stored secrets and asks for its identity with the new token.\<close>

theorem login_second_factor:
  assumes "\<not> (js_trim (au_username s) = [] \<or> length (au_password s) < 8)" "au_mode s = LoginMode"
  shows "(let v = auth_values_of c values
      in js_trim (av_username v) = [] \<or> length (av_password v) < 8 \<or> isPending \<longrightarrow> submitAuth c isPending values t = (t, []))
    \<and> (let (s1, fx1) = submitAuth s False None s;
      (s2, fx2) = authSuccess s1 mobile Challenge s1;
      s3 = s2\<lparr>au_totpCode := code\<rparr>;
      (s4, fx4) = submitAuth s3 False None s3;
      (s5, fx5) = authSuccess s4 mobile (LoggedIn a) s4
    in fx1 = [AxApi (CallLoginUser (au_username s) (au_password s) (nonempty (js_trim (au_totpCode s))))]
       \<and> au_session s2 = au_session s \<and> au_totpRequired s2 \<and> au_username s2 = au_username s \<and> au_password s2 = au_password s
       \<and> fx4 = [AxApi (CallLoginUser (au_username s) (au_password s) (nonempty (js_trim code)))]
       \<and> au_session s5 = Some a \<and> \<not> au_totpRequired s5 \<and> au_totpCode s5 = [] \<and> au_error s5 = Text []
       \<and> \<not> au_expiredNotified s5 \<and> nv_secrets s5 = stored_secrets (ap_storage s) a
       \<and> AxApi (CallFetchCurrentIdentity (as_accessToken a)) \<in> set fx5)"
proof (rule conjI)
  show "let v = auth_values_of c values
      in js_trim (av_username v) = [] \<or> length (av_password v) < 8 \<or> isPending \<longrightarrow> submitAuth c isPending values t = (t, [])"
    by (simp add: submitAuth_def Let_def)
qed (use assms load_secrets in
    \<open>simp add: submitAuth_def auth_values_of_def authSuccess_def authCall_def saveSession_def Let_def split: prod.splits\<close>,
  auto simp: loadAccountLocalState_def Let_def stored_secrets_def reset_chat_def)

definition typed_app :: app_state where
  "typed_app = blank_app\<lparr>au_username := js ''ann'', au_password := js ''12345678''\<rparr>"

theorem login_second_factor_witness:
  "submitAuth blank_app False None blank_app = (blank_app, [])
   \<and> (let (s1, fx1) = submitAuth typed_app False None typed_app;
      (s2, fx2) = authSuccess s1 True Challenge s1;
      s3 = s2\<lparr>au_totpCode := js ''123456''\<rparr>;
      (s4, fx4) = submitAuth s3 False None s3;
      (s5, fx5) = authSuccess s4 True (LoggedIn sample_session) s4
    in fx1 = [AxApi (CallLoginUser (au_username typed_app) (au_password typed_app) (nonempty (js_trim (au_totpCode typed_app))))]
       \<and> au_session s2 = au_session typed_app \<and> au_totpRequired s2 \<and> au_username s2 = au_username typed_app
       \<and> au_password s2 = au_password typed_app
       \<and> fx4 = [AxApi (CallLoginUser (au_username typed_app) (au_password typed_app) (nonempty (js_trim (js ''123456''))))]
       \<and> au_session s5 = Some sample_session \<and> \<not> au_totpRequired s5 \<and> au_totpCode s5 = [] \<and> au_error s5 = Text []
       \<and> \<not> au_expiredNotified s5 \<and> nv_secrets s5 = stored_secrets (ap_storage typed_app) sample_session
       \<and> AxApi (CallFetchCurrentIdentity (as_accessToken sample_session)) \<in> set fx5)"
proof -
  have typed: "\<not> (js_trim (au_username typed_app) = [] \<or> length (au_password typed_app) < 8)" "au_mode typed_app = LoginMode"
    by (simp_all add: typed_app_def blank_app_def js_lit js_trim_def js_space_def)
  note login = login_second_factor [OF typed, of blank_app None False blank_app True "js ''123456''" sample_session]
  have "js_trim (av_username (auth_values_of blank_app None)) = []"
    by (simp add: auth_values_of_def blank_app_def js_trim_def)
  with login [THEN conjunct1] have "submitAuth blank_app False None blank_app = (blank_app, [])" by (simp add: Let_def)
  then show ?thesis by (rule conjI) (rule login [THEN conjunct2])
qed

section \<open>Answers for a session that is gone\<close>

text \<open>C39. A new principal is put into the session of the render that asked for it.  While that session is
  the current one this is the functional update of the session hook; after an expiry it brings the
  expired session back, and every later expiry is then ignored, where the hook's update leaves the
  user logged out.\<close>

theorem late_principal_revives_session:
  assumes "au_session c = Some a" "\<not> au_expiredNotified s"
  shows "updateSessionPrincipal s p s = h_updateSessionPrincipal p s
    \<and> (let s1 = fst (handleAuthExpired s); s2 = fst (toggleThemeDone c pm (Inr p) s1)
       in au_session s1 = None \<and> au_session s2 = Some (a\<lparr>as_principal := p\<rparr>) \<and> handleAuthExpired s2 = (s2, [])
          \<and> h_updateSessionPrincipal p s1 = s1)"
  using assms expired_left [OF assms(2)]
  by (simp add: updateSessionPrincipal_def h_updateSessionPrincipal_def toggleThemeDone_def handleAuthExpired_def left_defs
      split: option.splits)

theorem late_principal_revives_session_witness:
  "let s1 = fst (handleAuthExpired ann_app); s2 = fst (toggleThemeDone ann_app (\<lambda>_. []) (Inr (as_principal sample_session)) s1)
   in au_session s1 = None \<and> au_session s2 = Some (sample_session\<lparr>as_principal := as_principal sample_session\<rparr>)
      \<and> handleAuthExpired s2 = (s2, []) \<and> h_updateSessionPrincipal (as_principal sample_session) s1 = s1"
  by (rule late_principal_revives_session [THEN conjunct2]) (simp_all add: ann_app_def blank_app_def)

text \<open>Of the two requests that loading an account makes, the principal is dropped when another
  session has taken over, but the identity is not: the identity of the first account is shown
  under the session of the second.\<close>

theorem late_identity_of_other_account:
  assumes "au_session s = Some b" "as_accessToken b \<noteq> as_accessToken a"
  shows "principalLoaded a (Inr p) s = s
    \<and> au_identity (fst (identityLoaded pm (Inr i) s)) = Some i \<and> au_session (fst (identityLoaded pm (Inr i) s)) = Some b"
  using assms by (simp add: principalLoaded_def identityLoaded_def)

theorem late_identity_of_other_account_witness:
  "au_identity (fst (identityLoaded (\<lambda>_. []) (Inr sample_identity) (ann_app\<lparr>au_identity := None\<rparr>))) = Some sample_identity"
  using late_identity_of_other_account [of "ann_app\<lparr>au_identity := None\<rparr>" sample_session "sample_session\<lparr>as_accessToken := []\<rparr>"]
  by (simp add: ann_app_def sample_session_def)

lemma half_span: "(n :: nat) \<le> w \<Longrightarrow> (w - n) div 2 + n \<le> w \<and> w - ((w - n) div 2 + n) \<in> {(w - n) div 2, Suc ((w - n) div 2)}"
  by (auto; presburger)

lemma avatarCall_iff:
  "bitmap f = Inr (w, h) \<Longrightarrow> avatarCall c (compressAvatar bitmap ctx encode f) = Inr call \<longleftrightarrow>
     (\<exists>a b. au_session c = Some a \<and> js_starts (js ''image/'') (bl_type f) \<and> ctx \<and> encode f (avatarCrop w h) = Some b
        \<and> length (bl_bytes b) \<le> 1048576 \<and> call = CallUploadAvatar (as_accessToken a) b)"
  by (auto simp: avatarCall_def compressAvatar_def canvasToBlob_def not_less split: option.splits if_splits)

text \<open>The avatar that is sent is an image of at most one megabyte made of a square of the picture that
  lies inside it and is centred up to a pixel; anything else is an error, and without a session
  nothing is sent.\<close>

theorem avatar_bounds:
  assumes "bitmap f = Inr (w, h)"
  shows "let (x, y, n) = avatarCrop w h
    in x + n \<le> w \<and> y + n \<le> h \<and> n = min w h \<and> w - (x + n) \<in> {x, Suc x} \<and> h - (y + n) \<in> {y, Suc y}
       \<and> (avatarCall c (compressAvatar bitmap ctx encode f) = Inr call \<longleftrightarrow>
            (\<exists>a b. au_session c = Some a \<and> js_starts (js ''image/'') (bl_type f) \<and> ctx \<and> encode f (x, y, n) = Some b
               \<and> length (bl_bytes b) \<le> 1048576 \<and> call = CallUploadAvatar (as_accessToken a) b))"
  using half_span [of "min w h" w] half_span [of "min w h" h] avatarCall_iff [of bitmap f w h c ctx encode call, OF assms]
  by (simp add: avatarCrop_def Let_def)

theorem avatar_bounds_witness:
  "let (x, y, n) = avatarCrop 5 3
    in x + n \<le> 5 \<and> y + n \<le> 3 \<and> n = min 5 3 \<and> 5 - (x + n) \<in> {x, Suc x} \<and> 3 - (y + n) \<in> {y, Suc y}
       \<and> (avatarCall ann_app (compressAvatar (\<lambda>_. Inr (5, 3)) True (\<lambda>f _. Some f) \<lparr>bl_bytes = [1], bl_type = js ''image/png''\<rparr>)
            = Inr CallFetchHealth \<longleftrightarrow>
            (\<exists>a b. au_session ann_app = Some a \<and> js_starts (js ''image/'') (bl_type \<lparr>bl_bytes = [1], bl_type = js ''image/png''\<rparr>) \<and> True
               \<and> Some \<lparr>bl_bytes = [1], bl_type = js ''image/png''\<rparr> = Some b
               \<and> length (bl_bytes b) \<le> 1048576 \<and> CallFetchHealth = CallUploadAvatar (as_accessToken a) b))"
  by (rule avatar_bounds [of "\<lambda>_. Inr (5, 3)"]) simp

end
