(* ===== verification/RoomProps.thy ===== *)
theory RoomProps
  imports Rooms SessionProps
begin

text \<open>
  What the rooms promise: the list after an activity patch, the id of a direct chat, the members
  that are shown, and what a stale copy of the secrets loses.
\<close>

section \<open>The list of rooms\<close>

definition room_dated :: "(jstr \<Rightarrow> int option) \<Rightarrow> room \<Rightarrow> bool" where
  "room_dated dp r = (dp (room_activity r) \<noteq> None)"

interpretation recent: stable_sorting "room_cmp dp" "\<lambda>r. - the (dp (room_activity r))" "room_dated dp" for dp
  by unfold_locales (auto simp: room_cmp_def room_dated_def)

lemma patch_room_id [simp]: "ro_roomId (patch_room rid t inc clr r) = ro_roomId r"
  by (simp add: patch_room_def)

text \<open>Patching the activity of a room keeps the rooms and their number, changes the named room only
  (its last message, and its unread count: zero when cleared, one more when asked), and leaves the
  list ordered by last activity, newest first, rooms of the same time in their old order.\<close>

theorem patch_activity_correct:
  assumes "ap_rooms s = Some rs" "t \<noteq> []" "dp t \<noteq> None" "\<forall>r \<in> set rs. room_dated dp r"
  shows "\<exists>rs'. ap_rooms (patchRoomActivity dp rid (Some t) inc clr s) = Some rs'
     \<and> mset (map ro_roomId rs') = mset (map ro_roomId rs)
     \<and> rs' = sort_key (\<lambda>r. - the (dp (room_activity r))) (map (patch_room rid (Some t) inc clr) rs)
     \<and> sorted (map (\<lambda>r. - the (dp (room_activity r))) rs')
     \<and> (\<forall>r \<in> set rs. if ro_roomId r = rid
           then r\<lparr>ro_lastMessageAt := Some t, ro_unreadCount := Some (if clr then 0 else nullish (ro_unreadCount r) 0 + (if inc then 1 else 0))\<rparr> \<in> set rs'
           else r \<in> set rs')"
proof -
  let ?rs = "map (patch_room rid (Some t) inc clr) rs"
  have d: "\<forall>r \<in> set ?rs. room_dated dp r"
    using assms(2-4) by (auto simp: room_dated_def patch_room_def room_activity_def or_str_def)
  have "sorted (map (\<lambda>r. - the (dp (room_activity r))) (js_sort (room_cmp dp) ?rs))"
    by (rule recent.js_sort_sorted [OF d])
  moreover have "mset (map ro_roomId (js_sort (room_cmp dp) ?rs)) = mset (map ro_roomId rs)"
    by (simp add: image_mset.compositionality comp_def)
  moreover have "\<forall>r \<in> set rs. patch_room rid (Some t) inc clr r \<in> set (js_sort (room_cmp dp) ?rs)" by simp
  ultimately show ?thesis
    using assms(1) recent.js_sort_is_sort_key [OF d] by (auto simp: patchRoomActivity_def patch_room_def)
qed

definition sample_room :: "string \<Rightarrow> room" where
  "sample_room n = \<lparr>ro_roomId = js n, ro_name = js n, ro_members = [js ''u''], ro_memberProfiles = None, ro_roomSecret = None,
     ro_lastMessageAt = Some (js n), ro_unreadCount = None, ro_createdAt = js n\<rparr>"

theorem patch_activity_correct_witness:
  "\<exists>rs'. ap_rooms (patchRoomActivity (\<lambda>d. Some (int (length d))) (js ''b'') (Some (js ''zzz'')) True False
        (blank_app\<lparr>ap_rooms := Some [sample_room ''aa'', sample_room ''b'']\<rparr>)) = Some rs'
     \<and> mset (map ro_roomId rs') = mset (map ro_roomId [sample_room ''aa'', sample_room ''b''])"
  using patch_activity_correct [of "blank_app\<lparr>ap_rooms := Some [sample_room ''aa'', sample_room ''b'']\<rparr>"
      "[sample_room ''aa'', sample_room ''b'']" "js ''zzz''" "\<lambda>d. Some (int (length d))" "js ''b''" True False]
  by (auto simp: room_dated_def)

section \<open>Direct chats\<close>

lemma js_le_total: "js_le a b \<or> js_le b a"
  by (induction a b rule: js_le.induct) (auto simp: not_less)

lemma js_le_antisym: "js_le a b \<Longrightarrow> js_le b a \<Longrightarrow> a = b"
  by (induction a b rule: js_le.induct) (auto elim: js_le.elims)

lemma direct_symmetric: "directRoomId a b = directRoomId b a"
  using js_le_total [of a b] js_le_antisym [of a b] by (auto simp: directRoomId_def)

text \<open>Both users of a direct chat compute the same room, whoever opens it, and for users whose
  identifiers hold no hyphen no other pair computes it; with hyphens two different pairs can meet
  in one room.\<close>

theorem direct_room_agreed:
  assumes "45 \<notin> set a \<union> set b \<union> set x \<union> set y"
  shows "directRoomId a b = directRoomId b a
    \<and> (directRoomId a b = directRoomId x y \<longleftrightarrow> {a, b} = {x, y})
    \<and> directRoomId (js ''a-b'') (js ''c'') = directRoomId (js ''a'') (js ''b-c'')"
proof -
  have split: "js_split 45 (p @ 45 # q) = [p, q]" if "45 \<notin> set p" "45 \<notin> set q" for p q
    using that by (simp add: js_split_append js_split_no_sep)
  have inj: "p @ 45 # q = p' @ 45 # q' \<longleftrightarrow> p = p' \<and> q = q'"
    if "45 \<notin> set p" "45 \<notin> set q" "45 \<notin> set p'" "45 \<notin> set q'" for p q p' q' :: jstr
    using split [OF that(1,2)] split [OF that(3,4)] by (metis list.inject)
  have j: "directRoomId p q = js ''direct-'' @ (if js_le p q then p @ 45 # q else q @ 45 # p)" for p q
    by (simp add: directRoomId_def js_lit)
  have "directRoomId a b = directRoomId x y \<longleftrightarrow> {a, b} = {x, y}"
    using assms js_le_total [of a b] js_le_total [of x y] js_le_antisym [of a b] js_le_antisym [of x y]
    by (auto simp: j inj doubleton_eq_iff)
  moreover have "directRoomId (js ''a-b'') (js ''c'') = directRoomId (js ''a'') (js ''b-c'')"
    by (simp add: j js_lit)
  ultimately show ?thesis using direct_symmetric by blast
qed

theorem direct_room_agreed_witness:
  "directRoomId (js ''u'') (js ''f'') = directRoomId (js ''f'') (js ''u'')
    \<and> (directRoomId (js ''u'') (js ''f'') = directRoomId (js ''u'') (js ''g'') \<longleftrightarrow> {js ''u'', js ''f''} = {js ''u'', js ''g''})
    \<and> directRoomId (js ''a-b'') (js ''c'') = directRoomId (js ''a'') (js ''b-c'')"
  by (rule direct_room_agreed) (simp add: js_lit)

section \<open>Stale copies\<close>

text \<open>Two direct chats opened one after the other, before a render shows the first: the second one
  stores the secrets of the render both were made in, and the secret of the first is lost, in the
  state and in the storage, although its room exists.\<close>

theorem direct_chats_lose_secret:
  assumes "au_session c = Some a" "accountStorageID (Some a) \<noteq> []" "ro_roomId r1 \<noteq> ro_roomId r2"
    "ro_roomId r1 \<notin> fst ` set (nv_secrets c)"
  shows "let s1 = fst (openDirectChatCreated c f1 k1 r1 s);
      s2 = fst (openDirectChatCreated c f2 k2 r2 s1)
    in jm_get (nv_secrets s1) (ro_roomId r1) = Some (or_opt (ro_roomSecret r1) k1)
       \<and> jm_get (nv_secrets s2) (ro_roomId r1) = None
       \<and> jm_get (stored_secrets (ap_storage s2) a) (ro_roomId r1) = None"
proof -
  have n: "nv_secrets (persistRoomSecrets c m s) = m" for m s
    by (simp add: persistRoomSecrets_def Let_def)
  have "jm_get (jm_set (ro_roomId r2) v (nv_secrets c)) (ro_roomId r1) = None" for v
    using assms(3,4) by (simp add: jm_get_set map_of_eq_None_iff)
  then show ?thesis
    using persist_storage [OF assms(1,2)] by (simp add: openDirectChatCreated_def n jm_get_set Let_def)
qed

definition sample_friend :: friend where
  "sample_friend = \<lparr>fr_userId = js ''f'', fr_displayName = [], fr_status = Accepted, fr_direction = Incoming, fr_createdAt = []\<rparr>"

theorem direct_chats_lose_secret_witness:
  "let s1 = fst (openDirectChatCreated ann_app sample_friend (js ''k1'') (sample_room ''x'') ann_app);
      s2 = fst (openDirectChatCreated ann_app sample_friend (js ''k2'') (sample_room ''y'') s1)
    in jm_get (nv_secrets s1) (ro_roomId (sample_room ''x'')) = Some (or_opt (ro_roomSecret (sample_room ''x'')) (js ''k1''))
       \<and> jm_get (nv_secrets s2) (ro_roomId (sample_room ''x'')) = None
       \<and> jm_get (stored_secrets (ap_storage s2) sample_session) (ro_roomId (sample_room ''x'')) = None"
  by (rule direct_chats_lose_secret)
    (simp_all add: ann_app_def blank_app_def accountStorageID_def sample_session_def or_str_def sample_room_def)

section \<open>Members\<close>

text \<open>The members of a room are shown in the order of the room, those that could not be fetched left
  out, unless some fetch says that the session expired, which is then the error; the map by
  identifier and the peers hold exactly them, the peers without the user.\<close>

theorem members_shown:
  "(memberIdentities rs = Inr is \<longleftrightarrow> (\<forall>r \<in> set rs. \<forall>e. r = Inl e \<longrightarrow> \<not> is_auth_error e)
       \<and> is = List.map_filter (\<lambda>r. case r of Inr i \<Rightarrow> Some i | Inl _ \<Rightarrow> None) rs)
   \<and> (\<forall>k. jm_get (identitiesByID is) k = List.find (\<lambda>i. iy_userId i = k) (rev is))
   \<and> set (peers_of me is) = {i \<in> set is. \<forall>m. me = Some m \<longrightarrow> iy_userId i \<noteq> iy_userId m}"
proof -
  have a: "memberIdentities rs = Inr xs \<longleftrightarrow> (\<forall>r \<in> set rs. \<forall>e. r = Inl e \<longrightarrow> \<not> is_auth_error e)
       \<and> xs = List.map_filter (\<lambda>r. case r of Inr i \<Rightarrow> Some i | Inl _ \<Rightarrow> None) rs" for xs
    by (induction rs arbitrary: xs rule: memberIdentities.induct) (auto simp: List.map_filter_def bindR_eq_Inr)
  have b: "jm_get (identitiesByID is) k = List.find (\<lambda>i. iy_userId i = k) (rev is)" for k
    by (induction "is" rule: rev_induct) (auto simp: identitiesByID_def jm_get_set)
  have "set (peers_of me is) = {i \<in> set is. \<forall>m. me = Some m \<longrightarrow> iy_userId i \<noteq> iy_userId m}"
    by (cases me) (auto simp: peers_of_def)
  then show ?thesis by (intro conjI allI a [of "is"] b)
qed

theorem members_shown_witness:
  "memberIdentities [Inr sample_identity, Inl (Err (js ''x''))] = Inr [sample_identity]"
  using members_shown [of "[Inr sample_identity, Inl (Err (js ''x''))]" "[sample_identity]" None]
  by (simp add: List.map_filter_def)

end
