(* ===== verification/RealtimeProps.thy ===== *)
theory RealtimeProps
  imports Realtime RoomProps CallProps
begin

text \<open>
  What the realtime side promises: where events go, unread counts, typing and presence.
\<close>

section \<open>Where events go\<close>

lemma topics_differ: "user_topic u \<noteq> room_topic r"
  by (simp add: user_topic_def room_topic_def js_lit)

text \<open>Whatever the call logic sends to a peer is published on that peer's own topic and on no other,
  whichever chat is open; the socket hook would publish it to everybody in the room.  Typing and
  presence go to the open chat and nowhere without one.\<close>

theorem calls_go_to_their_peer:
  assumes "call_ref_of ev = Some r" "cr_toUserId r \<noteq> []" "cr_roomId r \<noteq> []"
  shows "set (run_call_effect c s (CxSend ev)) \<subseteq> {AxSend (user_topic (cr_toUserId r)) ev}
    \<and> (ws_can_send (ap_ws s) \<longrightarrow> run_call_effect c s (CxSend ev) = [AxSend (user_topic (cr_toUserId r)) ev]
         \<and> h_sendRealtime (nv_room c) ev (ap_ws s) = [AxSend (room_topic (cr_roomId r)) ev])
    \<and> (\<forall>u n st t. sendRealtimeRaw c (EvPresence u n st t None) s
         = (if ws_can_send (ap_ws s) \<and> nv_room c \<noteq> [] then [AxSend (room_topic (nv_room c)) (EvPresence u n st t None)] else []))"
proof -
  have "event_room ev = Some (cr_roomId r)" using assms(1) by (cases ev) auto
  then show ?thesis using assms
    by (auto simp: sendRealtimeRaw_def realtime_topic_def h_sendRealtime_def h_realtime_topic_def user_topic_def room_topic_def
        js_append js_lit)
qed

theorem calls_go_to_their_peer_witness:
  "set (run_call_effect ann_app ann_app (CxSend (EvCallOffer sample_offer))) \<subseteq> {AxSend (user_topic (js ''b'')) (EvCallOffer sample_offer)}"
  using calls_go_to_their_peer [OF call_ref_of.simps(1) , of sample_offer ann_app ann_app] by (simp add: sample_offer_def)

section \<open>Unread counts\<close>

definition unread_pairs :: "app_state \<Rightarrow> (jstr \<times> int) multiset" where
  "unread_pairs s = mset (map (\<lambda>r. (ro_roomId r, nullish (ro_unreadCount r) 0)) (nullish (ap_rooms s) []))"

lemma unread_patch:
  "unread_pairs (patchRoomActivity dp rid t inc clr s)
    = image_mset (\<lambda>(i, n). (i, if i = rid then if clr then 0 else n + (if inc then 1 else 0) else n)) (unread_pairs s)"
  by (cases "ap_rooms s")
    (auto simp: unread_pairs_def patchRoomActivity_def patch_room_def image_mset.compositionality comp_def intro!: image_mset_cong)

text \<open>C20. While another chat is open, every message announced for a room adds one to its unread count when
  somebody else wrote it and none when the user did, in any order and number; the other rooms keep
  theirs; and the user's reading, here or on another device, brings the count to zero.\<close>

theorem unread_counts:
  assumes "currentUserID c \<noteq> []" "nv_room c \<noteq> rid"
  shows "let me = currentUserID c;
      s1 = fold (\<lambda>(mid, sender, t) s. fst (handleRealtimeEvent e c (EvMessageCreated rid mid sender t) s)) ms s;
      s2 = fst (handleRealtimeEvent e c (EvMessageRead rid me now) s1)
    in unread_pairs s1 = image_mset (\<lambda>(i, n). (i, if i = rid then n + int (length (filter (\<lambda>(mid, sender, t). sender \<noteq> me) ms)) else n)) (unread_pairs s)
       \<and> unread_pairs s2 = image_mset (\<lambda>(i, n). (i, if i = rid then 0 else n)) (unread_pairs s)"
proof -
  let ?me = "currentUserID c"
  let ?run = "\<lambda>ms s. fold (\<lambda>(mid, sender, t) s. fst (handleRealtimeEvent e c (EvMessageCreated rid mid sender t) s)) ms s"
  have one: "fst (handleRealtimeEvent e c (EvMessageCreated rid mid sender t) s)
      = patchRoomActivity (rv_dp e) rid (Some t) (sender \<noteq> ?me) False s" for mid sender t s
    using assms by (auto simp: handleRealtimeEvent_def from_self_def Let_def)
  have nil: "(\<lambda>(i, n). (i, if i = rid then n + int (length (filter (\<lambda>(mid, sender, t). sender \<noteq> ?me) ([] :: (jstr \<times> jstr \<times> jstr) list))) else n)) = id"
    by (auto simp: fun_eq_iff)
  have a: "unread_pairs (?run ms s)
      = image_mset (\<lambda>(i, n). (i, if i = rid then n + int (length (filter (\<lambda>(mid, sender, t). sender \<noteq> ?me) ms)) else n)) (unread_pairs s)" for ms s
  proof (induction ms arbitrary: s)
    case Nil show ?case unfolding nil by simp
  next
    case (Cons m ms)
    obtain mid sender t where m: "m = (mid, sender, t)" by (cases m)
    show ?case using Cons.IH by (auto simp: m one unread_patch image_mset.compositionality comp_def intro!: image_mset_cong)
  qed
  have b: "fst (handleRealtimeEvent e c (EvMessageRead rid ?me now) s') = patchRoomActivity (rv_dp e) rid None False True s'" for s'
    using assms by (simp add: handleRealtimeEvent_def from_self_def Let_def)
  show ?thesis
    unfolding Let_def a b unread_patch by (auto simp: image_mset.compositionality comp_def intro!: image_mset_cong)
qed

definition sample_rt :: rt_env where
  "sample_rt = \<lparr>rv_dp = (\<lambda>d. Some (int (length d))), rv_nowMs = 0, rv_now = js ''t'', rv_call = ctx_of alice (js ''t'')\<rparr>"

definition roomy_app :: app_state where
  "roomy_app = ann_app\<lparr>ap_rooms := Some [sample_room ''aa'', sample_room ''b'']\<rparr>"

theorem unread_counts_witness:
  "unread_pairs (fst (handleRealtimeEvent sample_rt roomy_app (EvMessageRead (js ''b'') (currentUserID roomy_app) [])
      (fst (handleRealtimeEvent sample_rt roomy_app (EvMessageCreated (js ''b'') [] (js ''f'') (js ''zzzz'')) roomy_app))))
    = {#(js ''aa'', 0), (js ''b'', 0)#}"
  using unread_counts [of roomy_app "js ''b''" sample_rt "[([], js ''f'', js ''zzzz'')]" roomy_app "[]"]
  by (simp add: Let_def roomy_app_def ann_app_def blank_app_def currentUserID_def sample_identity_def or_str_def js_Nil_eq
      unread_pairs_def sample_room_def del: map_eq_Cons_conv)

section \<open>Typing and presence\<close>

text \<open>A friend who announces itself gets exactly one answer, on its own topic, and the answer asks for
  none: on the friend's side it only marks the user online.  So an exchange of presence ends after
  two messages.\<close>

theorem presence_exchange_ends:
  assumes "au_identity a = Some A" "au_identity b = Some B" "iy_userId A \<noteq> iy_userId B" "iy_userId A \<noteq> []" "iy_userId B \<noteq> []"
    "ws_live (ap_ws a) = Connected" "ws_can_send (ap_ws a)" "ws_can_send (ap_ws b)" "fr_userId f = iy_userId B"
  shows "let hello = online_event (iy_userId A) (iy_displayName A) t1 (Some True);
      (b1, fxb) = handleRealtimeEvent eb b hello b;
      reply = online_event (iy_userId B) (iy_displayName B) (rv_now eb) None;
      (a1, fxa) = handleRealtimeEvent ea a reply a
    in announcePresence a [f] t1 a = [AxSend (user_topic (iy_userId B)) hello]
       \<and> fxb = [AxSend (user_topic (iy_userId A)) reply] \<and> fxa = []
       \<and> map_option pe_status (jm_get (ap_presence b1) (iy_userId A)) = Some Online
       \<and> map_option pe_status (jm_get (ap_presence a1) (iy_userId B)) = Some Online"
  using assms
  by (simp add: announcePresence_def sendToUserRaw_def online_event_def handleRealtimeEvent_def currentUserID_def or_str_def
      from_self_def presence_set_def jm_get_set Let_def)

definition online_app :: "string \<Rightarrow> app_state" where
  "online_app u = blank_app\<lparr>au_identity := Some (sample_identity\<lparr>iy_userId := js u\<rparr>),
     ap_ws := no_socket\<lparr>ws_ref := Some 0, ws_ready := [0], ws_live := Connected\<rparr>\<rparr>"

theorem presence_exchange_ends_witness:
  "let hello = online_event (js ''a'') (js ''Ann'') [] (Some True);
      (b1, fxb) = handleRealtimeEvent sample_rt (online_app ''f'') hello (online_app ''f'');
      reply = online_event (js ''f'') (js ''Ann'') (rv_now sample_rt) None;
      (a1, fxa) = handleRealtimeEvent sample_rt (online_app ''a'') reply (online_app ''a'')
    in announcePresence (online_app ''a'') [sample_friend] [] (online_app ''a'') = [AxSend (user_topic (js ''f'')) hello]
       \<and> fxb = [AxSend (user_topic (js ''a'')) reply] \<and> fxa = []
       \<and> map_option pe_status (jm_get (ap_presence b1) (js ''a'')) = Some Online
       \<and> map_option pe_status (jm_get (ap_presence a1) (js ''f'')) = Some Online"
  using presence_exchange_ends [of "online_app ''a''" "sample_identity\<lparr>iy_userId := js ''a''\<rparr>" "online_app ''f''"
      "sample_identity\<lparr>iy_userId := js ''f''\<rparr>" sample_friend "[]" sample_rt sample_rt]
  by (simp add: online_app_def sample_friend_def ws_can_send_def) (simp add: sample_identity_def)

lemma typing_expiry_active:
  "now \<le> now' \<Longrightarrow> activeTyping (typingExpiry now s) now' = activeTyping s now'"
  by (auto simp: activeTyping_def typingExpiry_def intro!: arg_cong [where f = "map _"] filter_cong)

text \<open>Who types is shown: a user who starts typing for three and a half seconds, unless it stops or the
  event is the user's own; running the expiry timer, at whatever times before, never changes what
  is shown, and leaves no expired entry.\<close>

theorem typing_shown:
  assumes "currentUserID c \<noteq> []" "u \<noteq> currentUserID c" "au_identity s = au_identity c" "au_identity c \<noteq> None"
    "iy_userId (the (au_identity c)) = currentUserID c" "\<forall>k \<in> set ticks. k \<le> now'" "distinct (map fst (ap_typing s))"
  shows "let s1 = fst (handleRealtimeEvent e c (EvTyping u name True t) s);
      s2 = fst (handleRealtimeEvent e c (EvTyping u name False t) s)
    in (name \<in> set (activeTyping (fold typingExpiry ticks s1) now') \<longleftrightarrow>
          now' < rv_nowMs e + 3500 \<or> (\<exists>v n. (v, name, n) \<in> set (ap_typing s) \<and> v \<noteq> u \<and> v \<noteq> currentUserID c \<and> now' < n))
       \<and> (0 \<le> now' \<longrightarrow> (name \<in> set (activeTyping (fold typingExpiry ticks s2) now') \<longleftrightarrow>
            (\<exists>v n. (v, name, n) \<in> set (ap_typing s) \<and> v \<noteq> u \<and> v \<noteq> currentUserID c \<and> now' < n)))
       \<and> fst (handleRealtimeEvent e c (EvTyping (currentUserID c) name True t) s) = s
       \<and> (\<forall>x \<in> set (ap_typing (typingExpiry now' s1)). now' < snd (snd x))"
proof -
  have ticks: "activeTyping (fold typingExpiry ticks s') now' = activeTyping s' now'" for s'
    using assms(6) by (induction ticks arbitrary: s') (auto simp: typing_expiry_active)
  have set_upd: "(k, w) \<in> set (jm_set u v m) \<longleftrightarrow> (k = u \<and> w = v) \<or> (k \<noteq> u \<and> (k, w) \<in> set m)"
    if "distinct (map fst m)" for k w v and m :: "(jstr, jstr \<times> int) jmap"
    unfolding map_of_eq_Some_iff [OF jm_set_distinct [OF that], symmetric] map_of_eq_Some_iff [OF that, symmetric] jm_get_set
    by auto
  obtain i where i: "au_identity c = Some i" "iy_userId i = currentUserID c" using assms(4,5) by auto
  have act: "name \<in> set (activeTyping s' now') \<longleftrightarrow> (\<exists>v n. (v, name, n) \<in> set (ap_typing s') \<and> v \<noteq> currentUserID c \<and> now' < n)"
    if "au_identity s' = Some i" for s' using that i(2) by (force simp: activeTyping_def)
  have ev: "fst (handleRealtimeEvent e c (EvTyping u name b t) s)
      = s\<lparr>ap_typing := jm_set u (name, if b then rv_nowMs e + 3500 else 0) (ap_typing s)\<rparr>" for b
    using assms(1,2) by (simp add: handleRealtimeEvent_def from_self_def Let_def)
  have own: "fst (handleRealtimeEvent e c (EvTyping (currentUserID c) name True t) s) = s"
    using assms(1) by (simp add: handleRealtimeEvent_def from_self_def Let_def)
  show ?thesis
    unfolding Let_def ticks ev own using assms(2,3) i(1) set_upd [OF assms(7)]
    by (simp add: act) (auto simp: typingExpiry_def)
qed

definition typist :: app_state where
  "typist = ann_app\<lparr>ap_typing := [(js ''g'', js ''Gil'', 9)]\<rparr>"

theorem typing_shown_witness:
  "js ''Fay'' \<in> set (activeTyping (fold typingExpiry [5, 7] (fst (handleRealtimeEvent sample_rt typist
      (EvTyping (js ''f'') (js ''Fay'') True []) typist))) 8)"
  using typing_shown [of typist "js ''f''" typist "[5, 7]" 8 sample_rt "js ''Fay''" "[]"]
  by (simp add: Let_def typist_def ann_app_def blank_app_def currentUserID_def sample_identity_def or_str_def sample_rt_def)

section \<open>Frames\<close>

text \<open>A frame that is malformed or on a topic of neither the socket's room nor its user changes
  nothing; a message adds itself at the end of at most two hundred live ones; and the frame that
  says the current session was revoked leaves the account, once, and closes the connection,
  while any other session's revocation only reloads the list.\<close>

theorem frames_handled:
  assumes "currentUserID c \<noteq> []" "topic = user_topic u \<or> topic = room_topic r"
  shows "onFrame e c u r Malformed s = (s, [])
    \<and> (t' \<noteq> user_topic u \<longrightarrow> t' \<noteq> room_topic r \<longrightarrow> onFrame e c u r (DataFrame t' d) s = (s, []))
    \<and> (let s1 = fst (onFrame e c u r (DataFrame topic (FrameMessage m)) s)
       in ms_live (ap_msgs s1) \<noteq> [] \<and> last (ms_live (ap_msgs s1)) = m \<and> length (ms_live (ap_msgs s1)) \<le> 200)
    \<and> (let (s2, fx) = onFrame e c u r (DataFrame topic (FrameEvent (EvSessionRevoked v sid t))) s
       in if revoked c sid \<and> \<not> au_expiredNotified s then account_left s2 \<and> ap_ws s2 = dropSocket (ap_ws s)
          else s2 = s \<and> set fx \<subseteq> {AxInvalidate (js ''account-sessions'')})"
proof -
  have live: "liveAppend m xs \<noteq> [] \<and> last (liveAppend m xs) = m \<and> length (liveAppend m xs) \<le> 200" for xs
    by (auto simp: liveAppend_def js_last_def)
  show ?thesis
    using assms live [of "ms_live (ap_msgs s)"] expired_left [of s] expired_ws [of s] expired_again [of s]
    by (auto simp: onFrame_def handleIncomingData_def handleRealtimeEvent_def from_self_def Let_def patchRoomActivity_def
        split: prod.splits)
qed

theorem frames_handled_witness:
  "onFrame sample_rt ann_app (js ''u'') (js ''r'') (DataFrame (js ''room:x'') (FrameEvent (EvFriendsChanged None []))) ann_app = (ann_app, [])"
  using frames_handled [of ann_app "user_topic (js ''u'')" "js ''u''" "js ''r''" sample_rt ann_app "js ''room:x''"
      "FrameEvent (EvFriendsChanged None [])"]
  by (simp add: ann_app_def currentUserID_def sample_identity_def or_str_def user_topic_def room_topic_def js_append [symmetric] del: js_append)

end
