(* ===== verification/EndToEnd.thy ===== *)
theory EndToEnd
  imports RealtimeProps Bubbles
begin

text \<open>
  The components together: a message, an edit, a deletion and a file from the hook of the one who
  sends (\<open>MessageState\<close>, \<open>Crypto\<close>, \<open>Api\<close>) over the socket handler of another client
  (\<open>Realtime\<close>) into its list (\<open>Messages\<close>) and onto its screen.  The server stands between as what
  the code relies on: the envelope it forwards has the ciphertext and the algorithm it was sent.
\<close>

section \<open>Cache keys tell versions apart\<close>

lemma digits_of_inj: "digits_of a = digits_of b \<Longrightarrow> a = b"
  by (metis digits_value_of)

lemma digits_of_not_minus: "digits_of n \<noteq> 45 # ds"
  using digits_of_range[of 45 n] by auto

lemma js_of_int_inj: "js_of_int a = js_of_int b \<Longrightarrow> a = b"
  using digits_of_not_minus[of "nat a"] digits_of_not_minus[of "nat b"]
    digits_of_not_minus[of "nat a", THEN not_sym] digits_of_not_minus[of "nat b", THEN not_sym]
  by (auto simp: js_of_int_def js_lit simp del: digits_of.simps split: if_splits dest!: digits_of_inj)

lemma js_of_int_no_colon: "58 \<notin> set (js_of_int i)"
  using digits_of_range[of 58] by (auto simp: js_of_int_def js_lit)

lemma split_at_colon:
  assumes "a @ 58 # x = b @ 58 # y" "(58::code_unit) \<notin> set a" "58 \<notin> set b"
  shows "a = b"
  using assms
proof (induction a arbitrary: b)
  case Nil
  then show ?case by (cases b) auto
next
  case (Cons c a)
  then show ?case by (cases b) auto
qed

lemma cache_key_version:
  assumes "cache_key dp env a = cache_key dp env b" "dated dp a" "dated dp b"
  shows "version dp a = version dp b"
proof -
  from assms(2,3) obtain v w where v: "version_of dp a = Some v" "version_of dp b = Some w"
    by (auto simp: dated_def)
  have key: "cache_key dp env m = js_of_int u @ 58 # drop (Suc (length (js_of_int u))) (cache_key dp env m)"
    if "version_of dp m = Some u" for m u
    using that by (simp add: cache_key_def js_lit)
  have "js_of_int v = js_of_int w"
    by (rule split_at_colon[OF _ js_of_int_no_colon js_of_int_no_colon])
      (rule key[OF v(1), symmetric, THEN trans, OF trans[OF assms(1) key[OF v(2)]]])
  with v js_of_int_inj show ?thesis by (simp add: version_def)
qed

section \<open>From the live feed to the screen\<close>

text \<open>What the hook's render makes of its state: the encrypted list, its decryption run to the end,
  the displayed list and the search.\<close>

definition env_encrypted :: "(jstr \<Rightarrow> int option) \<Rightarrow> msg_env \<Rightarrow> msg_state \<Rightarrow> encrypted_message list" where
  "env_encrypted dp env st =
     encryptedMessages dp (ev_room env) (ms_inContext st) (ms_context st) (ev_paged env st) (ms_live st)"

definition settle :: "(jstr \<Rightarrow> int option) \<Rightarrow> webcrypto \<Rightarrow> msg_env \<Rightarrow> msg_state \<Rightarrow> msg_state" where
  "settle dp wc env st =
     (let encrypted = env_encrypted dp env st; (st1, todo) = decryptStart dp env encrypted st
      in if todo = [] then st1 else decryptDone dp wc env encrypted todo False st1)"

definition shown_list :: "(jstr \<Rightarrow> int option) \<Rightarrow> webcrypto \<Rightarrow> msg_env \<Rightarrow> msg_state \<Rightarrow> decrypted_message list" where
  "shown_list dp wc env st =
     (let st' = settle dp wc env st
      in displayMessages dp (map_option iy_userId (ev_identity env)) (ev_room env) (ms_deleted st') (ms_pending st')
           (ms_decrypted st'))"

definition env_sources :: "msg_env \<Rightarrow> msg_state \<Rightarrow> encrypted_message list" where
  "env_sources env st = room_sources (ev_room env) (ms_inContext st) (ms_context st) (ev_paged env st) (ms_live st)"

lemma env_encrypted_distinct: "distinct (map em_id (env_encrypted dp env st))"
  by (simp add: env_encrypted_def encryptedMessages_eq distinct_map_js_sort live_put.collected_distinct)

text \<open>The newest version of a message is the one in the list.\<close>

lemma newest_in_list:
  assumes "m \<in> set (env_sources env st)"
    and "\<forall>x\<in>set (env_sources env st). dated dp x \<and> (em_id x = em_id m \<longrightarrow> x = m \<or> version dp x < version dp m)"
  shows "m \<in> set (env_encrypted dp env st)"
proof -
  let ?s = "env_sources env st"
  have eq: "set (env_encrypted dp env st) = set (live_put.collected dp ?s)"
    by (simp add: env_encrypted_def encryptedMessages_eq env_sources_def)
  obtain v where v: "v \<in> set (live_put.collected dp ?s)" "em_id v = em_id m"
  proof -
    have "em_id m \<in> em_id ` set (live_put.collected dp ?s)"
      using assms(1) by (simp add: live_put.collected_keys)
    then show ?thesis using that by auto
  qed
  have "v \<in> set ?s" using v(1) live_put.collected_subset by blast
  moreover have "version dp m \<le> version dp v"
    using live_put.collected_best[of ?s dp m v] assms v by blast
  ultimately have "v = m" using assms(2) v(2) by (metis not_le)
  with v eq show ?thesis by simp
qed

lemma cached_list_mem:
  "jm_get cache (em_id m) = Some (k, d) \<Longrightarrow> m \<in> set ms \<Longrightarrow> d \<in> set (cached_list cache ms)"
  by (force simp: cached_list_def List.map_filter_def)

text \<open>A message that is new to the cache is decrypted by the run and stands in its result.\<close>

lemma settle_decrypted:
  assumes "m \<in> set (env_encrypted dp env st)" "needs_decrypt dp env st m"
  shows "decryptMessageOf wc env m \<in> set (ms_decrypted (settle dp wc env st))"
    and "jm_get (ms_cache (settle dp wc env st)) (em_id m) = Some (cache_key dp env m, decryptMessageOf wc env m)"
proof -
  define enc where "enc = env_encrypted dp env st"
  define todo where "todo = filter (needs_decrypt dp env st) enc"
  have m: "m \<in> set enc" "m \<in> set todo" using assms by (auto simp: enc_def todo_def)
  have d: "distinct (map em_id todo)"
    using env_encrypted_distinct by (simp add: todo_def enc_def distinct_map_filter)
  define cache where "cache = fold (\<lambda>m. jm_set (em_id m) (cache_key dp env m, decryptMessageOf wc env m)) todo (ms_cache st)"
  have s: "ms_cache (settle dp wc env st) = cache" "ms_decrypted (settle dp wc env st) = cached_list cache enc"
    using m by (auto simp: settle_def decryptStart_def decryptDone_def Let_def enc_def[symmetric] todo_def[symmetric]
        cache_def split: prod.splits if_splits)
  have "find (\<lambda>x. em_id x = em_id m) todo = Some m"
    using m(2) d
  proof (induction todo)
    case (Cons t ts)
    then show ?case by (cases "t = m") (auto simp: image_iff)
  qed simp
  then have c: "jm_get cache (em_id m) = Some (cache_key dp env m, decryptMessageOf wc env m)"
    by (simp add: cache_def fold_cache_get[OF d])
  then show "jm_get (ms_cache (settle dp wc env st)) (em_id m) = Some (cache_key dp env m, decryptMessageOf wc env m)"
    by (simp add: s)
  show "decryptMessageOf wc env m \<in> set (ms_decrypted (settle dp wc env st))"
    unfolding s by (rule cached_list_mem[OF c m(1)])
qed

lemma settle_frame:
  "ms_deleted (settle dp wc env st) = ms_deleted st" "ms_pending (settle dp wc env st) = ms_pending st"
  by (auto simp: settle_def decryptStart_def decryptDone_def Let_def split: prod.splits if_splits)

section \<open>The newest version is what the screen shows\<close>

lemma settle_keyed: "cache_keyed st \<Longrightarrow> cache_keyed (settle dp wc env st)"
proof -
  assume st: "cache_keyed st"
  obtain st1 todo where d: "decryptStart dp env (env_encrypted dp env st) st = (st1, todo)" by fastforce
  have "cache_keyed st1"
    using cache_keyed_step[OF st, of dp wc "MDecrypt env (env_encrypted dp env st)"] d by simp
  moreover have "cache_keyed (decryptDone dp wc env (env_encrypted dp env st) todo False st1)" if "cache_keyed st1"
    using cache_keyed_step[OF that, of dp wc "MDecryptDone env (env_encrypted dp env st) todo False"] by simp
  ultimately show ?thesis by (simp add: settle_def d)
qed

lemma settle_list:
  "env_encrypted dp env st \<noteq> [] \<Longrightarrow>
   ms_decrypted (settle dp wc env st) = cached_list (ms_cache (settle dp wc env st)) (env_encrypted dp env st)"
  by (auto simp: settle_def decryptStart_def decryptDone_def Let_def split: prod.splits if_splits)

lemma cached_list_memD:
  "d \<in> set (cached_list cache ms) \<Longrightarrow> \<exists>x\<in>set ms. \<exists>k. jm_get cache (em_id x) = Some (k, d)"
  by (induction ms) (auto simp: cached_list_def List.map_filter_simps split: option.splits)

lemma settled_unique:
  assumes "cache_keyed st" "m \<in> set (env_encrypted dp env st)" "needs_decrypt dp env st m"
    and "d \<in> set (ms_decrypted (settle dp wc env st))" "dm_id d = em_id m"
  shows "d = decryptMessageOf wc env m"
proof -
  let ?c = "ms_cache (settle dp wc env st)"
  have "ms_decrypted (settle dp wc env st) = cached_list ?c (env_encrypted dp env st)"
    using assms(2) by (intro settle_list) auto
  with assms(4) have "d \<in> set (cached_list ?c (env_encrypted dp env st))" by simp
  then obtain x :: encrypted_message and k where x: "jm_get ?c (em_id x) = Some (k, d)"
    by (blast dest: cached_list_memD)
  with settle_keyed[OF assms(1)] assms(5) have "em_id x = em_id m"
    unfolding cache_keyed_def by metis
  with x settle_decrypted(2)[OF assms(2,3)] show ?thesis by simp
qed

lemma display_of_decrypted:
  assumes "d \<in> set decrypted" "dm_roomId d = rid" "dm_id d \<notin> set deleted"
    and "\<forall>x\<in>set decrypted. dm_id x = dm_id d \<longrightarrow> x = d"
  shows "x \<in> set (displayMessages dp uid rid deleted pending decrypted) \<and> dm_id x = dm_id d \<longleftrightarrow> x = d"
proof -
  define ps where "ps = filter (shown_pending rid deleted (confirmedSentAts uid decrypted)) pending"
  define ds where "ds = filter (shown_decrypted rid deleted) decrypted"
  have eq: "set (displayMessages dp uid rid deleted pending decrypted) = set (display_put.collected (ps @ ds))"
    by (simp add: displayMessages_eq ps_def ds_def)
  have d: "dm_id d \<in> dm_id ` set ds" using assms(1-3) by (auto simp: ds_def shown_decrypted_def)
  have only: "y = d" if "jm_get (fold set_decrypted (ps @ ds) []) (dm_id d) = Some y" for y
  proof -
    have "y \<in> set ds" using that set_decrypted_last[OF _ d] by simp
    moreover have "dm_id y = dm_id d" using that display_put.fold_get[of "ps @ ds" "[]"] by auto
    ultimately show ?thesis using assms(4) by (auto simp: ds_def)
  qed
  have "dm_id d \<in> dom (jm_get (fold set_decrypted (ps @ ds) []))"
    using d display_put.fold_keys[of "ps @ ds" "[]"] by auto
  then obtain y where y: "jm_get (fold set_decrypted (ps @ ds) []) (dm_id d) = Some y" by auto
  then have "d \<in> set (display_put.collected (ps @ ds))"
    using only[OF y] display_put.collected_iff by blast
  moreover have "x = d" if "x \<in> set (display_put.collected (ps @ ds))" "dm_id x = dm_id d"
  proof -
    obtain k where k: "jm_get (fold set_decrypted (ps @ ds) []) k = Some x"
      using \<open>x \<in> set (display_put.collected (ps @ ds))\<close> display_put.collected_iff by blast
    then have "k = dm_id x" using display_put.fold_get[of "ps @ ds" "[]" k x] by auto
    with k that(2) only show ?thesis by simp
  qed
  ultimately show ?thesis using eq by blast
qed

text \<open>What the cache holds of a message is not the version at hand.\<close>

definition cache_older :: "(jstr \<Rightarrow> int option) \<Rightarrow> msg_env \<Rightarrow> msg_state \<Rightarrow> encrypted_message \<Rightarrow> bool" where
  "cache_older dp env st m = (\<forall>key d. jm_get (ms_cache st) (em_id m) = Some (key, d) \<longrightarrow>
     (\<exists>x. key = cache_key dp env x \<and> dated dp x \<and> version dp x < version dp m))"

lemma cache_older_needs:
  assumes "cache_older dp env st m" "dated dp m"
  shows "needs_decrypt dp env st m"
proof (cases "jm_get (ms_cache st) (em_id m)")
  case (Some e)
  then obtain x where x: "fst e = cache_key dp env x" "dated dp x" "version dp x < version dp m"
    using assms(1) by (cases e) (auto simp: cache_older_def)
  then have "cache_key dp env x \<noteq> cache_key dp env m"
    using cache_key_version[of dp env x m] assms(2) by auto
  with Some x(1) show ?thesis by (simp add: needs_decrypt_def)
qed (simp add: needs_decrypt_def)

lemma newest_is_shown:
  assumes "cache_keyed st" "cache_older dp env st m" "m \<in> set (env_sources env st)"
    and "\<forall>x\<in>set (env_sources env st). dated dp x \<and> (em_id x = em_id m \<longrightarrow> x = m \<or> version dp x < version dp m)"
    and "em_id m \<notin> set (ms_deleted st)"
  shows "d \<in> set (shown_list dp wc env st) \<and> dm_id d = em_id m \<longleftrightarrow> d = decryptMessageOf wc env m"
proof -
  have enc: "m \<in> set (env_encrypted dp env st)" using assms(3,4) by (rule newest_in_list)
  have need: "needs_decrypt dp env st m" using assms(2-4) by (blast intro: cache_older_needs)
  have room: "em_roomId m = ev_room env"
    using assms(3) by (auto simp: env_sources_def room_sources_def in_room_def split: if_splits)
  show ?thesis
    using display_of_decrypted[OF settle_decrypted(1)[OF enc need, of wc], of "ev_room env" "ms_deleted st" d dp]
      settled_unique[OF assms(1) enc need] room assms(5)
    by (auto simp: shown_list_def Let_def decryptMessageOf_id settle_frame)
qed

lemma decode_of_sent:
  assumes "encodePlainMessage b = Inr p" "payload_of m = p" "plain_ok b"
  shows "decode_body wc secret m = Inr b"
  using assms json_of_plain_ok[OF assms(3)]
  by (auto simp: encodePlainMessage_def decode_body_def decodeMessagePayload_def decode_text_stringify
      plain_of_json_of bindR_eq_Inr)

lemma plain_ok_sent:
  assumes "small_int (snd (the uploaded))" "pred_option (\<lambda>f. small_int (int (fl_size f))) (df_file d)"
  shows "plain_ok (sent_plain env i d uploaded)"
  using assms by (auto simp: plain_ok_def sent_plain_def split: option.splits)

lemma decrypt_of_decoded:
  assumes "decode_body wc (ev_secret env) m = Inr b"
  shows "dm_body (decryptMessageOf wc env m) = Some b" "dm_failed (decryptMessageOf wc env m) = None"
    "dm_editedAt (decryptMessageOf wc env m) = em_editedAt m"
  using assms by (simp_all add: decryptMessageOf_def decrypted_of_def)

section \<open>A message on its way\<close>

text \<open>The envelope the server forwards for a call: \<open>internal/zk\<close> stores room, sender and payload and
  sends them back, with the time of an edit.\<close>

fun forwarded :: "api_call \<Rightarrow> encrypted_message \<Rightarrow> bool" where
  "forwarded (CallSendEncryptedMessage token roomId senderId p) m =
     (em_roomId m = roomId \<and> em_senderId m = senderId \<and> payload_of m = p \<and> em_deletedAt m = None)"
| "forwarded (CallUpdateEncryptedMessage token roomId i p) m =
     (em_roomId m = roomId \<and> em_id m = i \<and> payload_of m = p \<and> em_deletedAt m = None \<and> truthy (em_editedAt m))"
| "forwarded _ m = False"

text \<open>The receiver has the room open, not in context mode, has not deleted the message for itself,
  and knows older versions of it only, or none.\<close>

definition receivable :: "(jstr \<Rightarrow> int option) \<Rightarrow> msg_env \<Rightarrow> msg_state \<Rightarrow> encrypted_message \<Rightarrow> bool" where
  "receivable dp env st m = (em_roomId m = ev_room env \<and> \<not> ms_inContext st \<and> em_id m \<notin> set (ms_deleted st)
     \<and> dated dp m \<and> cache_older dp env st m
     \<and> (\<forall>x\<in>set (env_sources env st). dated dp x \<and> (em_id x = em_id m \<longrightarrow> version dp x < version dp m)))"

definition live_frame :: "rt_env \<Rightarrow> app_state \<Rightarrow> jstr \<Rightarrow> jstr \<Rightarrow> encrypted_message \<Rightarrow> app_state \<Rightarrow> app_state" where
  "live_frame e c me room m s = fst (onFrame e c me room (DataFrame (room_topic room) (FrameMessage m)) s)"

lemma live_frame_msgs:
  "ap_msgs (live_frame e c me room m s) = (ap_msgs s)\<lparr>ms_live := liveAppend m (ms_live (ap_msgs s))\<rparr>"
  by (simp add: live_frame_def onFrame_def handleIncomingData_def patchRoomActivity_def)

lemma set_liveAppend: "set (liveAppend m xs) \<subseteq> insert m (set xs)"
  using set_js_last[of 200 "xs @ [m]"] by (simp add: liveAppend_def)

lemma received_is_shown:
  assumes "receivable dp env (ap_msgs s) m" "ap_msgs s = foldl (msg_step dp wc) initial_state es"
  shows "d \<in> set (shown_list dp wc env (ap_msgs (live_frame e c me (ev_room env) m s))) \<and> dm_id d = em_id m
    \<longleftrightarrow> d = decryptMessageOf wc env m"
proof -
  let ?st = "ap_msgs s"
  define st' where "st' = ?st\<lparr>ms_live := liveAppend m (ms_live ?st)\<rparr>"
  have "cache_keyed st'"
    using reachable_cache[of dp wc es] by (simp add: assms(2) cache_keyed_def st'_def)
  moreover have "cache_older dp env st' m"
    using assms(1) by (simp add: receivable_def cache_older_def st'_def)
  moreover have src: "set (env_sources env st') \<subseteq> insert m (set (env_sources env ?st))"
    using set_liveAppend[of m "ms_live ?st"]
    by (auto simp: env_sources_def room_sources_def st'_def ev_paged_def)
  moreover have "m \<in> set (env_sources env st')"
    using assms(1) liveAppend_mem[of m "ms_live ?st"]
    by (simp add: env_sources_def room_sources_def st'_def in_room_def receivable_def)
  moreover have "\<forall>x\<in>set (env_sources env st'). dated dp x \<and> (em_id x = em_id m \<longrightarrow> x = m \<or> version dp x < version dp m)"
    using assms(1) src unfolding receivable_def by blast
  moreover have "em_id m \<notin> set (ms_deleted st')"
    using assms(1) by (simp add: receivable_def st'_def)
  ultimately show ?thesis
    unfolding live_frame_msgs st'_def[symmetric] by - (rule newest_is_shown)
qed

section \<open>Properties\<close>

text \<open>C3. A message reaches the other side: what one client's \<open>sendMutation\<close> posts, forwarded over
  the socket to a client that has the room open, is on that client's screen once, from its sender,
  with the text, name, reply and attachment the sender gave it, whatever room secret either of
  them holds.\<close>

theorem message_reaches_peer:
  assumes "sendSecondCall env1 dr uploaded = Inr call" "forwarded call m"
    and "small_int (snd (the uploaded))" "pred_option (\<lambda>f. small_int (int (fl_size f))) (df_file dr)"
    and "receivable dp env (ap_msgs s) m" "ap_msgs s = foldl (msg_step dp wc) initial_state es"
  shows "\<exists>i d. ev_identity env1 = Some i
    \<and> (\<forall>x. x \<in> set (shown_list dp wc env (ap_msgs (live_frame e c me (ev_room env) m s))) \<and> dm_id x = em_id m \<longleftrightarrow> x = d)
    \<and> dm_body d = Some (sent_plain env1 i dr uploaded) \<and> dm_senderId d = iy_userId i
    \<and> pm_text (sent_plain env1 i dr uploaded) = df_text dr \<and> messageBody me d = ViewBody"
proof -
  from assms(1) obtain i token p where i: "ev_identity env1 = Some i"
    and p: "encodePlainMessage (sent_plain env1 i dr uploaded) = Inr p"
    and c: "call = CallSendEncryptedMessage token (df_roomId dr) (iy_userId i) p"
    by (auto simp: sendSecondCall_def bindR_eq_Inr split: option.splits)
  have m: "em_senderId m = iy_userId i" "em_deletedAt m = None"
    and dec: "decode_body wc (ev_secret env) m = Inr (sent_plain env1 i dr uploaded)"
    using assms(2) c decode_of_sent[OF p _ plain_ok_sent[OF assms(3,4)]] by simp_all
  show ?thesis
    by (rule exI[of _ i], rule exI[of _ "decryptMessageOf wc env m"])
      (simp add: i received_is_shown[OF assms(5,6)] decrypt_of_decoded[OF dec] decryptMessageOf_id m
        messageBody_def sent_plain_def)
qed

definition sample_draft :: "file_ref option \<Rightarrow> draft" where
  "sample_draft f = \<lparr>df_clientId = js ''local-1'', df_roomId = js ''r'', df_text = js ''hi'', df_file = f,
     df_createdAt = js ''t'', df_replyTo = None\<rparr>"

lemma sample_sent:
  "\<exists>p. sendSecondCall (sample_env (js ''r'') None) (sample_draft f) up
    = Inr (CallSendEncryptedMessage (js ''tok'') (js ''r'') (js ''u'') p)"
  by (simp add: sendSecondCall_def sample_env_def ev_token_def encodePlainMessage_def sample_draft_def
      sample_session_def sample_identity_def)

lemma sample_receivable: "em_createdAt m \<noteq> [] \<Longrightarrow> em_editedAt m = None \<Longrightarrow> em_deletedAt m = None \<Longrightarrow>
    em_roomId m = js ''r'' \<Longrightarrow> receivable sample_dp (sample_env (js ''r'') None) (ap_msgs blank_app) m"
  by (simp add: receivable_def sample_env_def blank_app_def initial_state_def cache_older_def env_sources_def
      room_sources_def ev_paged_def pagedMessages_def dated_def version_of_def messageVersion_def or_str_def sample_dp_def)

lemma blank_reachable: "ap_msgs blank_app = foldl (msg_step dp wc) initial_state []"
  by (simp add: blank_app_def)

definition sample_envelope :: "payload \<Rightarrow> encrypted_message" where
  "sample_envelope p = (sample_em (js ''m1'') (js ''r'') (js ''1''))\<lparr>em_ciphertext := pl_ciphertext p,
     em_nonce := pl_nonce p, em_algorithm := pl_algorithm p, em_keyId := pl_keyId p\<rparr>"

lemma sample_forwarded:
  "forwarded (CallSendEncryptedMessage token (js ''r'') (js ''u'') p) (sample_envelope p)"
  "receivable sample_dp (sample_env (js ''r'') None) (ap_msgs blank_app) (sample_envelope p)"
  by (simp_all add: sample_envelope_def sample_em_def payload_of_def sample_receivable)

theorem message_reaches_peer_witness:
  "\<exists>p d. sendSecondCall (sample_env (js ''r'') None) (sample_draft None) (Some (js ''f'', 3))
      = Inr (CallSendEncryptedMessage (js ''tok'') (js ''r'') (js ''u'') p)
    \<and> d \<in> set (shown_list sample_dp sample_crypto (sample_env (js ''r'') None)
        (ap_msgs (live_frame sample_rt ann_app (js ''v'') (ev_room (sample_env (js ''r'') None)) (sample_envelope p) blank_app)))
    \<and> map_option pm_text (dm_body d) = Some (js ''hi'')"
proof -
  obtain p where p: "sendSecondCall (sample_env (js ''r'') None) (sample_draft None) (Some (js ''f'', 3))
      = Inr (CallSendEncryptedMessage (js ''tok'') (js ''r'') (js ''u'') p)"
    using sample_sent by blast
  have n: "small_int (snd (the (Some (js ''f'', 3))))" "pred_option (\<lambda>f. small_int (int (fl_size f))) (df_file (sample_draft None))"
    by (simp_all add: small_int_def max_safe_def sample_draft_def)
  have t: "df_text (sample_draft None) = js ''hi''" by (simp add: sample_draft_def)
  from message_reaches_peer[OF p sample_forwarded(1) n sample_forwarded(2) blank_reachable] p show ?thesis
    using t by fastforce
qed

text \<open>C11. An edit reaches the other side: the client that shows an older version of the message, decrypted
  and cached, shows the new text in its place once the edit arrives, with the rest of the message
  as it was.\<close>

theorem edit_reaches_peer:
  assumes "ms_editTarget st = Some target" "dm_body target = Some b" "plain_ok b"
    and "editCall env1 st = Inr call" "forwarded call m"
    and "receivable dp env (ap_msgs s) m" "ap_msgs s = foldl (msg_step dp wc) initial_state es"
  shows "\<exists>d. (\<forall>x. x \<in> set (shown_list dp wc env (ap_msgs (live_frame e c me (ev_room env) m s)))
        \<and> dm_id x = dm_id target \<longleftrightarrow> x = d)
    \<and> dm_body d = Some (b\<lparr>pm_text := js_trim (ms_editText st)\<rparr>) \<and> showsEdited d"
proof -
  from assms(1,2,4) obtain token p where p: "encodePlainMessage (b\<lparr>pm_text := js_trim (ms_editText st)\<rparr>) = Inr p"
    and c: "call = CallUpdateEncryptedMessage token (dm_roomId target) (dm_id target) p"
    by (auto simp: editCall_def bindR_eq_Inr split: option.splits)
  have "plain_ok (b\<lparr>pm_text := js_trim (ms_editText st)\<rparr>)"
    using assms(3) by (simp add: plain_ok_def)
  then have dec: "decode_body wc (ev_secret env) m = Inr (b\<lparr>pm_text := js_trim (ms_editText st)\<rparr>)"
    using assms(5) c decode_of_sent[OF p] by simp
  have m: "em_id m = dm_id target" "truthy (em_editedAt m)" "em_deletedAt m = None"
    using assms(5) c by simp_all
  show ?thesis
    by (rule exI[of _ "decryptMessageOf wc env m"])
      (simp add: m(1)[symmetric] received_is_shown[OF assms(6,7)] decrypt_of_decoded[OF dec] decryptMessageOf_id
        m(2,3) showsEdited_def)
qed

definition sample_old :: encrypted_message where
  "sample_old = sample_em (js ''m1'') (js ''r'') (js ''1'')"

definition sample_target :: decrypted_message where
  "sample_target = sample_dm (js ''m1'') (js ''r'') (js ''1'')"

definition sample_peer :: app_state where
  "sample_peer = blank_app\<lparr>ap_msgs := foldl (msg_step sample_dp sample_crypto) initial_state [MLive sample_old]\<rparr>"

lemma sample_peer_receivable:
  assumes "em_id m = js ''m1''" "em_roomId m = js ''r''" "em_createdAt m = js ''1''"
    "em_editedAt m = Some (js ''22'') \<and> em_deletedAt m = None \<or> em_deletedAt m = Some (js ''333'')"
  shows "receivable sample_dp (sample_env (js ''r'') None) (ap_msgs sample_peer) m"
  using assms
  by (auto simp: receivable_def sample_env_def sample_peer_def blank_app_def initial_state_def cache_older_def
      env_sources_def room_sources_def ev_paged_def pagedMessages_def dated_def version_of_def messageVersion_def
      or_str_def sample_dp_def sample_old_def sample_em_def liveAppend_def js_last_def version_def in_room_def)

theorem edit_reaches_peer_witness:
  "\<exists>p d. editCall (sample_env (js ''r'') None) (initial_state\<lparr>ms_editTarget := Some sample_target, ms_editText := js ''new''\<rparr>)
      = Inr (CallUpdateEncryptedMessage (js ''tok'') (js ''r'') (js ''m1'') p)
    \<and> d \<in> set (shown_list sample_dp sample_crypto (sample_env (js ''r'') None)
        (ap_msgs (live_frame sample_rt ann_app (js ''v'') (ev_room (sample_env (js ''r'') None))
          ((sample_envelope p)\<lparr>em_editedAt := Some (js ''22'')\<rparr>) sample_peer)))
    \<and> map_option pm_text (dm_body d) = Some (js_trim (js ''new''))"
proof -
  let ?st = "initial_state\<lparr>ms_editTarget := Some sample_target, ms_editText := js ''new''\<rparr>"
  obtain p where p: "editCall (sample_env (js ''r'') None) ?st = Inr (CallUpdateEncryptedMessage (js ''tok'') (js ''r'') (js ''m1'') p)"
    by (auto simp: editCall_def sample_env_def ev_token_def encodePlainMessage_def sample_session_def sample_target_def
        sample_dm_def)
  let ?m = "(sample_envelope p)\<lparr>em_editedAt := Some (js ''22'')\<rparr>"
  have f: "forwarded (CallUpdateEncryptedMessage (js ''tok'') (js ''r'') (js ''m1'') p) ?m"
    by (simp add: sample_envelope_def sample_em_def payload_of_def)
  have r: "receivable sample_dp (sample_env (js ''r'') None) (ap_msgs sample_peer) ?m"
    by (rule sample_peer_receivable) (simp_all add: sample_envelope_def sample_em_def)
  have b: "dm_body sample_target = Some (sample_message\<lparr>pm_sentAt := js ''1''\<rparr>)"
    "plain_ok (sample_message\<lparr>pm_sentAt := js ''1''\<rparr>)"
    using sample_message_ok by (simp_all add: sample_target_def sample_dm_def plain_ok_def)
  have s: "ap_msgs sample_peer = foldl (msg_step sample_dp sample_crypto) initial_state [MLive sample_old]"
    by (simp add: sample_peer_def)
  from edit_reaches_peer[OF _ b(1) b(2) p f r s] p show ?thesis
    by (fastforce simp: initial_state_def)
qed

text \<open>C13. A deletion reaches the other side, and only hides: the message is shown as deleted, and its menu
  offers no reply, copy or edit any more; but its text is still in the list, and every search that
  found it before still does.\<close>

theorem deletion_only_hides:
  assumes "decode_body wc (ev_secret env) m = Inr b" "pm_system b = None" "m' = m\<lparr>em_deletedAt := Some t\<rparr>" "t \<noteq> []"
    and "receivable dp env (ap_msgs s) m'" "ap_msgs s = foldl (msg_step dp wc) initial_state es"
  shows "\<exists>d. (let shown = shown_list dp wc env (ap_msgs (live_frame e c me (ev_room env) m' s))
      in (\<forall>x. x \<in> set shown \<and> dm_id x = em_id m \<longleftrightarrow> x = d)
         \<and> messageBody me d = ViewDeleted \<and> messageMenu quick me d = [MenuInfo, MenuDelete]
         \<and> dm_body d = Some b
         \<and> (d \<in> set (visibleMessages lower query shown)
            \<longleftrightarrow> decryptMessageOf wc env m \<in> set (visibleMessages lower query [decryptMessageOf wc env m])))"
proof -
  have dec: "decode_body wc (ev_secret env) m' = Inr b"
    using assms(1) by (simp add: decode_body_def payload_of_def assms(3))
  define d where "d = decryptMessageOf wc env m'"
  have shown: "x \<in> set (shown_list dp wc env (ap_msgs (live_frame e c me (ev_room env) m' s))) \<and> dm_id x = em_id m
      \<longleftrightarrow> x = d" for x
    using received_is_shown[OF assms(5,6), of x e c me] by (simp add: assms(3) d_def)
  have d: "dm_body d = Some b" "truthy (dm_deletedAt d)"
    using decrypt_of_decoded[OF dec] assms(3,4) by (simp_all add: d_def decryptMessageOf_id)
  have "haystack d = haystack (decryptMessageOf wc env m)"
    using d(1) decrypt_of_decoded[OF assms(1)] by (simp add: haystack_def)
  moreover have "d \<in> set (shown_list dp wc env (ap_msgs (live_frame e c me (ev_room env) m' s)))"
    using shown[of d] by blast
  ultimately show ?thesis
    using d shown assms(2)
    by (intro exI[of _ d]) (simp add: Let_def messageBody_def messageMenu_def visibleMessages_def)
qed

theorem deletion_only_hides_witness:
  "\<exists>p d. d \<in> set (shown_list sample_dp sample_crypto (sample_env (js ''r'') None)
        (ap_msgs (live_frame sample_rt ann_app (js ''v'') (ev_room (sample_env (js ''r'') None))
          ((sample_envelope p)\<lparr>em_deletedAt := Some (js ''333'')\<rparr>) sample_peer)))
    \<and> messageBody (js ''v'') d = ViewDeleted \<and> map_option pm_text (dm_body d) = Some (js ''hi'')"
proof -
  obtain p where p: "sendSecondCall (sample_env (js ''r'') None) (sample_draft None) None
      = Inr (CallSendEncryptedMessage (js ''tok'') (js ''r'') (js ''u'') p)"
    using sample_sent by blast
  let ?b = "sent_plain (sample_env (js ''r'') None) sample_identity (sample_draft None) None"
  have "encodePlainMessage ?b = Inr p"
    using p by (auto simp: sendSecondCall_def sample_env_def ev_token_def bindR_eq_Inr)
  then have dec: "decode_body sample_crypto (ev_secret (sample_env (js ''r'') None)) (sample_envelope p) = Inr ?b"
    by (rule decode_of_sent) (simp_all add: sample_envelope_def payload_of_def plain_ok_def sent_plain_def sample_draft_def)
  have r: "receivable sample_dp (sample_env (js ''r'') None) (ap_msgs sample_peer)
      ((sample_envelope p)\<lparr>em_deletedAt := Some (js ''333'')\<rparr>)"
    by (rule sample_peer_receivable) (simp_all add: sample_envelope_def sample_em_def)
  have s: "ap_msgs sample_peer = foldl (msg_step sample_dp sample_crypto) initial_state [MLive sample_old]"
    by (simp add: sample_peer_def)
  have t: "pm_text ?b = js ''hi''" by (simp add: sent_plain_def sample_draft_def)
  from deletion_only_hides[OF dec _ refl _ r s, where me = "js ''v''" and e = sample_rt and c = ann_app] t
  show ?thesis by (fastforce simp: Let_def sent_plain_def)
qed

section \<open>Files, and what travels in the clear\<close>

text \<open>C10. A file reaches the other side: the upload carries the file as it was chosen, the message refers
  to it by the id the server answered, and the receiver's download asks for this id and, when
  the server returns the bytes it was given, hands out the same bytes under the same name, whatever
  secret the receiver holds.\<close>

theorem file_reaches_peer:
  assumes "df_file dr = Some f" "small_int upSize" "small_int (int (fl_size f))"
    and "sendSecondCall env1 dr (Some (upId, upSize)) = Inr call" "forwarded call m"
    and "receivable dp env (ap_msgs s) m" "ap_msgs s = foldl (msg_step dp wc) initial_state es"
    and "ev_token env = Some token" "bl_bytes answer = bl_bytes (fl_blob f)"
  shows "sendFirstCall env1 dr = Inr (Some (CallUploadEncryptedFile (the (ev_token env1)) (df_roomId dr) (fl_blob f)))
    \<and> (\<exists>d a. d \<in> set (shown_list dp wc env (ap_msgs (live_frame e c me (ev_room env) m s))) \<and> dm_id d = em_id m
        \<and> attachmentCall env d = Some (a, CallDownloadEncryptedFile token upId (df_roomId dr))
        \<and> decodeAttachment wc env a (Inr answer)
            = Inr (mk_blob (bl_bytes (fl_blob f)) (or_str (bl_type (fl_blob f)) OCTET_STREAM))
        \<and> downloadDone text_of url a (decodeAttachment wc env a (Inr answer)) = [FxSaveAs url (fl_name f), FxRevokeURL url])"
proof -
  from assms(4) obtain i t p where i: "ev_identity env1 = Some i" "ev_token env1 = Some t"
    and p: "encodePlainMessage (sent_plain env1 i dr (Some (upId, upSize))) = Inr p"
    and c: "call = CallSendEncryptedMessage t (df_roomId dr) (iy_userId i) p"
    by (auto simp: sendSecondCall_def bindR_eq_Inr split: option.splits)
  have "plain_ok (sent_plain env1 i dr (Some (upId, upSize)))"
    using assms(1-3) by (intro plain_ok_sent) simp_all
  with assms(5) c decode_of_sent[OF p]
  have dec: "decode_body wc (ev_secret env) m = Inr (sent_plain env1 i dr (Some (upId, upSize)))" by simp
  define d where "d = decryptMessageOf wc env m"
  define a where "a = the (pm_attachment (sent_plain env1 i dr (Some (upId, upSize))))"
  have body: "dm_body d = Some (sent_plain env1 i dr (Some (upId, upSize)))"
    by (simp add: d_def decrypt_of_decoded[OF dec])
  have a: "pm_attachment (sent_plain env1 i dr (Some (upId, upSize))) = Some a" "at_fileId a = upId" "at_name a = fl_name f"
    "at_type a = bl_type (fl_blob f)" "at_algorithm a = PLAIN_FILE_ALGORITHM"
    by (simp_all add: a_def sent_plain_def assms(1))
  have room: "ev_room env = df_roomId dr" using assms(5,6) c by (simp add: receivable_def)
  have "attachmentCall env d = Some (a, CallDownloadEncryptedFile token upId (df_roomId dr))"
    using body a(1,2) by (simp add: attachmentCall_def assms(8) room)
  moreover have "decodeAttachment wc env a (Inr answer) = Inr (mk_blob (bl_bytes (fl_blob f)) (or_str (bl_type (fl_blob f)) OCTET_STREAM))"
    using a assms(9) by (simp add: decodeAttachment_def decodeFilePayload_def)
  moreover have "d \<in> set (shown_list dp wc env (ap_msgs (live_frame e c me (ev_room env) m s))) \<and> dm_id d = em_id m"
    using received_is_shown[OF assms(6,7), of d e c me] by (simp add: d_def)
  moreover have "sendFirstCall env1 dr = Inr (Some (CallUploadEncryptedFile (the (ev_token env1)) (df_roomId dr) (fl_blob f)))"
    using i assms(1) by (auto simp: sendFirstCall_def ev_token_def)
  ultimately show ?thesis using a(3) by (auto simp: downloadDone_def)
qed

definition posted_payload :: "api_call \<Rightarrow> payload option" where
  "posted_payload call = (case call of
      CallSendEncryptedMessage _ _ _ p \<Rightarrow> Some p
    | CallUpdateEncryptedMessage _ _ _ p \<Rightarrow> Some p
    | _ \<Rightarrow> None)"

text \<open>Whoever sees the payload reads the message off it, without any key.\<close>

definition readable_as :: "payload \<Rightarrow> plain_message \<Rightarrow> bool" where
  "readable_as p b = (pl_algorithm p = PLAIN_MESSAGE_ALGORITHM \<and> pl_nonce p = []
     \<and> base64URLToBytes (pl_ciphertext p) = Inr (text_encode (stringify (json_of_plain b))))"

lemma encoded_is_readable: "encodePlainMessage b = Inr p \<Longrightarrow> readable_as p b"
  by (auto simp: encodePlainMessage_def readable_as_def)

text \<open>C12. Nothing the client sends is encrypted: whoever carries a message, an edit, a note of leaving or
  of a call reads it off the payload without a key, and an upload is the file itself.  (The
  README and the interface promise encryption before upload; \<open>encryptMessage\<close> and \<open>encryptFile\<close>
  have no caller.)\<close>

theorem nothing_sent_is_encrypted:
  "(sendSecondCall env d uploaded = Inr call \<longrightarrow>
      (\<exists>i p. posted_payload call = Some p \<and> readable_as p (sent_plain env i d uploaded)))
   \<and> (editCall env st = Inr call \<longrightarrow>
      (\<exists>b p. posted_payload call = Some p \<and> readable_as p (b\<lparr>pm_text := js_trim (ms_editText st)\<rparr>)))
   \<and> (sendSystemMessage tr c now room = Inr (Some call) \<longrightarrow>
      (\<exists>b p. posted_payload call = Some p \<and> readable_as p b \<and> pm_system b \<noteq> None))
   \<and> (call \<in> set (sendCallSystemMessage cc now room caller callee status secs started) \<longrightarrow>
      pred_option (\<lambda>p. readable_as p (call_note cc now caller callee status secs)) (posted_payload call))
   \<and> (sendFirstCall env d = Inr (Some call) \<longrightarrow>
      (\<exists>f token. df_file d = Some f \<and> call = CallUploadEncryptedFile token (df_roomId d) (fl_blob f)))"
proof (intro conjI impI)
  show "\<exists>i p. posted_payload call = Some p \<and> readable_as p (sent_plain env i d uploaded)"
    if "sendSecondCall env d uploaded = Inr call"
    using that by (auto simp: sendSecondCall_def bindR_eq_Inr posted_payload_def dest!: encoded_is_readable
        split: option.splits)
  show "\<exists>b p. posted_payload call = Some p \<and> readable_as p (b\<lparr>pm_text := js_trim (ms_editText st)\<rparr>)"
    if "editCall env st = Inr call"
    using that by (auto simp: editCall_def bindR_eq_Inr posted_payload_def dest!: encoded_is_readable
        split: option.splits)
  show "\<exists>b p. posted_payload call = Some p \<and> readable_as p b \<and> pm_system b \<noteq> None"
    if "sendSystemMessage tr c now room = Inr (Some call)"
    using that by (force simp: sendSystemMessage_def bindR_eq_Inr posted_payload_def dest!: encoded_is_readable
        split: option.splits if_splits)
  show "pred_option (\<lambda>p. readable_as p (call_note cc now caller callee status secs)) (posted_payload call)"
    if "call \<in> set (sendCallSystemMessage cc now room caller callee status secs started)"
    using that by (cases "encodePlainMessage (call_note cc now caller callee status secs)")
      (auto simp: sendCallSystemMessage_def posted_payload_def dest: encoded_is_readable split: option.splits if_splits)
  show "\<exists>f token. df_file d = Some f \<and> call = CallUploadEncryptedFile token (df_roomId d) (fl_blob f)"
    if "sendFirstCall env d = Inr (Some call)"
    using that by (auto simp: sendFirstCall_def split: if_splits)
qed

theorem nothing_sent_is_encrypted_witness:
  "\<exists>call i p. sendSecondCall (sample_env (js ''r'') None) (sample_draft None) None = Inr call
    \<and> posted_payload call = Some p \<and> readable_as p (sent_plain (sample_env (js ''r'') None) i (sample_draft None) None)"
proof -
  obtain p where p: "sendSecondCall (sample_env (js ''r'') None) (sample_draft None) None
      = Inr (CallSendEncryptedMessage (js ''tok'') (js ''r'') (js ''u'') p)"
    using sample_sent by blast
  then show ?thesis
    using nothing_sent_is_encrypted[of "sample_env (js ''r'') None" "sample_draft None" None] by blast
qed

definition sample_file :: file_ref where
  "sample_file = \<lparr>fl_name = js ''a.txt'', fl_blob = \<lparr>bl_bytes = [1, 2, 3], bl_type = js ''text/plain''\<rparr>\<rparr>"

theorem file_reaches_peer_witness:
  "\<exists>a d. attachmentCall (sample_env (js ''r'') None) d = Some (a, CallDownloadEncryptedFile (js ''tok'') (js ''f1'') (js ''r''))
    \<and> decodeAttachment sample_crypto (sample_env (js ''r'') None) a (Inr (mk_blob [1, 2, 3] OCTET_STREAM))
        = Inr (mk_blob [1, 2, 3] (js ''text/plain''))"
proof -
  obtain p where p: "sendSecondCall (sample_env (js ''r'') None) (sample_draft (Some sample_file)) (Some (js ''f1'', 3))
      = Inr (CallSendEncryptedMessage (js ''tok'') (js ''r'') (js ''u'') p)"
    using sample_sent by blast
  have f: "df_file (sample_draft (Some sample_file)) = Some sample_file" "df_roomId (sample_draft (Some sample_file)) = js ''r''"
    by (simp_all add: sample_draft_def)
  have n: "small_int 3" "small_int (int (fl_size sample_file))"
    by (simp_all add: small_int_def max_safe_def fl_size_def sample_file_def)
  have t: "ev_token (sample_env (js ''r'') None) = Some (js ''tok'')"
    by (simp add: ev_token_def sample_env_def sample_session_def)
  have b: "bl_bytes (mk_blob [1, 2, 3] OCTET_STREAM) = bl_bytes (fl_blob sample_file)"
    "mk_blob (bl_bytes (fl_blob sample_file)) (or_str (bl_type (fl_blob sample_file)) OCTET_STREAM) = mk_blob [1, 2, 3] (js ''text/plain'')"
    by (simp_all add: mk_blob_def sample_file_def or_str_def)
  from file_reaches_peer[OF f(1) n p sample_forwarded(1) sample_forwarded(2) blank_reachable t b(1)] show ?thesis
    unfolding b(2) f(2) by blast
qed

end
