(* ===== verification/Push.thy ===== *)
theory Push
  imports Api
begin

text \<open>
  The notifications panel and the contact scanner of \<open>components/layout/Sidebar.tsx\<close>
  (\<open>ProfilePanel\<close>).  What the browser answers (permission, service worker, push manager) is
  the record \<open>push_env\<close>, one field per call the panel awaits; the subscription the browser holds
  is an optional \<open>browser_sub\<close>, changed by \<open>subscribe\<close> and \<open>unsubscribe\<close>; what the server
  answers is an argument.  Each handler runs to its end and returns the panel, the browser's
  subscription and the calls it made.  A text the panel picks by locale is a constructor of
  \<open>push_text\<close>, except those it throws: \<open>pushSubscribeErrorMessage\<close> reads their letters.

  The scanner is a step relation, since closing it, the camera permission and the frames race.
\<close>

section \<open>Errors and texts\<close>

text \<open>What a \<open>catch\<close> receives: an \<open>Error\<close> with its name and message, or another value.\<close>

datatype thrown = ThrownError (th_name: jstr) (th_message: jstr) | ThrownValue

datatype push_text =
    NotConfigured
  | Unsupported
  | OpenFromHomeScreen
  | NotificationsEnabled
  | NotificationsDisabled
  | AndroidNotRegistered
  | SubscriptionRejected
  | Shown jstr

datatype colour = Red | Yellow | Green

definition permissionText :: "bool \<Rightarrow> jstr" where
  "permissionText ru = (if ru
     then map of_nat [1056, 1072, 1079, 1088, 1077, 1096, 1077, 1085, 1080, 1077, 32, 1085, 1072, 32, 1091, 1074, 1077,
       1076, 1086, 1084, 1083, 1077, 1085, 1080, 1103, 32, 1085, 1077, 32, 1074, 1099, 1076, 1072, 1085,
       1086, 46]
     else js ''Notification permission was not granted.'')"

definition pushApiText :: "bool \<Rightarrow> jstr" where
  "pushApiText ru = (if ru
     then map of_nat [80, 117, 115, 104, 32, 65, 80, 73, 32, 1085, 1077, 1076, 1086, 1089, 1090, 1091, 1087, 1077, 1085,
       46, 32, 1053, 1072, 32, 105, 80, 104, 111, 110, 101, 32, 1085, 1091, 1078, 1085, 1086, 32, 1086,
       1090, 1082, 1088, 1099, 1090, 1100, 32, 1087, 1088, 1080, 1083, 1086, 1078, 1077, 1085, 1080, 1077,
       32, 1089, 32, 1101, 1082, 1088, 1072, 1085, 1072, 32, 1044, 1086, 1084, 1086, 1081, 46]
     else js ''Push API is unavailable. On iPhone, open the app from Home Screen.'')"

definition vapidText :: "bool \<Rightarrow> jstr" where
  "vapidText ru = (if ru
     then map of_nat [86, 65, 80, 73, 68, 32, 112, 117, 98, 108, 105, 99, 32, 107, 101, 121, 32, 1085, 1072, 32, 1089,
       1077, 1088, 1074, 1077, 1088, 1077, 32, 1085, 1077, 1082, 1086, 1088, 1088, 1077, 1082, 1090, 1085,
       1099, 1081, 46, 32, 1057, 1075, 1077, 1085, 1077, 1088, 1080, 1088, 1091, 1081, 1090, 1077, 32,
       1085, 1086, 1074, 1091, 1102, 32, 1087, 1072, 1088, 1091, 32, 1082, 1083, 1102, 1095, 1077, 1081,
       32, 1080, 32, 1086, 1073, 1085, 1086, 1074, 1080, 1090, 1077, 32, 46, 101, 110, 118, 46]
     else js ''The server VAPID public key is invalid. Generate a new key pair and update the .env file.'')"

text \<open>The flag \<open>i\<close> of a regular expression without \<open>u\<close>, on a pattern of ASCII letters.\<close>

definition unit_lower :: "code_unit \<Rightarrow> code_unit" where
  "unit_lower c = (if 65 \<le> c \<and> c \<le> 90 then c + 32 else c)"

definition mentions :: "jstr \<Rightarrow> string list \<Rightarrow> bool" where
  "mentions s words = list_ex (\<lambda>w. js_includes (map unit_lower s) (map unit_lower (js w))) words"

definition pushSubscribeErrorMessage :: "jstr \<Rightarrow> jstr \<Rightarrow> push_text" where
  "pushSubscribeErrorMessage name raw =
     (let s = name @ js '' '' @ raw
      in if mentions s [''push service error'', ''Registration failed'', ''AbortError''] then AndroidNotRegistered
         else if mentions s [''VAPID'', ''applicationServerKey'', ''push service error'', ''Registration failed'']
         then SubscriptionRejected
         else Shown raw)"

section \<open>State\<close>

record push_info =
  pi_enabled :: bool
  pi_publicKey :: "jstr option"

record push_panel =
  pn_info :: "push_info option"
  pn_subscriptions :: "push_subscription list"
  pn_loading :: bool
  pn_feedback :: "(colour \<times> push_text) option"
  pn_prefs :: push_preferences

record browser_sub =
  bs_endpoint :: "jstr option"
  bs_p256dh :: "jstr option"
  bs_auth :: "jstr option"

text \<open>\<open>pv_getSubscription\<close>, \<open>pv_unsubscribe\<close> and \<open>pv_subscribe\<close> are the answers to the first and
  to the second call.  \<open>pv_describe\<close> names the errors of the platform and of the client.\<close>

record push_env =
  pv_serviceWorker :: bool
  pv_notification :: bool
  pv_looksLikeIOS :: bool
  pv_standalone :: bool
  pv_permission :: "thrown + jstr"
  pv_register :: "thrown + bool"
  pv_getSubscription :: "nat \<Rightarrow> thrown + unit"
  pv_unsubscribe :: "nat \<Rightarrow> thrown + bool"
  pv_subscribe :: "nat \<Rightarrow> byte list \<Rightarrow> thrown + browser_sub"
  pv_describe :: "js_error \<Rightarrow> thrown"

definition thrown_of :: "push_env \<Rightarrow> 'a result \<Rightarrow> thrown + 'a" where
  "thrown_of env r = (case r of Inl e \<Rightarrow> Inl (pv_describe env e) | Inr x \<Rightarrow> Inr x)"

definition new_error :: "jstr \<Rightarrow> thrown" where
  "new_error m = ThrownError (js ''Error'') m"

definition currentPushSubscription :: "push_panel \<Rightarrow> push_subscription option" where
  "currentPushSubscription p = (case pn_subscriptions p of [] \<Rightarrow> None | s # _ \<Rightarrow> Some s)"

section \<open>Loading the panel\<close>

definition pushLoadBegin :: "jstr \<Rightarrow> push_panel \<Rightarrow> push_panel \<times> api_call list" where
  "pushLoadBegin token p =
     (p\<lparr>pn_loading := True\<rparr>, [CallFetchPushPublicKey token, CallFetchPushSubscriptions token])"

definition pushLoadDone ::
  "bool \<Rightarrow> (jstr + push_info \<times> push_subscription list option) \<Rightarrow> push_panel \<Rightarrow> push_panel" where
  "pushLoadDone cancelled answer p =
     (let p1 = (case answer of
                  Inl m \<Rightarrow> p\<lparr>pn_feedback := Some (Red, Shown m)\<rparr>
                | Inr (info, subs) \<Rightarrow>
                    (if cancelled then p
                     else (let p2 = p\<lparr>pn_info := Some info, pn_subscriptions := nullish subs []\<rparr>
                           in (case nullish subs [] of [] \<Rightarrow> p2 | s # _ \<Rightarrow> p2\<lparr>pn_prefs := ps_preferences s\<rparr>))))
      in if cancelled then p1 else p1\<lparr>pn_loading := False\<rparr>)"

section \<open>Enabling\<close>

text \<open>\<open>existing?.unsubscribe()\<close> on what \<open>getSubscription\<close> returned; its answer, whether the subscription
  was dropped, is not looked at.\<close>

definition dropExisting :: "push_env \<Rightarrow> nat \<Rightarrow> browser_sub option \<Rightarrow> browser_sub option \<times> (thrown + unit)" where
  "dropExisting env k sub =
     (case pv_getSubscription env k of
        Inl e \<Rightarrow> (sub, Inl e)
      | Inr _ \<Rightarrow>
          (if sub = None then (None, Inr ())
           else (case pv_unsubscribe env k of
                  Inl e \<Rightarrow> (sub, Inl e)
                | Inr dropped \<Rightarrow> (if dropped then None else sub, Inr ()))))"

definition subscribeToPushWithRetry ::
  "push_env \<Rightarrow> byte list \<Rightarrow> browser_sub option \<Rightarrow> browser_sub option \<times> (thrown + browser_sub)" where
  "subscribeToPushWithRetry env key sub =
     (case pv_subscribe env 0 key of
        Inr s \<Rightarrow> (Some s, Inr s)
      | Inl firstError \<Rightarrow>
          (case dropExisting env 1 sub of
             (sub', Inl _) \<Rightarrow> (sub', Inl firstError)
           | (sub', Inr _) \<Rightarrow>
               (case pv_subscribe env 1 key of
                  Inr s \<Rightarrow> (Some s, Inr s)
                | Inl _ \<Rightarrow> (sub', Inl firstError))))"

text \<open>The \<open>try\<close> of \<open>enablePushNotifications\<close>: the subscription the browser then holds, the calls
  made, and the saved record or the error.\<close>

definition applicationServerKey :: "bool \<Rightarrow> push_env \<Rightarrow> jstr \<Rightarrow> thrown + byte list" where
  "applicationServerKey ru env publicKey =
     (case pv_permission env of
        Inl e \<Rightarrow> Inl e
      | Inr permission \<Rightarrow>
          (if permission \<noteq> js ''granted'' then Inl (new_error (permissionText ru))
           else (case pv_register env of
                   Inl e \<Rightarrow> Inl e
                 | Inr hasPushManager \<Rightarrow>
                     (if \<not> hasPushManager then Inl (new_error (pushApiText ru))
                      else (case thrown_of env (urlBase64ToUint8Array publicKey) of
                              Inl e \<Rightarrow> Inl e
                            | Inr key \<Rightarrow> (if length key \<noteq> 65 then Inl (new_error (vapidText ru)) else Inr key))))))"

definition enablePushTry ::
  "bool \<Rightarrow> push_env \<Rightarrow> jstr \<Rightarrow> jstr \<Rightarrow> push_preferences \<Rightarrow> push_subscription result \<Rightarrow> browser_sub option \<Rightarrow>
   browser_sub option \<times> api_call list \<times> (thrown + push_subscription)" where
  "enablePushTry ru env token publicKey prefs answer sub =
     (case applicationServerKey ru env publicKey of
        Inl e \<Rightarrow> (sub, [], Inl e)
      | Inr key \<Rightarrow>
          (case dropExisting env 0 sub of
             (sub1, Inl e) \<Rightarrow> (sub1, [], Inl e)
           | (sub1, Inr _) \<Rightarrow>
               (case subscribeToPushWithRetry env key sub1 of
                  (sub2, Inl e) \<Rightarrow> (sub2, [], Inl e)
                | (sub2, Inr browserSub) \<Rightarrow>
                    (sub2, [CallSavePushSubscription token (nullish (bs_endpoint browserSub) [])
                              (nullish (bs_p256dh browserSub) []) (nullish (bs_auth browserSub) []) prefs],
                     thrown_of env answer))))"

definition enablePushNotifications ::
  "bool \<Rightarrow> push_env \<Rightarrow> jstr \<Rightarrow> push_subscription result \<Rightarrow> push_panel \<times> browser_sub option \<Rightarrow>
   (push_panel \<times> browser_sub option) \<times> api_call list" where
  "enablePushNotifications ru env token answer = (\<lambda>(p, sub).
     (case pn_info p of
        None \<Rightarrow> ((p\<lparr>pn_feedback := Some (Yellow, NotConfigured)\<rparr>, sub), [])
      | Some info \<Rightarrow>
          (if \<not> pi_enabled info \<or> \<not> truthy (pi_publicKey info)
           then ((p\<lparr>pn_feedback := Some (Yellow, NotConfigured)\<rparr>, sub), [])
           else if \<not> pv_serviceWorker env \<or> \<not> pv_notification env
           then ((p\<lparr>pn_feedback := Some (Yellow, Unsupported)\<rparr>, sub), [])
           else if pv_looksLikeIOS env \<and> \<not> pv_standalone env
           then ((p\<lparr>pn_feedback := Some (Yellow, OpenFromHomeScreen)\<rparr>, sub), [])
           else (case enablePushTry ru env token (the (pi_publicKey info)) (pn_prefs p) answer sub of
                   (sub', calls, Inr saved) \<Rightarrow>
                     ((p\<lparr>pn_subscriptions := [saved], pn_prefs := ps_preferences saved,
                         pn_feedback := Some (Green, NotificationsEnabled), pn_loading := False\<rparr>, sub'), calls)
                 | (sub', calls, Inl e) \<Rightarrow>
                     ((p\<lparr>pn_feedback := Some (Red, case e of ThrownError name m \<Rightarrow> pushSubscribeErrorMessage name m
                           | ThrownValue \<Rightarrow> Shown (js ''push_failed'')), pn_loading := False\<rparr>, sub'), calls)))))"

section \<open>Disabling and changing preferences\<close>

definition feedbackOf :: "string \<Rightarrow> thrown \<Rightarrow> push_text" where
  "feedbackOf fallback e = (case e of ThrownError _ m \<Rightarrow> Shown m | ThrownValue \<Rightarrow> Shown (js fallback))"

text \<open>\<open>pv_register\<close> is here whether \<open>getRegistration\<close> found the worker.\<close>

definition disablePushNotifications ::
  "push_env \<Rightarrow> jstr \<Rightarrow> unit result \<Rightarrow> push_panel \<times> browser_sub option \<Rightarrow>
   (push_panel \<times> browser_sub option) \<times> api_call list" where
  "disablePushNotifications env token answer = (\<lambda>(p, sub).
     (case currentPushSubscription p of
        None \<Rightarrow> ((p, sub), [])
      | Some current \<Rightarrow>
          (let (sub', dropped) =
                 (if \<not> pv_serviceWorker env then (sub, Inr ())
                  else (case pv_register env of
                          Inl e \<Rightarrow> (sub, Inl e)
                        | Inr found \<Rightarrow> (if found then dropExisting env 0 sub else (sub, Inr ()))))
           in (case dropped of
                 Inl e \<Rightarrow> ((p\<lparr>pn_feedback := Some (Red, feedbackOf ''push_disable_failed'' e), pn_loading := False\<rparr>, sub'), [])
               | Inr _ \<Rightarrow>
                   (case thrown_of env answer of
                      Inl e \<Rightarrow> ((p\<lparr>pn_feedback := Some (Red, feedbackOf ''push_disable_failed'' e), pn_loading := False\<rparr>, sub'),
                               [CallDeletePushSubscription token (ps_id current)])
                    | Inr _ \<Rightarrow> ((p\<lparr>pn_subscriptions := [], pn_feedback := Some (Green, NotificationsDisabled),
                                   pn_loading := False\<rparr>, sub'),
                               [CallDeletePushSubscription token (ps_id current)]))))))"

definition updatePushPrefs ::
  "push_env \<Rightarrow> jstr \<Rightarrow> push_preferences \<Rightarrow> push_subscription result \<Rightarrow> push_panel \<Rightarrow> push_panel \<times> api_call list" where
  "updatePushPrefs env token prefs answer p =
     (let p1 = p\<lparr>pn_prefs := prefs\<rparr>
      in (case currentPushSubscription p of
            None \<Rightarrow> (p1, [])
          | Some current \<Rightarrow>
              (case thrown_of env answer of
                 Inl e \<Rightarrow> (p1\<lparr>pn_feedback := Some (Red, feedbackOf ''push_update_failed'' e)\<rparr>,
                          [CallUpdatePushSubscription token (ps_id current) prefs])
               | Inr saved \<Rightarrow> (p1\<lparr>pn_subscriptions := [saved]\<rparr>,
                          [CallUpdatePushSubscription token (ps_id current) prefs]))))"

section \<open>What enabling does\<close>

lemma subscribe_holds:
  "subscribeToPushWithRetry env key sub = (sub', Inr s) \<Longrightarrow> sub' = Some s"
  by (auto simp: subscribeToPushWithRetry_def split: sum.splits prod.splits)

lemma enablePushTry_saved:
  assumes "enablePushTry ru env token key prefs answer sub = (sub', calls, Inr saved)"
  shows "answer = Inr saved \<and> (\<exists>s. sub' = Some s \<and>
    calls = [CallSavePushSubscription token (nullish (bs_endpoint s) []) (nullish (bs_p256dh s) []) (nullish (bs_auth s) []) prefs])"
  using assms
  by (auto simp: enablePushTry_def thrown_of_def dest: subscribe_holds split: sum.splits prod.splits)

text \<open>C23. Enabling notifications ends in one of two ways: the panel reports success, shows the record
  the server saved, and the browser holds the subscription whose endpoint and keys were sent; or
  the panel shows an error and lists the records it listed before.
\<close>

theorem enable_push_outcome:
  "case enablePushNotifications ru env token answer (p, sub) of ((p', sub'), calls) \<Rightarrow>
     (\<exists>saved s. answer = Inr saved \<and> sub' = Some s \<and> pn_subscriptions p' = [saved] \<and>
        pn_prefs p' = ps_preferences saved \<and> pn_feedback p' = Some (Green, NotificationsEnabled) \<and> pn_loading p' = False \<and>
        calls = [CallSavePushSubscription token (nullish (bs_endpoint s) []) (nullish (bs_p256dh s) [])
                   (nullish (bs_auth s) []) (pn_prefs p)])
     \<or> (pn_subscriptions p' = pn_subscriptions p \<and> pn_prefs p' = pn_prefs p \<and>
        (\<exists>c t. pn_feedback p' = Some (c, t) \<and> c \<in> {Red, Yellow}))"
proof (cases "enablePushTry ru env token (the (pi_publicKey (the (pn_info p)))) (pn_prefs p) answer sub")
  case (fields sub' calls r)
  show ?thesis
  proof (cases r)
    case (Inr saved)
    from enablePushTry_saved[OF fields[unfolded Inr]] fields Inr show ?thesis
      by (auto simp: enablePushNotifications_def split: option.split)
  next
    case (Inl e)
    with fields show ?thesis by (auto simp: enablePushNotifications_def split: option.split)
  qed
qed

section \<open>The texts that reach the user\<close>

lemma js_starts_mono: "js_starts w s \<Longrightarrow> js_starts w (s @ t)"
  by (auto simp: js_starts_iff)

lemma js_includes_right: "js_includes b w \<Longrightarrow> js_includes (a @ b) w"
  by (induction a) auto

lemma mentions_right: "mentions b ws \<Longrightarrow> mentions (a @ b) ws"
  by (auto simp: mentions_def list_ex_iff intro!: js_includes_right)

lemma vapid_mentioned: "mentions (vapidText ru) [''VAPID'', ''applicationServerKey'', ''push service error'', ''Registration failed'']"
proof -
  have "mentions (vapidText True) [''VAPID'', ''applicationServerKey'', ''push service error'', ''Registration failed'']"
    by code_simp
  moreover have "mentions (vapidText False) [''VAPID'', ''applicationServerKey'', ''push service error'', ''Registration failed'']"
    by code_simp
  ultimately show ?thesis by (cases ru) simp_all
qed

lemma vapid_never_shown: "pushSubscribeErrorMessage name (vapidText ru) \<noteq> Shown m"
  using mentions_right[OF vapid_mentioned, of "name @ js '' ''" ru]
  by (simp add: pushSubscribeErrorMessage_def Let_def)

lemma shown_is_raw: "pushSubscribeErrorMessage name raw = Shown m \<Longrightarrow> m = raw"
  by (auto simp: pushSubscribeErrorMessage_def Let_def split: if_splits)

text \<open>The text that says that the server's VAPID key is malformed is thrown for a key that is not 65
  bytes long, but it names VAPID itself, so the classifier of errors always replaces it: no run
  of \<open>enablePushNotifications\<close> shows it.
\<close>

theorem vapid_text_is_never_shown:
  "pn_feedback (fst (fst (enablePushNotifications ru env token answer (p, sub)))) \<noteq> Some (c, Shown (vapidText ru'))"
proof -
  have "pushSubscribeErrorMessage name m \<noteq> Shown (vapidText ru')" for name m
    using vapid_never_shown[of name ru'] shown_is_raw[of name m "vapidText ru'"] by blast
  moreover have "js ''push_failed'' \<noteq> vapidText ru'"
    by (cases ru') (simp_all add: vapidText_def js_def)
  ultimately show ?thesis
    by (auto simp: enablePushNotifications_def split: option.split sum.split prod.split thrown.split)
qed

section \<open>A failure after the old subscription was dropped\<close>

text \<open>When the browser drops the old subscription and then refuses a new one twice, the browser is
  left without a subscription, while the panel still lists the old record and the server is not
  told.
\<close>

theorem failed_enable_leaves_stale_record:
  assumes "pn_info p = Some info" "pi_enabled info" "pi_publicKey info = Some key"
    and "pv_serviceWorker env" "pv_notification env" "pv_looksLikeIOS env = False"
    and "applicationServerKey ru env key = Inr bytes"
    and "pv_getSubscription env 0 = Inr ()" "pv_unsubscribe env 0 = Inr True"
    and "pv_subscribe env 0 bytes = Inl e" "pv_subscribe env 1 bytes = Inl e'"
    and "key \<noteq> []"
  shows "case enablePushNotifications ru env token answer (p, Some old) of ((p', sub'), calls) \<Rightarrow>
     sub' = None \<and> calls = [] \<and> pn_subscriptions p' = pn_subscriptions p"
proof -
  have "dropExisting env 0 (Some old) = (None, Inr ())" using assms by (simp add: dropExisting_def)
  moreover have "\<exists>r. dropExisting env 1 None = (None, r)" by (simp add: dropExisting_def split: sum.split)
  ultimately show ?thesis
    using assms by (auto simp: enablePushNotifications_def enablePushTry_def subscribeToPushWithRetry_def split: sum.split)
qed

definition refusing_env :: push_env where
  "refusing_env = \<lparr>pv_serviceWorker = True, pv_notification = True, pv_looksLikeIOS = False, pv_standalone = False,
     pv_permission = Inr (js ''granted''), pv_register = Inr True, pv_getSubscription = (\<lambda>_. Inr ()),
     pv_unsubscribe = (\<lambda>_. Inr True), pv_subscribe = (\<lambda>_ _. Inl (ThrownError (js ''AbortError'') (js ''no''))),
     pv_describe = (\<lambda>_. ThrownValue)\<rparr>"

definition stale_panel :: push_panel where
  "stale_panel = \<lparr>pn_info = Some \<lparr>pi_enabled = True, pi_publicKey = Some (replicate 87 65)\<rparr>,
     pn_subscriptions = [\<lparr>ps_id = js ''s1'', ps_endpoint = js ''https://push'', ps_userAgent = None,
        ps_preferences = \<lparr>pp_messages = True, pp_chats = True, pp_sessions = True, pp_friends = True\<rparr>,
        ps_createdAt = [], ps_lastUsedAt = None\<rparr>],
     pn_loading = False, pn_feedback = None,
     pn_prefs = \<lparr>pp_messages = True, pp_chats = True, pp_sessions = True, pp_friends = True\<rparr>\<rparr>"

lemma sample_key: "applicationServerKey ru refusing_env (replicate 87 65) = Inr (replicate 65 0)"
proof -
  have "urlBase64ToUint8Array (replicate 87 65) = Inr (replicate 65 0)" by code_simp
  then show ?thesis by (simp add: applicationServerKey_def refusing_env_def thrown_of_def)
qed

theorem failed_enable_leaves_stale_record_witness:
  "case enablePushNotifications False refusing_env (js ''t'') (Inl TypeError)
     (stale_panel, Some \<lparr>bs_endpoint = None, bs_p256dh = None, bs_auth = None\<rparr>) of ((p', sub'), calls) \<Rightarrow>
     sub' = None \<and> calls = [] \<and> pn_subscriptions p' = pn_subscriptions stale_panel"
  by (rule failed_enable_leaves_stale_record[OF _ _ _ _ _ _ sample_key,
        where info = "\<lparr>pi_enabled = True, pi_publicKey = Some (replicate 87 65)\<rparr>"])
     (simp_all add: refusing_env_def stale_panel_def)

section \<open>Preferences\<close>

text \<open>Changing preferences shows them at once; when the server refuses, the panel keeps showing
  them although the record, and so the server, has the old ones.
\<close>

theorem refused_prefs_stay_shown:
  assumes "pn_subscriptions p = record1 # rest"
  shows "case updatePushPrefs env token prefs (Inl err) p of (p', calls) \<Rightarrow>
     pn_prefs p' = prefs \<and> pn_subscriptions p' = record1 # rest
     \<and> calls = [CallUpdatePushSubscription token (ps_id record1) prefs]"
  using assms by (simp add: updatePushPrefs_def currentPushSubscription_def thrown_of_def Let_def)

theorem refused_prefs_stay_shown_witness:
  "case updatePushPrefs refusing_env (js ''t'')
      \<lparr>pp_messages = False, pp_chats = True, pp_sessions = True, pp_friends = True\<rparr> (Inl TypeError) stale_panel of (p', calls) \<Rightarrow>
     pn_prefs p' = \<lparr>pp_messages = False, pp_chats = True, pp_sessions = True, pp_friends = True\<rparr>
     \<and> pn_subscriptions p' = [hd (pn_subscriptions stale_panel)]
     \<and> calls = [CallUpdatePushSubscription (js ''t'') (ps_id (hd (pn_subscriptions stale_panel)))
          \<lparr>pp_messages = False, pp_chats = True, pp_sessions = True, pp_friends = True\<rparr>]"
  by (rule refused_prefs_stay_shown) (simp add: stale_panel_def)

section \<open>The contact scanner\<close>

text \<open>
  One run of the effect that opens the camera.  \<open>Asking\<close> waits for \<open>getUserMedia\<close>, \<open>Starting\<close>
  for \<open>video.play\<close>; \<open>sr_stream\<close> is the variable the cleanup reads, \<open>sr_live\<close> the tracks.
\<close>

datatype scan_phase = Asking | Starting | Scanning | Over

record scan_run =
  sr_phase :: scan_phase
  sr_cancelled :: bool
  sr_stream :: bool
  sr_live :: bool
  sr_frame :: bool
  sr_error :: jstr
  sr_opened :: bool
  sr_friendUsername :: jstr

definition scan_opened :: "jstr \<Rightarrow> scan_run" where
  "scan_opened username = \<lparr>sr_phase = Asking, sr_cancelled = False, sr_stream = False, sr_live = False,
     sr_frame = False, sr_error = [], sr_opened = True, sr_friendUsername = username\<rparr>"

text \<open>\<open>video\<close> says whether the element is mounted, \<open>ctx\<close> is the text of the error when there is no 2d context.\<close>

definition scanGranted :: "bool \<Rightarrow> scan_run \<Rightarrow> scan_run" where
  "scanGranted video r =
     (let r1 = r\<lparr>sr_stream := True, sr_live := True\<rparr>
      in if \<not> video \<or> sr_cancelled r then r1\<lparr>sr_phase := Over\<rparr> else r1\<lparr>sr_phase := Starting\<rparr>)"

definition scanFailed :: "jstr \<Rightarrow> scan_run \<Rightarrow> scan_run" where
  "scanFailed m r = r\<lparr>sr_phase := Over, sr_error := m\<rparr>"

definition scanPlaying :: "scan_run \<Rightarrow> scan_run" where
  "scanPlaying r = r\<lparr>sr_phase := Scanning, sr_frame := True\<rparr>"

text \<open>One animation frame; \<open>raw\<close> is the trimmed text of the code, empty when none was found.\<close>

definition scanTick :: "jstr \<Rightarrow> scan_run \<Rightarrow> scan_run" where
  "scanTick raw r =
     (let r1 = r\<lparr>sr_frame := False\<rparr>
      in if sr_cancelled r then r1\<lparr>sr_phase := Over\<rparr>
         else if raw \<noteq> [] then r1\<lparr>sr_friendUsername := raw, sr_opened := False, sr_phase := Over\<rparr>
         else r1\<lparr>sr_frame := True\<rparr>)"

definition scanCleanup :: "scan_run \<Rightarrow> scan_run" where
  "scanCleanup r = r\<lparr>sr_cancelled := True, sr_frame := False, sr_opened := False, sr_live := (sr_live r \<and> \<not> sr_stream r)\<rparr>"

inductive scan_step :: "scan_run \<Rightarrow> scan_run \<Rightarrow> bool" where
  granted: "sr_phase r = Asking \<Longrightarrow> scan_step r (scanGranted video r)"
| denied: "sr_phase r = Asking \<Longrightarrow> scan_step r (scanFailed m r)"
| playing: "sr_phase r = Starting \<Longrightarrow> scan_step r (scanPlaying r)"
| not_playing: "sr_phase r = Starting \<Longrightarrow> scan_step r (scanFailed m r)"
| tick: "sr_phase r = Scanning \<Longrightarrow> sr_frame r \<Longrightarrow> scan_step r (scanTick raw r)"
| closed: "\<not> sr_cancelled r \<Longrightarrow> scan_step r (scanCleanup r)"

inductive_cases scan_stepE: "scan_step r r'"

inductive scan_reachable :: "jstr \<Rightarrow> scan_run \<Rightarrow> bool" for username where
  start: "scan_reachable username (scan_opened username)"
| step: "scan_reachable username r \<Longrightarrow> scan_step r r' \<Longrightarrow> scan_reachable username r'"

lemmas scan_ops = scanGranted_def scanFailed_def scanPlaying_def scanTick_def scanCleanup_def

text \<open>The camera is on only through the variable, and the phases that hold it are not yet closed
  or were entered too late.\<close>

definition scan_inv :: "scan_run \<Rightarrow> bool" where
  "scan_inv r \<longleftrightarrow> (sr_live r \<longrightarrow> sr_stream r) \<and> (sr_phase r = Asking \<longrightarrow> \<not> sr_live r) \<and>
     (sr_cancelled r \<and> sr_live r \<longrightarrow> sr_phase r = Over) \<and> (sr_phase r = Asking \<longrightarrow> \<not> sr_stream r)"

lemma scan_inv_step: "scan_step r r' \<Longrightarrow> scan_inv r \<Longrightarrow> scan_inv r'"
  by (erule scan_stepE) (auto simp: scan_inv_def scan_ops Let_def)

lemma scan_reachable_inv: "scan_reachable username r \<Longrightarrow> scan_inv r"
  by (induction rule: scan_reachable.induct) (auto simp: scan_inv_step, simp add: scan_inv_def scan_opened_def)

definition scan_dead :: "scan_run \<Rightarrow> bool" where
  "scan_dead r \<longleftrightarrow> sr_cancelled r \<and> \<not> sr_live r \<and> sr_phase r \<noteq> Asking"

lemma scan_dead_step: "scan_step r r' \<Longrightarrow> scan_dead r \<Longrightarrow> scan_dead r'"
  by (erule scan_stepE) (auto simp: scan_dead_def scan_ops Let_def)

lemma scan_dead_steps: "scan_step\<^sup>*\<^sup>* r r' \<Longrightarrow> scan_dead r \<Longrightarrow> scan_dead r'"
  by (induction rule: rtranclp_induct) (auto simp: scan_dead_step)

text \<open>Once the user has answered the camera question, closing the scanner turns the camera off,
  and nothing that was still running turns it on again.
\<close>

theorem closing_turns_camera_off:
  assumes "scan_reachable username r" "sr_phase r \<noteq> Asking" "scan_step\<^sup>*\<^sup>* (scanCleanup r) r'"
  shows "\<not> sr_live r'"
proof -
  from scan_reachable_inv[OF assms(1)] assms(2) have "scan_dead (scanCleanup r)"
    by (auto simp: scan_dead_def scan_inv_def scanCleanup_def)
  with assms(3) have "scan_dead r'" by (rule scan_dead_steps)
  then show ?thesis by (simp add: scan_dead_def)
qed

theorem closing_turns_camera_off_witness:
  "\<not> sr_live (scanPlaying (scanCleanup (scanGranted True (scan_opened (js ''code'')))))"
proof (rule closing_turns_camera_off)
  show "scan_reachable (js ''code'') (scanGranted True (scan_opened (js ''code'')))"
    by (rule scan_reachable.step[OF scan_reachable.start scan_step.granted]) (simp add: scan_opened_def)
  show "sr_phase (scanGranted True (scan_opened (js ''code''))) \<noteq> Asking"
    by (simp add: scanGranted_def scan_opened_def)
  have "sr_phase (scanCleanup (scanGranted True (scan_opened (js ''code'')))) = Starting"
    by (simp add: scanGranted_def scan_opened_def scanCleanup_def)
  then show "scan_step\<^sup>*\<^sup>* (scanCleanup (scanGranted True (scan_opened (js ''code''))))
      (scanPlaying (scanCleanup (scanGranted True (scan_opened (js ''code'')))))"
    by (intro r_into_rtranclp scan_step.playing)
qed

text \<open>Closing the scanner while the camera question is open leaves the camera on for good when the
  question is then answered with yes: the cleanup has run, and the run returns without stopping
  the stream it was given.
\<close>

theorem late_grant_leaves_camera_on:
  "\<exists>r. scan_reachable username r \<and> sr_cancelled r \<and> sr_live r \<and> {r'. scan_step\<^sup>*\<^sup>* r r'} = {r}"
proof (intro exI conjI)
  let ?r = "scanGranted True (scanCleanup (scan_opened username))"
  have "scan_reachable username (scanCleanup (scan_opened username))"
    by (rule scan_reachable.step[OF scan_reachable.start scan_step.closed]) (simp add: scan_opened_def)
  then show "scan_reachable username ?r"
    by (rule scan_reachable.step[OF _ scan_step.granted]) (simp add: scan_opened_def scanCleanup_def)
  show "sr_cancelled ?r" "sr_live ?r"
    by (simp_all add: scan_ops scan_opened_def Let_def)
  have "\<not> scan_step ?r r'" for r'
    by (auto elim!: scan_stepE simp: scan_ops scan_opened_def Let_def)
  then have "scan_step\<^sup>*\<^sup>* ?r r' \<longleftrightarrow> r' = ?r" for r'
    by (metis converse_rtranclpE rtranclp.rtrancl_refl)
  then show "{r'. scan_step\<^sup>*\<^sup>* ?r r'} = {?r}" by simp
qed

end
