(* ===== verification/Panels.thy ===== *)
theory Panels
  imports EndToEnd Shell Push
begin

text \<open>
  The panels of \<open>components/layout/Sidebar.tsx\<close> (\<open>Sidebar\<close>, \<open>ProfilePanel\<close>,
  \<open>AccountSection\<close>): the lists of chats and calls, the sections of the settings, contacts, second
  factor, notifications, sessions and the display name, and what their buttons start in \<open>Rooms\<close>, \<open>Session\<close> and \<open>Push\<close>.  A word picked by locale is a constructor.
\<close>

section \<open>Sections\<close>

datatype profile_section = SecOverview | SecAccount | SecFriends | SecSecurity | SecNotifications | SecSessions

datatype panel_mode = ContactsMode | SettingsMode

record sections_ui =
  su_contacts :: profile_section
  su_settings :: profile_section

definition initial_sections :: sections_ui where
  "initial_sections = \<lparr>su_contacts = SecFriends, su_settings = SecOverview\<rparr>"

definition contactsReset :: "sections_ui \<Rightarrow> sections_ui" where
  "contactsReset u = u\<lparr>su_contacts := SecFriends\<rparr>"

definition settingsReset :: "sections_ui \<Rightarrow> sections_ui" where
  "settingsReset u = u\<lparr>su_settings := SecOverview\<rparr>"

definition setProfileSection :: "panel_mode \<Rightarrow> profile_section \<Rightarrow> sections_ui \<Rightarrow> sections_ui" where
  "setProfileSection mode sec u =
     (case mode of
        ContactsMode \<Rightarrow> if sec = SecFriends then u\<lparr>su_contacts := SecFriends\<rparr> else u
      | SettingsMode \<Rightarrow> if sec \<noteq> SecFriends then u\<lparr>su_settings := sec\<rparr> else u)"

text \<open>The panel a view shows, with its section; the other views show none.\<close>

definition shownPanel :: "app_view \<Rightarrow> sections_ui \<Rightarrow> (panel_mode \<times> profile_section) option" where
  "shownPanel leftView u =
     (if leftView = VContacts then Some (ContactsMode, su_contacts u)
      else if leftView = VSettings \<or> leftView = VProfile then Some (SettingsMode, su_settings u)
      else None)"

definition showsRoomList :: "app_view \<Rightarrow> bool" where
  "showsRoomList leftView = (leftView = VRooms \<or> leftView = VChat)"

definition showsBack :: "panel_mode \<Rightarrow> profile_section \<Rightarrow> bool" where
  "showsBack mode sec = (mode \<noteq> ContactsMode \<and> sec \<noteq> SecOverview)"

text \<open>The cards of the overview; the last button logs out.\<close>

definition overviewCards :: "profile_section list" where
  "overviewCards = [SecAccount, SecSecurity, SecNotifications, SecSessions]"

text \<open>What changes the sections: the two reset keys of the tabs, and the panel on the screen.  The
  contacts panel shows contacts only, and the settings panel never does.\<close>

datatype sections_event = ResetContacts | ResetSettings | PickSection panel_mode profile_section

fun sections_step :: "sections_ui \<Rightarrow> sections_event \<Rightarrow> sections_ui" where
  "sections_step u ResetContacts = contactsReset u"
| "sections_step u ResetSettings = settingsReset u"
| "sections_step u (PickSection mode sec) = setProfileSection mode sec u"

definition sections_ok :: "sections_ui \<Rightarrow> bool" where
  "sections_ok u = (su_contacts u = SecFriends \<and> su_settings u \<noteq> SecFriends)"

interpretation sections: step_system sections_step sections_ok
proof unfold_locales
  fix u e
  assume "sections_ok u"
  then show "sections_ok (sections_step u e)"
    by (cases e) (auto simp: sections_ok_def contactsReset_def settingsReset_def setProfileSection_def split: panel_mode.split)
qed

lemma shown_section:
  assumes "shownPanel view (foldl sections_step initial_sections es) = Some (mode, sec)"
  shows "mode = ContactsMode \<longleftrightarrow> sec = SecFriends"
proof -
  have "sections_ok (foldl sections_step initial_sections es)"
    by (rule sections.run_inv) (simp add: sections_ok_def initial_sections_def)
  with assms show ?thesis by (auto simp: shownPanel_def sections_ok_def split: if_splits)
qed

section \<open>The lists of chats and of calls\<close>

text \<open>While chats load, none is listed, also when some are known.\<close>

datatype rooms_body = RoomPlaceholders | RoomRows "room list" | NoRooms

definition roomsBody :: "bool \<Rightarrow> room list \<Rightarrow> rooms_body" where
  "roomsBody isLoading found =
     (if isLoading then (if found = [] then RoomPlaceholders else RoomRows [])
      else if found = [] then NoRooms else RoomRows found)"

record room_row =
  rw_title :: jstr
  rw_avatar :: jstr
  rw_subtitle :: room_subtitle
  rw_green :: bool
  rw_active :: bool
  rw_time :: room_time
  rw_unread :: "int option"

text \<open>The row of a chat; an error when the address of the avatar cannot be encoded, which ends the
  render.\<close>

definition roomRow ::
  "(jstr \<Rightarrow> int option) \<Rightarrow> int \<Rightarrow> (jstr \<Rightarrow> calendar_day option) \<Rightarrow> calendar_day \<Rightarrow> calendar_day \<Rightarrow> jstr \<Rightarrow> jstr \<Rightarrow>
   (jstr, presence_entry) jmap \<Rightarrow> identity \<Rightarrow> jstr \<Rightarrow> room \<Rightarrow> room_row result" where
  "roomRow dp now day today yesterday base chatWord presence me activeRoomID r =
     bindR (roomAvatarUrl base me r) (\<lambda>avatarUrl.
       let peerPresence = Option.bind (roomPeer me r) (\<lambda>p. jm_get presence (iy_userId p))
       in Inr \<lparr>rw_title = roomDisplayName chatWord me r, rw_avatar = avatarUrl,
            rw_subtitle = roomSubtitle dp now presence me r,
            rw_green = (length (ro_members r) = 2 \<and> isRecentlyOnline dp now peerPresence),
            rw_active = (activeRoomID = ro_roomId r),
            rw_time = formatRoomTime day today yesterday (roomLastActivity r),
            rw_unread = (case ro_unreadCount r of None \<Rightarrow> None | Some n \<Rightarrow> if n = 0 then None else Some n)\<rparr>)"

text \<open>The subtitle is green exactly when it says that the other member is online, and the badges of the
  rows add up to the number the tab shows.\<close>

lemma roomRow_green:
  "roomRow dp now day today yesterday base w presence me active r = Inr row \<Longrightarrow>
   rw_green row \<longleftrightarrow> rw_subtitle row = SubOnline"
  by (auto simp: roomRow_def bindR_eq_Inr roomSubtitle_def Let_def split: option.splits if_splits)

lemma foldl_sum: "foldl (\<lambda>sum x. sum + f x) (n::int) xs = n + sum_list (map f xs)"
  by (induction xs arbitrary: n) auto

lemma row_badges_add_up:
  "list_all2 (\<lambda>r row. roomRow dp now day today yesterday base w presence me active r = Inr row) rooms rows \<Longrightarrow>
   totalUnread rooms = sum_list (map (\<lambda>row. nullish (rw_unread row) 0) rows)"
  unfolding totalUnread_def foldl_sum
proof (induction rule: list_all2_induct)
  case (Cons r rooms row rows)
  then have "nullish (rw_unread row) 0 = nullish (ro_unreadCount r) 0"
    by (auto simp: roomRow_def bindR_eq_Inr Let_def split: option.splits)
  with Cons show ?case by simp
qed simp

text \<open>The calls: placeholders while they load, a word when there are none, and the entries.\<close>

definition callsBody :: "identity \<Rightarrow> room list \<Rightarrow> bool \<Rightarrow> call_log list \<Rightarrow> bool \<times> bool \<times> call_entry list" where
  "callsBody me rooms isLoading logs = (isLoading, \<not> isLoading \<and> logs = [], map (callEntry me rooms) logs)"

section \<open>QR codes\<close>

text \<open>The effects that draw the contact code and the key of the second factor: nothing to draw clears
  the image, and an answer, None when drawing failed, is ignored once the text has changed.\<close>

definition contactQRBegin :: "jstr \<Rightarrow> jstr \<Rightarrow> jstr \<times> bool" where
  "contactQRBegin friendCode img = (if friendCode = [] then ([], False) else (img, True))"

definition contactQRDone :: "bool \<Rightarrow> jstr option \<Rightarrow> jstr \<Rightarrow> jstr" where
  "contactQRDone cancelled answer img = (if cancelled then img else nullish answer [])"

definition totpQRBegin :: "app_state \<Rightarrow> jstr \<Rightarrow> jstr \<times> bool" where
  "totpQRBegin c img =
     (case au_totpSetup c of
        None \<Rightarrow> ([], False)
      | Some (secret, otpauthUrl) \<Rightarrow> if otpauthUrl = [] then ([], False) else (img, True))"

definition totpQRDone :: "bool \<Rightarrow> jstr option \<Rightarrow> jstr \<Rightarrow> jstr" where
  "totpQRDone cancelled answer img = (if cancelled then img else nullish answer [])"

section \<open>Contacts\<close>

definition isContactsInitialLoading :: "profile_section \<Rightarrow> bool \<Rightarrow> friend list \<Rightarrow> jstr \<Rightarrow> jstr \<Rightarrow> bool" where
  "isContactsInitialLoading sec friendsLoading friendList friendCode contactQRCode =
     (sec = SecFriends \<and> ((friendsLoading \<and> friendList = []) \<or> (friendCode \<noteq> [] \<and> contactQRCode = [])))"

text \<open>None shows placeholders.\<close>

definition contactsBody :: "profile_section \<Rightarrow> bool \<Rightarrow> friend list \<Rightarrow> jstr \<Rightarrow> jstr \<Rightarrow> friend list option" where
  "contactsBody sec friendsLoading friendList friendCode contactQRCode =
     (if isContactsInitialLoading sec friendsLoading friendList friendCode contactQRCode then None else Some friendList)"

datatype contact_status = ContactOnline | ContactLastSeen jstr | ContactOffline | ContactIncoming | ContactOutgoing

datatype contact_button = ButtonAccept | ButtonRefuse | ButtonChat | ButtonInvite

record contact_row =
  ct_name :: jstr
  ct_bold :: bool
  ct_green :: bool
  ct_status :: contact_status
  ct_buttons :: "contact_button list"

definition peerIdentity :: "room list \<Rightarrow> friend \<Rightarrow> identity option" where
  "peerIdentity rooms f =
     find (\<lambda>m. iy_userId m = fr_userId f) (concat (map (\<lambda>r. nullish (ro_memberProfiles r) []) rooms))"

definition contactStatus ::
  "(jstr \<Rightarrow> int option) \<Rightarrow> int \<Rightarrow> (jstr, presence_entry) jmap \<Rightarrow> room list \<Rightarrow> friend \<Rightarrow> contact_status" where
  "contactStatus dp now presence rooms f =
     (let friendPresence = jm_get presence (fr_userId f);
          online = isRecentlyOnline dp now friendPresence;
          knownLastSeen = or_opt (map_option pe_lastSeenAt friendPresence)
            (nullish (map_option iy_lastSeenAt (peerIdentity rooms f)) [])
      in if fr_status f = Accepted
         then (if online then ContactOnline else if knownLastSeen \<noteq> [] then ContactLastSeen knownLastSeen else ContactOffline)
         else if fr_direction f = Incoming then ContactIncoming else ContactOutgoing)"

definition contactButtons :: "jstr \<Rightarrow> room option \<Rightarrow> friend \<Rightarrow> contact_button list" where
  "contactButtons activeRoomID activeRoom f =
     (if fr_status f = Pending \<and> fr_direction f = Incoming then [ButtonAccept, ButtonRefuse]
      else if fr_status f = Accepted
      then [ButtonChat] @ (if activeRoomID \<noteq> [] \<and> (case activeRoom of None \<Rightarrow> True | Some r \<Rightarrow> fr_userId f \<notin> set (ro_members r))
                           then [ButtonInvite] else [])
      else [])"

definition contactRow ::
  "(jstr \<Rightarrow> int option) \<Rightarrow> int \<Rightarrow> (jstr, presence_entry) jmap \<Rightarrow> room list \<Rightarrow> jstr \<Rightarrow> room option \<Rightarrow> jstr \<Rightarrow> friend \<Rightarrow>
   contact_row" where
  "contactRow dp now presence rooms activeRoomID activeRoom unknownUser f =
     \<lparr>ct_name = or_str (friend.fr_displayName f) unknownUser,
      ct_bold = (fr_status f = Accepted),
      ct_green = (fr_status f = Accepted \<and> isRecentlyOnline dp now (jm_get presence (fr_userId f))),
      ct_status = contactStatus dp now presence rooms f,
      ct_buttons = contactButtons activeRoomID activeRoom f\<rparr>"

text \<open>What a button of a row starts: the answer to a request, the direct chat, or the invitation.\<close>

definition contactClick :: "app_state \<Rightarrow> bool \<Rightarrow> friend \<Rightarrow> jstr \<Rightarrow> contact_button \<Rightarrow> app_effect list result" where
  "contactClick c isMobile f secret b =
     (case b of
        ButtonAccept \<Rightarrow> bindR (respondFriendCall c f True) (\<lambda>call. Inr [AxApi call])
      | ButtonRefuse \<Rightarrow> bindR (respondFriendCall c f False) (\<lambda>call. Inr [AxApi call])
      | ButtonChat \<Rightarrow> Inr (snd (openDirectChatBegin c isMobile f secret c))
      | ButtonInvite \<Rightarrow> bindR (inviteFriendCall c f) (\<lambda>call. Inr [AxApi call]))"

text \<open>Whether Enter, and whether the button, sends the contact code typed in.\<close>

definition addContactKey :: "jstr \<Rightarrow> bool" where
  "addContactKey key = (key = js ''Enter'')"

definition addContactEnabled :: "jstr \<Rightarrow> bool" where
  "addContactEnabled friendUsername = (js_trim friendUsername \<noteq> [])"

definition friendCodeShown :: "jstr \<Rightarrow> jstr" where
  "friendCodeShown friendCode = or_str friendCode (js ''--------'')"

section \<open>The second factor\<close>

datatype factor_item =
    FactorSetup
  | FactorSecret jstr bool
  | FactorEnable bool
  | FactorPassword
  | FactorCode
  | FactorDisable bool

text \<open>The flags: whether the QR code is drawn, and whether the button is enabled.\<close>

definition securityItems :: "app_state \<Rightarrow> principal \<Rightarrow> jstr \<Rightarrow> factor_item list" where
  "securityItems c p totpQRCode =
     (if \<not> pr_totpEnabled p
      then [FactorSetup]
        @ (case au_totpSetup c of
             None \<Rightarrow> []
           | Some (secret, url) \<Rightarrow>
               [FactorSecret secret (totpQRCode \<noteq> []), FactorCode, FactorEnable (\<not> length (js_trim (au_totpConfirm c)) < 6)])
      else [FactorPassword, FactorCode,
            FactorDisable (\<not> (length (au_totpDisablePassword c) < 8 \<or> length (js_trim (au_totpDisableCode c)) < 6))])"

section \<open>Notifications\<close>

definition isPushInitialLoading :: "push_panel \<Rightarrow> bool" where
  "isPushInitialLoading p = (pn_loading p \<and> pn_info p = None \<and> pn_subscriptions p = [])"

datatype push_badge = PushOn | PushBlocked | PushOff

definition pushBadge :: "jstr \<Rightarrow> push_panel \<Rightarrow> push_badge" where
  "pushBadge permission p =
     (if currentPushSubscription p \<noteq> None then PushOn else if permission = js ''denied'' then PushBlocked else PushOff)"

definition pushEnabledOnServer :: "push_panel \<Rightarrow> bool" where
  "pushEnabledOnServer p = (case pn_info p of None \<Rightarrow> False | Some info \<Rightarrow> pi_enabled info)"

datatype push_button = PushDisable | PushEnable

text \<open>None when the button is disabled.\<close>

definition pushButton :: "push_panel \<Rightarrow> push_button option" where
  "pushButton p =
     (if \<not> pushEnabledOnServer p \<and> currentPushSubscription p = None then None
      else Some (if currentPushSubscription p \<noteq> None then PushDisable else PushEnable))"

datatype push_switch = SwitchMessages | SwitchChats | SwitchSessions | SwitchFriends

fun switchValue :: "push_switch \<Rightarrow> push_preferences \<Rightarrow> bool" where
  "switchValue SwitchMessages prefs = pp_messages prefs"
| "switchValue SwitchChats prefs = pp_chats prefs"
| "switchValue SwitchSessions prefs = pp_sessions prefs"
| "switchValue SwitchFriends prefs = pp_friends prefs"

fun switchPrefs :: "push_switch \<Rightarrow> bool \<Rightarrow> push_preferences \<Rightarrow> push_preferences" where
  "switchPrefs SwitchMessages v prefs = prefs\<lparr>pp_messages := v\<rparr>"
| "switchPrefs SwitchChats v prefs = prefs\<lparr>pp_chats := v\<rparr>"
| "switchPrefs SwitchSessions v prefs = prefs\<lparr>pp_sessions := v\<rparr>"
| "switchPrefs SwitchFriends v prefs = prefs\<lparr>pp_friends := v\<rparr>"

definition toggleSwitch ::
  "push_env \<Rightarrow> jstr \<Rightarrow> push_switch \<Rightarrow> bool \<Rightarrow> push_subscription result \<Rightarrow> push_panel \<Rightarrow> push_panel \<times> api_call list" where
  "toggleSwitch env token sw checked answer p =
     updatePushPrefs env token (switchPrefs sw checked (pn_prefs p)) answer p"

section \<open>Sessions\<close>

text \<open>\<open>replaceAll\<close> with a string pattern that is not empty.\<close>

function js_replace_all :: "jstr \<Rightarrow> jstr \<Rightarrow> jstr \<Rightarrow> jstr" where
  "js_replace_all a b [] = []"
| "js_replace_all a b (c # cs) =
     (if a \<noteq> [] \<and> js_starts a (c # cs) then b @ js_replace_all a b (drop (length a) (c # cs))
      else c # js_replace_all a b cs)"
  by pat_completeness auto

termination
  by (relation "measure (\<lambda>(a, b, s). length s)") (auto simp: diff_Suc split: nat.split)

text \<open>Code units 1042, 183 and 194 are the letters a middle dot turns into when its encoding is misread.\<close>

definition cleanSessionText :: "jstr option \<Rightarrow> jstr" where
  "cleanSessionText value =
     js_trim (js_replace_all [194, 183] (js ''-'')
       (js_replace_all [32, 183, 32] (js '' - '')
         (js_replace_all [32, 1042, 183, 32] (js '' - '') (or_opt value []))))"

record session_row =
  sr_device :: "jstr option"
  sr_location :: "jstr option"
  sr_current :: bool

text \<open>None stands for the words of an unnamed device and of an unknown place; the row of the current
  session says logout, the others revoke.\<close>

definition sessionRow :: "account_session \<Rightarrow> session_row" where
  "sessionRow item =
     \<lparr>sr_device = nonempty (cleanSessionText (ac_deviceName item)),
      sr_location = nonempty (cleanSessionText (ac_location item)),
      sr_current = nullish (ac_current item) False\<rparr>"

section \<open>The display name\<close>

record account_ui =
  an_displayName :: jstr
  an_failed :: bool

definition accountMounted :: "principal \<Rightarrow> account_ui" where
  "accountMounted p = \<lparr>an_displayName = pr_displayName p, an_failed = False\<rparr>"

definition hasChanged :: "principal \<Rightarrow> account_ui \<Rightarrow> bool" where
  "hasChanged p u = (js_trim (an_displayName u) \<noteq> pr_displayName p)"

definition saveNameEnabled :: "principal \<Rightarrow> account_ui \<Rightarrow> bool" where
  "saveNameEnabled p u = (hasChanged p u \<and> js_trim (an_displayName u) \<noteq> [])"

text \<open>The two requests of \<open>displayNameMutation\<close>, the second made when the first succeeded.\<close>

definition renameCalls :: "auth_session \<Rightarrow> identity \<Rightarrow> jstr \<Rightarrow> principal result \<Rightarrow> api_call list" where
  "renameCalls a i name answer1 =
     CallUpdateDisplayName (as_accessToken a) name
     # (case answer1 of
          Inl _ \<Rightarrow> []
        | Inr _ \<Rightarrow> [CallUpsertIdentity (as_accessToken a) (iy_userId i) name (iy_identityPublicKey i)])"

definition renameDone ::
  "app_state \<Rightarrow> principal result \<Rightarrow> identity result \<Rightarrow> account_ui \<Rightarrow> app_state \<Rightarrow> account_ui \<times> app_state" where
  "renameDone c answer1 answer2 u s =
     (case (answer1, answer2) of
        (Inr p, Inr _) \<Rightarrow> (u\<lparr>an_failed := False\<rparr>, updateSessionPrincipal c p s)
      | _ \<Rightarrow> (u\<lparr>an_failed := True\<rparr>, s))"

definition ownInitial :: "(jstr \<Rightarrow> jstr) \<Rightarrow> principal \<Rightarrow> identity \<Rightarrow> jstr" where
  "ownInitial upper p i = upper (take 1 (or_str (pr_displayName p) (iy_displayName i)))"

definition shownName :: "principal \<Rightarrow> identity \<Rightarrow> jstr" where
  "shownName p i = or_str (pr_displayName p) (iy_displayName i)"

section \<open>Every button shown does something\<close>

lemma contactClick_cases:
  assumes "au_session c = Some a" "au_identity c = Some i" "b \<in> set (contactButtons (nv_room c) activeRoom f)"
  shows "\<exists>fx. contactClick c isMobile f secret b = Inr fx \<and> fx \<noteq> []"
  using assms
  by (auto simp: contactClick_def contactButtons_def respondFriendCall_def with_token_def inviteFriendCall_def
      openDirectChatBegin_def selectRoom_def Let_def split: if_splits option.splits contact_button.splits)

text \<open>C15. No button of the contacts is dead: accepting and refusing are offered for the requests received
  and only for them, and answer them; a chat is offered for contacts only; and the invitation
  names the open chat.  When the list of rooms holds the open chat, it is offered for exactly the
  contacts who are not members; until the list holds it, the members cannot be told from the others, and
  every contact, members included, has the button.  No button meets a guard that refuses it.\<close>

theorem contact_buttons_work:
  assumes "au_session c = Some a" "au_identity c = Some i"
  shows "let buttons = set (contactButtons (nv_room c) (activeRoomData c) f)
    in (\<forall>b\<in>buttons. \<exists>fx. contactClick c isMobile f secret b = Inr fx \<and> fx \<noteq> [])
    \<and> (\<forall>b\<in>{ButtonAccept, ButtonRefuse}. (b \<in> buttons \<longleftrightarrow> fr_status f = Pending \<and> fr_direction f = Incoming)
        \<and> (b \<in> buttons \<longrightarrow> contactClick c isMobile f secret b
            = Inr [AxApi (CallRespondFriend (as_accessToken a) (fr_userId f) (b = ButtonAccept))]))
    \<and> (ButtonChat \<in> buttons \<longleftrightarrow> fr_status f = Accepted)
    \<and> (activeRoomData c = Some r \<longrightarrow> ro_roomId r = nv_room c
        \<and> (ButtonInvite \<in> buttons \<longleftrightarrow> fr_status f = Accepted \<and> nv_room c \<noteq> [] \<and> fr_userId f \<notin> set (ro_members r)))
    \<and> (activeRoomData c = None \<longrightarrow> (ButtonInvite \<in> buttons \<longleftrightarrow> fr_status f = Accepted \<and> nv_room c \<noteq> []))
    \<and> (ButtonInvite \<in> buttons \<longrightarrow> contactClick c isMobile f secret ButtonInvite
            = Inr [AxApi (CallInviteFriendToRoom (as_accessToken a) (nv_room c) (fr_userId f))])"
proof -
  have answers: "(b \<in> set (contactButtons (nv_room c) (activeRoomData c) f) \<longleftrightarrow> fr_status f = Pending \<and> fr_direction f = Incoming)
        \<and> (b \<in> set (contactButtons (nv_room c) (activeRoomData c) f) \<longrightarrow> contactClick c isMobile f secret b
            = Inr [AxApi (CallRespondFriend (as_accessToken a) (fr_userId f) (b = ButtonAccept))])"
    if "b \<in> {ButtonAccept, ButtonRefuse}" for b
    using that assms(1) by (auto simp: contactButtons_def contactClick_def respondFriendCall_def with_token_def)
  have found: "activeRoomData c = Some r \<Longrightarrow> ro_roomId r = nv_room c"
    by (auto simp: activeRoomData_def find_Some_iff)
  have invited: "ButtonInvite \<in> set (contactButtons (nv_room c) (activeRoomData c) f) \<longrightarrow> contactClick c isMobile f secret ButtonInvite
            = Inr [AxApi (CallInviteFriendToRoom (as_accessToken a) (nv_room c) (fr_userId f))]"
    using assms by (auto simp: contactButtons_def contactClick_def inviteFriendCall_def with_token_def)
  show ?thesis
    unfolding Let_def
    using contactClick_cases[OF assms, of _ "activeRoomData c" f isMobile secret] answers found invited
    by (intro conjI ballI impI) (auto simp: contactButtons_def)
qed

text \<open>The buttons of the second factor are enabled only for what their requests can carry, a code of
  at least six and a password of at least eight characters, and they carry it without the blanks
  around the code; when the server confirms, the panel changes to the other form, and the code that was used is
  cleared.\<close>

theorem second_factor_panel:
  assumes "au_session c = Some a"
  shows "(FactorEnable True \<in> set (securityItems c (as_principal a) qr) \<longrightarrow>
       \<not> pr_totpEnabled (as_principal a)
       \<and> (\<exists>code. confirmTOTPCall c = Inr (CallConfirmTOTP (as_accessToken a) code) \<and> 6 \<le> length code
             \<and> code = js_trim (au_totpConfirm c)))
    \<and> (FactorDisable True \<in> set (securityItems c (as_principal a) qr) \<longrightarrow>
       pr_totpEnabled (as_principal a)
       \<and> (\<exists>pw code. disableTOTPCall c = Inr (CallDisableTOTP (as_accessToken a) pw code) \<and> 8 \<le> length pw \<and> 6 \<le> length code))
    \<and> (let s' = fst (confirmTOTPSuccess c p s); p' = as_principal (the (au_session s'))
       in pr_totpEnabled p \<longrightarrow> au_totpConfirm s' = []
          \<and> map (\<lambda>x. case x of FactorDisable _ \<Rightarrow> FactorDisable False | y \<Rightarrow> y) (securityItems s' p' qr)
             = [FactorPassword, FactorCode, FactorDisable False])
    \<and> (let s' = fst (disableTOTPSuccess c p s); p' = as_principal (the (au_session s'))
       in \<not> pr_totpEnabled p \<longrightarrow> FactorSetup \<in> set (securityItems s' p' qr) \<and> au_totpDisablePassword s' = [])"
proof -
  have u: "as_principal (the (au_session (updateSessionPrincipal c p s))) = p"
    using assms by (simp add: updateSessionPrincipal_def)
  have e: "\<not> pr_totpEnabled (as_principal a) \<and> 6 \<le> length (js_trim (au_totpConfirm c))"
    if "FactorEnable True \<in> set (securityItems c (as_principal a) qr)"
    using that by (auto simp: securityItems_def split: if_splits option.splits)
  have d: "pr_totpEnabled (as_principal a) \<and> 8 \<le> length (au_totpDisablePassword c) \<and> 6 \<le> length (js_trim (au_totpDisableCode c))"
    if "FactorDisable True \<in> set (securityItems c (as_principal a) qr)"
    using that by (auto simp: securityItems_def split: if_splits option.splits)
  show ?thesis
  proof (intro conjI impI)
    show "let s' = fst (confirmTOTPSuccess c p s); p' = as_principal (the (au_session s'))
       in pr_totpEnabled p \<longrightarrow> au_totpConfirm s' = []
          \<and> map (\<lambda>x. case x of FactorDisable _ \<Rightarrow> FactorDisable False | y \<Rightarrow> y) (securityItems s' p' qr)
             = [FactorPassword, FactorCode, FactorDisable False]"
      using u by (simp add: confirmTOTPSuccess_def securityItems_def Let_def)
    show "let s' = fst (disableTOTPSuccess c p s); p' = as_principal (the (au_session s'))
       in \<not> pr_totpEnabled p \<longrightarrow> FactorSetup \<in> set (securityItems s' p' qr) \<and> au_totpDisablePassword s' = []"
      using u by (simp add: disableTOTPSuccess_def securityItems_def Let_def)
  qed (use e d assms in \<open>auto simp: confirmTOTPCall_def disableTOTPCall_def with_token_def\<close>)
qed

text \<open>The contacts wait for the picture of the code: when drawing it fails, or its library cannot be
  loaded, the panel shows placeholders for good, whatever contacts were loaded, and neither they
  nor the requests received can be reached.\<close>

theorem qr_failure_hides_contacts:
  assumes "friendCode \<noteq> []"
  shows "contactQRBegin friendCode [] = ([], True)
    \<and> contactsBody SecFriends loading friendList friendCode (contactQRDone cancelled None []) = None
    \<and> (url \<noteq> [] \<longrightarrow> contactsBody SecFriends False friendList friendCode (contactQRDone False (Some url) []) = Some friendList)"
  using assms by (simp add: contactQRBegin_def contactQRDone_def contactsBody_def isContactsInitialLoading_def)

theorem qr_failure_hides_contacts_witness:
  "contactsBody SecFriends False [] (js ''12345678'') (contactQRDone False None []) = None"
  using qr_failure_hides_contacts[of "js ''12345678''"] by simp

section \<open>A changed name\<close>

text \<open>C17. A user who changes the display name goes on writing under the old one: the panel and the
  session show the new name, but the identity \<open>MessengerApp\<close> keeps is not replaced, and messages,
  and the note of leaving, are signed with its name until the account is loaded again.\<close>

theorem renamed_user_signs_old_name:
  assumes "au_session c = Some a" "au_identity s = Some i"
    and "renameDone c (Inr p) (Inr j) u s = (u', s')"
    and "ev_identity env = au_identity s'" "sendSecondCall env d uploaded = Inr call"
  shows "map_option as_principal (au_session s') = Some p \<and> \<not> an_failed u'
    \<and> (\<exists>pl b. posted_payload call = Some pl \<and> readable_as pl b \<and> pm_senderName b = iy_displayName i)
    \<and> (sendSystemMessage tr s' now room = Inr (Some note) \<longrightarrow>
        (\<exists>pl b. posted_payload note = Some pl \<and> readable_as pl b \<and> pm_senderName b = iy_displayName i))"
proof -
  have s': "s' = s\<lparr>au_session := Some (a\<lparr>as_principal := p\<rparr>)\<rparr>" "u' = u\<lparr>an_failed := False\<rparr>"
    using assms(1,3) by (simp_all add: renameDone_def updateSessionPrincipal_def)
  then have i: "ev_identity env = Some i" using assms(2,4) by simp
  have signed: "\<exists>pl b. posted_payload msg = Some pl \<and> readable_as pl b \<and> pm_senderName b = iy_displayName i"
    if "encodePlainMessage b = Inr pl" "msg = CallSendEncryptedMessage t r v pl" "pm_senderName b = iy_displayName i"
    for msg t r v pl b
    using that encoded_is_readable[OF that(1)] by (auto simp: posted_payload_def)
  from assms(5) i obtain t pl where "encodePlainMessage (sent_plain env i d uploaded) = Inr pl"
    "call = CallSendEncryptedMessage t (df_roomId d) (iy_userId i) pl"
    by (auto simp: sendSecondCall_def bindR_eq_Inr split: option.splits)
  from signed[OF this] have "\<exists>pl b. posted_payload call = Some pl \<and> readable_as pl b \<and> pm_senderName b = iy_displayName i"
    by (simp add: sent_plain_def)
  moreover have "\<exists>pl b. posted_payload note = Some pl \<and> readable_as pl b \<and> pm_senderName b = iy_displayName i"
    if "sendSystemMessage tr s' now room = Inr (Some note)"
  proof -
    define b where "b = \<lparr>pm_text = [], pm_senderName = iy_displayName i, pm_senderAvatarUrl = pr_avatarUrl p,
       pm_sentAt = now, pm_replyTo = None, pm_system = Some (Leave (iy_displayName i @ js '' '' @ tr (js ''systemLeft''))),
       pm_attachment = None\<rparr>"
    from that assms(2) s' obtain pl where "encodePlainMessage b = Inr pl"
      "note = CallSendEncryptedMessage (as_accessToken a) room (iy_userId i) pl"
      by (auto simp: sendSystemMessage_def bindR_eq_Inr b_def split: if_splits)
    from signed[OF this] show ?thesis by (simp add: b_def)
  qed
  ultimately show ?thesis by (simp add: s')
qed

text \<open>A change of the name that fails says so and changes nothing here, whichever request failed: also
  when the first one has already renamed the account on the server, and when the server refused
  it because the session expired.\<close>

lemma failed_rename_changes_nothing:
  assumes "renameDone c answer1 answer2 u s = (u', s')" "isl answer1 \<or> isl answer2"
  shows "s' = s \<and> an_failed u' \<and> an_displayName u' = an_displayName u
    \<and> (isl answer1 \<longrightarrow> renameCalls a i name answer1 = [CallUpdateDisplayName (as_accessToken a) name])"
  using assms by (cases answer1; cases answer2) (auto simp: renameDone_def renameCalls_def)

definition renamed :: principal where
  "renamed = (as_principal sample_session)\<lparr>pr_displayName := js ''Bea''\<rparr>"

definition named_app :: app_state where
  "named_app = blank_app\<lparr>au_session := Some sample_session, au_identity := Some sample_identity\<rparr>"

theorem renamed_user_signs_old_name_witness:
  "\<exists>call pl b. sendSecondCall (sample_env (js ''r'') None) (sample_draft None) None = Inr call
    \<and> au_identity (snd (renameDone named_app (Inr renamed) (Inr sample_identity) (accountMounted renamed) named_app)) = Some sample_identity
    \<and> posted_payload call = Some pl \<and> readable_as pl b \<and> pm_senderName b = js ''Ann''"
proof -
  obtain p where p: "sendSecondCall (sample_env (js ''r'') None) (sample_draft None) None
      = Inr (CallSendEncryptedMessage (js ''tok'') (js ''r'') (js ''u'') p)"
    using sample_sent by blast
  define r where "r = renameDone named_app (Inr renamed) (Inr sample_identity) (accountMounted renamed) named_app"
  have au: "au_session named_app = Some sample_session" "au_identity named_app = Some sample_identity"
    by (simp_all add: named_app_def)
  have r: "renameDone named_app (Inr renamed) (Inr sample_identity) (accountMounted renamed) named_app = (fst r, snd r)"
    by (simp add: r_def)
  have i: "au_identity (snd r) = Some sample_identity"
    by (simp add: r_def renameDone_def updateSessionPrincipal_def named_app_def)
  then have "ev_identity (sample_env (js ''r'') None) = au_identity (snd r)" by (simp add: sample_env_def)
  from renamed_user_signs_old_name[OF au r this p] p i show ?thesis
    unfolding r_def[symmetric] by (auto simp: sample_identity_def)
qed

definition sample_friend :: friend where
  "sample_friend = \<lparr>fr_userId = js ''f'', fr_displayName = js ''Flo'', fr_status = Accepted, fr_direction = Incoming,
     fr_createdAt = js ''1''\<rparr>"

definition chat_with :: "jstr list \<Rightarrow> room" where
  "chat_with members = \<lparr>ro_roomId = js ''r'', ro_name = js ''R'', ro_members = members, ro_memberProfiles = None,
     ro_roomSecret = None, ro_lastMessageAt = None, ro_unreadCount = None, ro_createdAt = js ''1''\<rparr>"

definition chatting :: "room list option \<Rightarrow> app_state" where
  "chatting rooms = named_app\<lparr>nv_room := js ''r'', ap_rooms := rooms\<rparr>"

lemma chatting_sel:
  "au_session (chatting rooms) = Some sample_session" "au_identity (chatting rooms) = Some sample_identity"
  "nv_room (chatting rooms) = js ''r''" "activeRoomData (chatting None) = None"
  "activeRoomData (chatting (Some [chat_with members])) = Some (chat_with members)"
  by (simp_all add: chatting_def named_app_def activeRoomData_def chat_with_def)

theorem contact_buttons_work_witness:
  "let shown = (\<lambda>rooms. set (contactButtons (js ''r'') (activeRoomData (chatting rooms)) sample_friend))
   in ButtonInvite \<in> shown (Some [chat_with [js ''u'']]) \<and> ButtonInvite \<notin> shown (Some [chat_with [js ''u'', js ''f'']])
      \<and> ButtonInvite \<in> shown None
      \<and> contactClick (chatting (Some [chat_with [js ''u'']])) False sample_friend [] ButtonInvite
          = Inr [AxApi (CallInviteFriendToRoom (js ''tok'') (js ''r'') (js ''f''))]"
  using contact_buttons_work[OF chatting_sel(1,2), of "Some [chat_with [js ''u'']]" sample_friend False "[]" "chat_with [js ''u'']"]
    contact_buttons_work[OF chatting_sel(1,2), of "Some [chat_with [js ''u'', js ''f'']]" sample_friend False "[]" "chat_with [js ''u'', js ''f'']"]
    contact_buttons_work[OF chatting_sel(1,2), of None sample_friend]
  unfolding Let_def chatting_sel
  by (simp add: sample_friend_def chat_with_def sample_session_def js_lit)

theorem second_factor_panel_witness:
  "FactorSetup \<in> set (securityItems (fst (disableTOTPSuccess named_app renamed named_app))
     (as_principal (the (au_session (fst (disableTOTPSuccess named_app renamed named_app))))) [])"
  using second_factor_panel[of named_app sample_session "[]" renamed named_app]
  by (simp add: named_app_def Let_def renamed_def sample_session_def)

end
