(* ===== verification/Nav.thy ===== *)
theory Nav
  imports Rooms
begin

text \<open>
  Where the user is: the URL of \<open>components/MessengerApp.tsx\<close> kept in step with the state, the
  state made from the URL when the page loads, and the effects that follow the open chat
  (scrolling to its end or to a highlighted message, forgetting the last chat's messages).
\<close>

section \<open>The URL\<close>

definition leftView :: "bool \<Rightarrow> app_state \<Rightarrow> app_view" where
  "leftView isMobile c = (if isMobile then nv_mobileView c else nv_sidebarView c)"

definition shown_view :: "bool \<Rightarrow> app_state \<Rightarrow> app_view" where
  "shown_view isMobile c =
     (if nv_room c \<noteq> [] \<and> \<not> isMobile then VChat
      else if nv_room c \<noteq> [] then leftView isMobile c
      else if leftView isMobile c = VChat then VRooms else leftView isMobile c)"

text \<open>The path the effect writes; None when the page is not ready or its query holds an invite.\<close>

definition urlSync :: "bool \<Rightarrow> bool \<Rightarrow> app_state \<Rightarrow> jstr option result" where
  "urlSync isMobile hasInvite c =
     (if \<not> nv_urlReady c \<or> hasInvite then Inr None
      else (let view = shown_view isMobile c; inChat = (nv_room c \<noteq> [] \<and> view = VChat)
            in replaceAppURL True \<lparr>ar_view = Some view, ar_roomId = (if inChat then Some (nv_room c) else None),
                 ar_messageId = (if inChat then nonempty (nv_highlighted c) else None)\<rparr>))"

record url_params =
  up_invite :: "jstr option"
  up_chat :: "jstr option"
  up_room :: "jstr option"
  up_message :: "jstr option"
  up_view :: "jstr option"

definition or_option :: "jstr option \<Rightarrow> jstr option \<Rightarrow> jstr option" where
  "or_option a b = (if truthy a then a else b)"

definition linked_view :: "jstr option \<Rightarrow> jstr option \<Rightarrow> app_route \<Rightarrow> app_view" where
  "linked_view rawView linkedChatID route =
     (if truthy rawView then appViewFromParam rawView
      else nullish (ar_view route) (if truthy linkedChatID then VChat else VRooms))"

text \<open>The effect of the first render.  A path that does not decode raises before anything is done.\<close>

definition urlInit :: "jstr \<Rightarrow> url_params \<Rightarrow> app_state \<Rightarrow> (app_state \<times> app_effect list) result" where
  "urlInit pathname q s =
     bindR (appRouteFromPath pathname) (\<lambda>route.
       let linkedChatID = or_option (up_chat q) (or_option (up_room q) (ar_roomId route));
           linkedMessageID = or_option (up_message q) (ar_messageId route);
           view = linked_view (up_view q) linkedChatID route;
           s1 = (if truthy (up_invite q)
                 then s\<lparr>nv_inviteText := the (up_invite q), nv_mobileView := VRooms, nv_sidebarView := VRooms\<rparr>
                 else if truthy linkedChatID
                 then s\<lparr>nv_room := the linkedChatID, nv_mobileView := view,
                        nv_sidebarView := (if view = VChat then VRooms else view)\<rparr>
                 else s\<lparr>nv_mobileView := view, nv_sidebarView := view\<rparr>);
           s2 = (if truthy linkedMessageID then s1\<lparr>nv_highlighted := the linkedMessageID\<rparr> else s1)
       in Inr (s2\<lparr>nv_urlReady := True\<rparr>, [AxApi CallRefreshSession]))"

section \<open>Following the open chat\<close>

text \<open>The effect that forgets the last chat's messages; \<open>prev\<close> is the ref of the last room.\<close>

definition roomChanged :: "app_state \<Rightarrow> jstr \<Rightarrow> app_state \<Rightarrow> jstr \<times> app_state" where
  "roomChanged c prev s =
     (if prev = nv_room c then (prev, s)
      else (nv_room c, s\<lparr>ap_msgs := (ap_msgs s)\<lparr>ms_live := [], ms_pending := []\<rparr>\<rparr>))"

text \<open>Scrolling to the end of a chat once: the new value of the ref and whether to scroll.\<close>

definition scrollOnOpen :: "app_state \<Rightarrow> bool \<Rightarrow> nat \<Rightarrow> jstr \<Rightarrow> jstr \<times> bool" where
  "scrollOnOpen c hasViewport shown ref =
     (let ref1 = (if nv_room c = [] \<or> ref \<noteq> nv_room c then [] else ref)
      in if \<not> hasViewport \<or> nv_room c = [] \<or> nv_highlighted c \<noteq> [] \<or> shown = 0 \<or> ref1 = nv_room c then (ref1, False)
         else (nv_room c, True))"

text \<open>Looking for the highlighted message's element, at most twenty-one times fifty milliseconds
  apart; \<open>there k\<close> says whether it is there at the k-th look.\<close>

function tryScroll :: "(nat \<Rightarrow> bool) \<Rightarrow> nat \<Rightarrow> nat option" where
  "tryScroll there attempts =
     (if there attempts then Some attempts else if attempts < 20 then tryScroll there (attempts + 1) else None)"
  by pat_completeness auto

termination by (relation "measure (\<lambda>(p, k). 20 - k)") auto

declare tryScroll.simps [simp del]

definition highlightTimeout :: "jstr \<Rightarrow> app_state \<Rightarrow> app_state" where
  "highlightTimeout msgId s = (if nv_highlighted s = msgId then s\<lparr>nv_highlighted := []\<rparr> else s)"

section \<open>What the URL promises\<close>

lemma look_shift:
  assumes "\<not> there k"
  shows "k \<le> j \<and> j \<le> 20 \<and> there j \<and> (\<forall>i. k \<le> i \<and> i < j \<longrightarrow> \<not> there i) \<longleftrightarrow>
    Suc k \<le> j \<and> j \<le> 20 \<and> there j \<and> (\<forall>i. Suc k \<le> i \<and> i < j \<longrightarrow> \<not> there i)"
proof -
  have "k \<le> i \<and> there i \<longleftrightarrow> Suc k \<le> i \<and> there i" for i
    using assms by (cases "i = k") auto
  then show ?thesis by blast
qed

lemma tryScroll_look:
  "k \<le> 20 \<Longrightarrow> tryScroll there k = Some j \<longleftrightarrow> k \<le> j \<and> j \<le> 20 \<and> there j \<and> (\<forall>i. k \<le> i \<and> i < j \<longrightarrow> \<not> there i)"
proof (induction "20 - k" arbitrary: k)
  case 0
  then have "k = 20" by simp
  then show ?case by (subst tryScroll.simps) auto
next
  case (Suc n)
  then have k: "k < 20" by simp
  show ?case
  proof (cases "there k")
    case True
    then have "tryScroll there k = Some k" by (subst tryScroll.simps) simp
    then show ?thesis using True k by (auto intro: le_neq_implies_less)
  next
    case False
    then have "tryScroll there k = tryScroll there (Suc k)" using k by (subst tryScroll.simps) simp
    moreover have "n = 20 - Suc k" "Suc k \<le> 20" using Suc.hyps(2) k by simp_all
    ultimately show ?thesis using Suc.hyps(1) [of "Suc k"] look_shift [of there k j] False by simp
  qed
qed

text \<open>The highlighted message is scrolled to at the first look, among the first twenty-one, at which
  its element is there, and given up otherwise.\<close>

theorem scroll_first_look:
  "tryScroll there 0 = Some j \<longleftrightarrow> j \<le> 20 \<and> there j \<and> (\<forall>i < j. \<not> there i)"
  using tryScroll_look [of 0 there j] by simp

theorem scroll_first_look_witness: "tryScroll (\<lambda>k. 3 \<le> k) 0 = Some 3"
  using scroll_first_look [of "\<lambda>k. 3 \<le> k" 3] by simp

definition no_params :: url_params where
  "no_params = \<lparr>up_invite = None, up_chat = None, up_room = None, up_message = None, up_view = None\<rparr>"

lemma sync_no_room:
  "nv_urlReady s \<Longrightarrow> nv_room s = [] \<Longrightarrow> leftView mobile s \<in> {VRooms, VChat} \<Longrightarrow>
   urlSync mobile False s = Inr (Some (js ''/chats''))"
  by (auto simp: urlSync_def shown_view_def replaceAppURL_def buildAppPath_def resolve_literals Let_def)

text \<open>C36. The address written for an open chat, with or without a highlighted message, opens that chat at
  the next load; but restoring the session, which every load of a logged-in user does next, closes
  the chat, forgets the message and rewrites the address to the list of chats.  The handler that
  restores is the first render's, for which no screen is a phone: on a phone the view stays on the
  chat, of which nothing is left.  (The ids \<open>.\<close> and \<open>..\<close> do not even open the chat.)\<close>

theorem reload_loses_chat:
  assumes "nv_urlReady c" "nv_room c \<noteq> []" "shown_view mobile c = VChat" "well_formed (nv_room c)" "well_formed (nv_highlighted c)"
    and "\<not> dot_segment (nv_room c)" "\<not> dot_segment (nv_highlighted c)"
  shows "\<exists>p s1 fx. urlSync mobile False c = Inr (Some p) \<and> urlInit p no_params blank_app = Inr (s1, fx)
     \<and> nv_room s1 = nv_room c \<and> nv_highlighted s1 = nv_highlighted c \<and> leftView True s1 = VChat
     \<and> (let s2 = fst (restoreDone False (Inr a) s1)
        in au_session s2 = Some a \<and> nv_room s2 = [] \<and> nv_highlighted s2 = []
           \<and> nv_sidebarView s2 = VRooms \<and> nv_mobileView s2 = VChat
           \<and> urlSync mobile False s2 = Inr (Some (js ''/chats'')))"
proof -
  let ?r = "\<lparr>ar_view = Some VChat, ar_roomId = Some (nv_room c), ar_messageId = nonempty (nv_highlighted c)\<rparr>"
  obtain p where p: "replaceAppURL True ?r = Inr (Some p)" "appRouteFromPath p = Inr ?r"
    using path_back [OF assms(2,4-7) refl] by blast
  have sync: "urlSync mobile False c = Inr (Some p)"
    using assms(1-3) p(1) by (simp add: urlSync_def Let_def)
  obtain s1 fx where init: "urlInit p no_params blank_app = Inr (s1, fx)" "nv_room s1 = nv_room c"
    "nv_highlighted s1 = nv_highlighted c" "nv_mobileView s1 = VChat" "nv_sidebarView s1 = VRooms" "nv_urlReady s1"
    using p(2) assms(2)
    by (cases "nv_highlighted c = []")
      (auto simp: urlInit_def no_params_def or_option_def linked_view_def nonempty_def Let_def blank_app_def)
  let ?s2 = "fst (restoreDone False (Inr a) s1)"
  have r: "au_session ?s2 = Some a" "nv_room ?s2 = []" "nv_highlighted ?s2 = []" "nv_sidebarView ?s2 = VRooms"
    "nv_mobileView ?s2 = VChat" "nv_urlReady ?s2"
    using init(4,5,6) by (auto simp: restoreDone_def saveSession_def loadAccountLocalState_def reset_chat_def Let_def)
  have "urlSync mobile False ?s2 = Inr (Some (js ''/chats''))"
    using r by (intro sync_no_room) (auto simp: leftView_def)
  then show ?thesis using sync init r unfolding Let_def by (auto simp: leftView_def)
qed

theorem reload_loses_chat_witness:
  "\<exists>p s1 fx. urlSync True False (blank_app\<lparr>nv_urlReady := True, nv_room := js ''r'', nv_mobileView := VChat\<rparr>) = Inr (Some p)
     \<and> urlInit p no_params blank_app = Inr (s1, fx) \<and> nv_room s1 = js ''r''
     \<and> nv_room (fst (restoreDone False (Inr sample_session) s1)) = []
     \<and> nv_mobileView (fst (restoreDone False (Inr sample_session) s1)) = VChat"
  using reload_loses_chat [of "blank_app\<lparr>nv_urlReady := True, nv_room := js ''r'', nv_mobileView := VChat\<rparr>" True sample_session]
  by (auto simp: blank_app_def shown_view_def leftView_def dot_segment_def js_lit high_surrogate_def low_surrogate_def Let_def)

text \<open>A path with a malformed percent escape makes the first effect raise before it does anything: the
  session is not restored, and the page does not become ready to follow the URL.\<close>

theorem malformed_link_blocks_restore:
  "urlInit (js ''/chats/%'') q s = Inl URIError
    \<and> urlSync mobile b (c\<lparr>nv_urlReady := False\<rparr>) = Inr None"
proof -
  have "decodeURIComponent (js ''%'') = Inl URIError" by (simp add: js_lit pct_scalar_def)
  moreover have "decodeURIComponent (js ''chats'') = Inr (js ''chats'')" by (simp add: js_lit)
  moreover have "filter (\<lambda>p. p \<noteq> []) (js_split 47 (js ''/chats/%'')) = [js ''chats'', js ''%'']" by (simp add: js_lit)
  ultimately show ?thesis by (simp add: urlSync_def urlInit_def appRouteFromPath_def)
qed

end
