(* ===== verification/Dialogs.thy ===== *)
theory Dialogs
  imports EndToEnd Shell Nav
begin

text \<open>
  The modals of \<open>components/layout/AppShell.tsx\<close> and the parts of
  \<open>components/chat/ChatView.tsx\<close> around the messages: the dialogs that edit and delete, what a card
  shows and offers, the attachments, the header, the composer, the actions of a chat.  Each is a
  function from the state to what is shown or enabled; the dialogs are run as a state machine
  whose events are the controls on the screen.
\<close>

section \<open>Editing and deleting\<close>

text \<open>What the message menu and the two modals let the user do.\<close>

datatype dialog_event =
    ChooseEdit decrypted_message
  | ChooseDelete decrypted_message
  | TypeEdit jstr
  | CancelEdit
  | CheckEveryone bool
  | CancelDelete

definition editSaveEnabled :: "msg_state \<Rightarrow> bool" where
  "editSaveEnabled st = (js_trim (ms_editText st) \<noteq> [])"

definition closeEditDialog :: "msg_state \<Rightarrow> msg_state" where
  "closeEditDialog st = st\<lparr>ms_editTarget := None\<rparr>"

definition closeDeleteDialog :: "msg_state \<Rightarrow> msg_state" where
  "closeDeleteDialog st = st\<lparr>ms_deleteTarget := None\<rparr>"

text \<open>An event whose control is not on the screen does nothing.\<close>

fun dialog_step :: "identity \<Rightarrow> msg_state \<Rightarrow> dialog_event \<Rightarrow> msg_state" where
  "dialog_step me st (ChooseEdit msg) =
     (if MenuEdit \<in> set (messageMenu 0 (iy_userId me) msg) then openEditMessage msg st else st)"
| "dialog_step me st (ChooseDelete msg) =
     (if MenuDelete \<in> set (messageMenu 0 (iy_userId me) msg) then openDeleteMessage msg st else st)"
| "dialog_step me st (TypeEdit t) = (if ms_editTarget st = None then st else st\<lparr>ms_editText := t\<rparr>)"
| "dialog_step me st CancelEdit = closeEditDialog st"
| "dialog_step me st (CheckEveryone b) =
     (if offersDeleteForEveryone (Some me) (ms_deleteTarget st) then st\<lparr>ms_deleteForEveryone := b\<rparr> else st)"
| "dialog_step me st CancelDelete = closeDeleteDialog st"

definition own_persisted :: "identity \<Rightarrow> decrypted_message \<Rightarrow> bool" where
  "own_persisted me msg = (dm_senderId msg = iy_userId me \<and> isPersistedMessageID (dm_id msg))"

definition dialogs_ok :: "identity \<Rightarrow> msg_state \<Rightarrow> bool" where
  "dialogs_ok me st = (pred_option (\<lambda>m. own_persisted me m \<and> \<not> truthy (dm_deletedAt m)) (ms_editTarget st)
     \<and> (ms_deleteForEveryone st \<longrightarrow> pred_option (own_persisted me) (ms_deleteTarget st)))"

lemma dialog_step_ok: "dialogs_ok me st \<Longrightarrow> dialogs_ok me (dialog_step me st e)"
  by (cases e) (auto simp: dialogs_ok_def own_persisted_def messageMenu_def openEditMessage_def openDeleteMessage_def
      closeEditDialog_def closeDeleteDialog_def offersDeleteForEveryone_def split: option.splits)

interpretation dialogs: step_system "dialog_step me" "dialogs_ok me" for me
  by unfold_locales (rule dialog_step_ok)

section \<open>Message info\<close>

record info_view =
  iv_sender :: jstr
  iv_edited :: "jstr option"
  iv_deleted :: "jstr option"
  iv_views :: "(jstr \<times> jstr) list"

definition messageInfoView :: "jstr \<Rightarrow> (jstr, identity) jmap \<Rightarrow> decrypted_message \<Rightarrow> info_view" where
  "messageInfoView unknownUser byID msg =
     \<lparr>iv_sender = (case dm_body msg of None \<Rightarrow> dm_senderId msg | Some b \<Rightarrow> pm_senderName b),
      iv_edited = (if truthy (dm_editedAt msg) then dm_editedAt msg else None),
      iv_deleted = (if truthy (dm_deletedAt msg) then dm_deletedAt msg else None),
      iv_views = map (\<lambda>r. (nullish (map_option iy_displayName (jm_get byID (rc_userId r))) unknownUser, rc_readAt r))
        (nullish (dm_readReceipts msg) [])\<rparr>"

section \<open>A card\<close>

datatype card_avatar = OwnAvatar | UserAvatar "jstr option"

record message_card =
  mc_bubble :: bool
  mc_own :: bool
  mc_highlighted :: bool
  mc_new :: bool
  mc_avatar :: card_avatar
  mc_name :: jstr
  mc_profile :: "identity option"
  mc_reply :: "jstr option"
  mc_reactions :: bool

text \<open>\<open>mc_profile\<close> is the profile a click on the sender opens, \<open>mc_reply\<close> the message a click on the
  quotation goes to.\<close>

definition messageCard ::
  "identity \<Rightarrow> (jstr, identity) jmap \<Rightarrow> jstr \<Rightarrow> jstr list \<Rightarrow> decrypted_message \<Rightarrow> message_card" where
  "messageCard me byID highlighted newMessageIds msg =
     \<lparr>mc_bubble = (case dm_body msg of None \<Rightarrow> True | Some b \<Rightarrow> pm_system b = None),
      mc_own = (dm_senderId msg = iy_userId me),
      mc_highlighted = (highlighted = dm_id msg),
      mc_new = (dm_id msg \<in> set newMessageIds),
      mc_avatar = (if dm_senderId msg = iy_userId me then OwnAvatar
                   else UserAvatar (Option.bind (dm_body msg) pm_senderAvatarUrl)),
      mc_name = (case dm_body msg of None \<Rightarrow> dm_senderId msg | Some b \<Rightarrow> pm_senderName b),
      mc_profile = jm_get byID (dm_senderId msg),
      mc_reply = Option.bind (Option.bind (dm_body msg) pm_replyTo) (\<lambda>r. nonempty (rr_id r)),
      mc_reactions = (nullish (dm_reactions msg) [] \<noteq> [])\<rparr>"

text \<open>The attachment of a card: its line, and what its preview is once there is one.  A size is not
  negative.\<close>

datatype card_preview = NoPreview | ImagePreview jstr | DownloadLink jstr

definition attachmentLine :: "jstr \<Rightarrow> encrypted_attachment \<Rightarrow> jstr" where
  "attachmentLine fileWord a = or_str (at_type a) fileWord @ js '' '' @ [183] @ js '' '' @ formatBytes (nat (at_size a))"

definition cardPreview :: "(jstr \<Rightarrow> jstr option) \<Rightarrow> decrypted_message \<Rightarrow> card_preview" where
  "cardPreview previews msg =
     (case attachment_of msg of
        None \<Rightarrow> NoPreview
      | Some a \<Rightarrow>
          if \<not> truthy (previews (dm_id msg)) then NoPreview
          else if is_image a then ImagePreview (the (previews (dm_id msg))) else DownloadLink (the (previews (dm_id msg))))"

section \<open>The list of attachments\<close>

record attachment_row =
  aw_name :: jstr
  aw_line :: jstr
  aw_createdAt :: jstr
  aw_preview :: bool

definition attachmentRows :: "jstr \<Rightarrow> jstr \<Rightarrow> decrypted_message list \<Rightarrow> attachment_row list" where
  "attachmentRows fileWord unknownUser msgs =
     List.map_filter (\<lambda>msg. map_option (\<lambda>a.
       \<lparr>aw_name = at_name a,
        aw_line = or_str (at_type a) fileWord @ js '' - '' @ formatBytes (nat (at_size a)) @ js '' - ''
          @ or_opt (map_option pm_senderName (dm_body msg)) unknownUser,
        aw_createdAt = dm_createdAt msg, aw_preview = is_image a\<rparr>) (attachment_of msg)) msgs"

section \<open>Header and composer\<close>

datatype list_view = Placeholders | EmptyList | MessageList

definition messageListView :: "bool \<Rightarrow> decrypted_message list \<Rightarrow> list_view" where
  "messageListView isMessagesLoading visible =
     (if visible \<noteq> [] then MessageList else if isMessagesLoading then Placeholders else EmptyList)"

definition showsChat :: "bool \<Rightarrow> app_view \<Rightarrow> bool" where
  "showsChat isMobile mobileView = (\<not> isMobile \<or> mobileView = VChat)"

text \<open>A badge for each other member: None is the word for online.\<close>

definition peerBadges :: "(jstr, presence_entry) jmap \<Rightarrow> identity list \<Rightarrow> (jstr \<times> jstr option) list" where
  "peerBadges presence peers =
     map (\<lambda>m. (iy_displayName m, profilePresence (jm_get presence (iy_userId m)) m)) peers"

definition typingLine :: "jstr \<Rightarrow> jstr list \<Rightarrow> jstr option" where
  "typingLine typingWord names =
     (if names = [] then None else Some (js_join (js '', '') names @ js '' '' @ typingWord))"

definition mobileSubtitle :: "jstr \<Rightarrow> jstr list \<Rightarrow> jstr \<Rightarrow> jstr" where
  "mobileSubtitle typingWord names peerStatus =
     (case typingLine typingWord names of Some t \<Rightarrow> t | None \<Rightarrow> or_str peerStatus (js '' ''))"

text \<open>The send button is enabled whatever was typed; \<open>submitMessage\<close> tests the text.\<close>

definition sendEnabled :: "jstr \<Rightarrow> bool \<Rightarrow> bool" where
  "sendEnabled activeRoomID isPending = (activeRoomID \<noteq> [] \<and> \<not> isPending)"

definition attachEnabled :: "jstr \<Rightarrow> bool \<Rightarrow> bool" where
  "attachEnabled activeRoomID isPending = (activeRoomID \<noteq> [] \<and> \<not> isPending)"

definition replyBanner :: "decrypted_message \<Rightarrow> jstr \<times> jstr" where
  "replyBanner target =
     ((case dm_body target of None \<Rightarrow> dm_senderId target | Some b \<Rightarrow> pm_senderName b), rr_text (messageReplyPreview target))"

definition fileBadge :: "file_ref \<Rightarrow> jstr" where
  "fileBadge f = fl_name f @ js '' '' @ [183] @ js '' '' @ formatBytes (fl_size f)"

section \<open>Actions of a chat\<close>

datatype chat_action = ActAttachments | ActCall | ActInviteLink | ActChatLink | ActClose | ActInviteFriend friend | ActLeave

text \<open>The actions of the modal that are enabled, in its order; at most four contacts are listed.\<close>

definition invitable :: "room \<Rightarrow> friend list \<Rightarrow> friend list" where
  "invitable r contacts = take 4 (filter (\<lambda>f. fr_userId f \<notin> set (ro_members r)) contacts)"

definition chatActions ::
  "room \<Rightarrow> jstr \<Rightarrow> decrypted_message list \<Rightarrow> jstr \<Rightarrow> jstr \<Rightarrow> friend list \<Rightarrow> bool \<Rightarrow> chat_action list" where
  "chatActions r activeRoomID attachmentMessages inviteLink chatLink contacts leavingRoom =
     (if attachmentMessages \<noteq> [] then [ActAttachments] else [])
     @ (if activeRoomID \<noteq> [] then [ActCall] else [])
     @ (if inviteLink \<noteq> [] then [ActInviteLink] else [])
     @ (if chatLink \<noteq> [] then [ActChatLink] else [])
     @ [ActClose]
     @ map ActInviteFriend (invitable r contacts)
     @ (if leavingRoom then [] else [ActLeave])"

definition importEnabled :: "jstr \<Rightarrow> bool" where
  "importEnabled inviteText = (js_trim inviteText \<noteq> [])"

section \<open>Properties\<close>

text \<open>C4. Users edit, and delete for everyone, their own messages only: whatever they choose, type, check
  and cancel, the request the edit dialog makes is for a message of their own that the server
  holds and that was not deleted when they chose it; the delete dialog asks for a deletion for all
  only when its box is checked, and only of a message of their own that the server holds, the one
  it was opened for.  (That message may be deleted already: the menu offers to delete it again.)\<close>

theorem only_own_messages_change:
  assumes "st = foldl (dialog_step me) st0 events" "ms_editTarget st0 = None" "ms_deleteForEveryone st0 = False"
  shows "(editCall env st = Inr call \<longrightarrow> (\<exists>target token p. ms_editTarget st = Some target \<and> own_persisted me target
            \<and> \<not> truthy (dm_deletedAt target)
            \<and> call = CallUpdateEncryptedMessage token (dm_roomId target) (dm_id target) p))
    \<and> (deleteCall env st = Inr (Some call) \<longrightarrow> ms_deleteForEveryone st \<and> (\<exists>target token. ms_deleteTarget st = Some target \<and> own_persisted me target
            \<and> call = CallDeleteEncryptedMessageForAll token (dm_roomId target) (dm_id target)))"
proof -
  have "dialogs_ok me st"
    unfolding assms(1) using assms(2,3) by (intro dialogs.run_inv) (simp add: dialogs_ok_def)
  then show ?thesis
    by (auto simp: dialogs_ok_def editCall_def deleteCall_def bindR_eq_Inr split: option.splits if_splits)
qed

theorem only_own_messages_change_witness:
  "let st = foldl (dialog_step sample_identity) initial_state [ChooseDelete sample_target, CheckEveryone True]
   in deleteCall (sample_env (js ''r'') None) st
        = Inr (Some (CallDeleteEncryptedMessageForAll (js ''tok'') (js ''r'') (js ''m1'')))
      \<and> own_persisted sample_identity (the (ms_deleteTarget st))"
proof -
  define st where "st = foldl (dialog_step sample_identity) initial_state [ChooseDelete sample_target, CheckEveryone True]"
  have call: "deleteCall (sample_env (js ''r'') None) st
      = Inr (Some (CallDeleteEncryptedMessageForAll (js ''tok'') (js ''r'') (js ''m1'')))"
    by (simp add: st_def deleteCall_def sample_env_def ev_token_def sample_session_def sample_target_def sample_dm_def
        messageMenu_def openDeleteMessage_def offersDeleteForEveryone_def sample_identity_def isPersistedMessageID_def js_starts_def js_lit
        initial_state_def)
  have "ms_editTarget initial_state = None" "ms_deleteForEveryone initial_state = False"
    by (simp_all add: initial_state_def)
  from only_own_messages_change[OF st_def this] call obtain target
    where "ms_deleteTarget st = Some target" "own_persisted sample_identity target" by blast
  with call show ?thesis unfolding Let_def st_def[symmetric] by simp
qed

text \<open>C16. What was written for one chat goes to the next: leaving a chat and opening another keeps the
  text, the file and the message replied to, and the next message sent carries them all into the
  other chat, with a quotation of what was said in the first.  (Closing the first chat removes the
  input, which comes back empty: the text is then sent unseen.)\<close>

theorem draft_follows_to_other_chat:
  assumes "ev_identity env = Some i" "ev_room env = ro_roomId r" "ro_roomId r \<noteq> []"
    and "\<not> ms_sending (ap_msgs s)" "js_trim (ms_text (ap_msgs s)) \<noteq> []" "file_allowed (ms_file (ap_msgs s))"
    and "ms_reply (ap_msgs s) = Some quoted"
  shows "let s1 = fst (selectRoom isMobile r (closeChat s));
      st = resetRoom (ap_msgs (snd (roomChanged s1 prev s1)))
    in \<exists>st' d. submitMessage env uuid now st = (st', [], Some d) \<and> df_roomId d = ro_roomId r
         \<and> df_text d = js_trim (ms_text (ap_msgs s)) \<and> df_file d = ms_file (ap_msgs s)
         \<and> df_replyTo d = Some (messageReplyPreview quoted) \<and> rr_id (messageReplyPreview quoted) = dm_id quoted"
proof -
  define st where "st = resetRoom (ap_msgs (snd (roomChanged (fst (selectRoom isMobile r (closeChat s))) prev
    (fst (selectRoom isMobile r (closeChat s))))))"
  have st: "ms_text st = ms_text (ap_msgs s)" "ms_file st = ms_file (ap_msgs s)" "ms_reply st = Some quoted" "\<not> ms_sending st"
    using assms(4,7) by (simp_all add: st_def resetRoom_def roomChanged_def selectRoom_def closeChat_def Let_def)
  have "\<not> (case ms_file st of None \<Rightarrow> False | Some f \<Rightarrow> MAX_FILE_BYTES < fl_size f)"
    using assms(6) by (auto simp: st file_allowed_def split: option.splits)
  then have "\<exists>st' d. submitMessage env uuid now st = (st', [], Some d) \<and> df_roomId d = ro_roomId r
         \<and> df_text d = js_trim (ms_text (ap_msgs s)) \<and> df_file d = ms_file (ap_msgs s)
         \<and> df_replyTo d = Some (messageReplyPreview quoted)"
    using assms(1-5) st by (simp add: submitMessage_def Let_def)
  then show ?thesis
    unfolding Let_def st_def[symmetric] by (simp add: messageReplyPreview_def Let_def)
qed

definition quoting_app :: app_state where
  "quoting_app = blank_app\<lparr>nv_room := js ''r'', ap_msgs := initial_state\<lparr>ms_text := js ''hi'', ms_reply := Some sample_target\<rparr>\<rparr>"

definition other_room :: room where
  "other_room = \<lparr>ro_roomId = js ''q'', ro_name = js ''Q'', ro_members = [], ro_memberProfiles = None, ro_roomSecret = None,
     ro_lastMessageAt = None, ro_unreadCount = None, ro_createdAt = js ''1''\<rparr>"

theorem draft_follows_to_other_chat_witness:
  "\<exists>st st' d. submitMessage (sample_env (js ''q'') None) (js ''1'') (js ''t'') st = (st', [], Some d) \<and> df_roomId d = js ''q''
     \<and> map_option rr_id (df_replyTo d) = Some (js ''m1'')"
proof -
  have q: "ev_identity (sample_env (js ''q'') None) = Some sample_identity" "ev_room (sample_env (js ''q'') None) = ro_roomId other_room"
    "ro_roomId other_room \<noteq> []" "\<not> ms_sending (ap_msgs quoting_app)" "js_trim (ms_text (ap_msgs quoting_app)) \<noteq> []"
    "file_allowed (ms_file (ap_msgs quoting_app))" "ms_reply (ap_msgs quoting_app) = Some sample_target"
    by (simp_all add: sample_env_def other_room_def quoting_app_def initial_state_def file_allowed_def js_lit js_trim_def js_space_def)
  have n: "dm_id sample_target = js ''m1''" "ro_roomId other_room = js ''q''"
    by (simp_all add: sample_target_def other_room_def)
  from draft_follows_to_other_chat[OF q, of False "js ''r''" "js ''1''" "js ''t''"] n show ?thesis
    unfolding Let_def by fastforce
qed

text \<open>A room that is being renamed when the user opens another gives its name to the other: the field stays
  open with the text typed, and Enter renames the room now open.\<close>

theorem rename_follows_to_other_room:
  assumes "js_trim (rn_text (u\<lparr>rn_text := typed\<rparr>)) \<noteq> []" "rn_renaming u"
  shows "let u1 = (renameStart (ro_name first) u)\<lparr>rn_text := typed\<rparr>; s' = fst (selectRoom isMobile other s)
    in rn_renaming u1 \<and> snd (renameKey token (nv_room s') (js ''Enter'') u1)
         = [CallUpdateRoomName token (ro_roomId other) (js_trim typed)]"
  using assms by (simp add: renameStart_def renameKey_def selectRoom_def Let_def)

theorem rename_follows_to_other_room_witness:
  "let u1 = (renameStart (ro_name other_room) \<lparr>rn_renaming = True, rn_text = []\<rparr>)\<lparr>rn_text := js ''Club''\<rparr>;
      s' = fst (selectRoom False other_room blank_app)
    in rn_renaming u1 \<and> snd (renameKey (js ''tok'') (nv_room s') (js ''Enter'') u1)
         = [CallUpdateRoomName (js ''tok'') (ro_roomId other_room) (js_trim (js ''Club''))]"
  by (rule rename_follows_to_other_room) (simp_all add: js_lit js_trim_def js_space_def)

lemma display_not_deleted:
  "x \<in> set (displayMessages dp uid rid deleted pending decrypted) \<Longrightarrow> dm_id x \<notin> set deleted"
  using display_put.collected_subset
  by (fastforce simp: displayMessages_eq shown_pending_def shown_decrypted_def)

text \<open>A message deleted for oneself leaves the chat but not the list of attachments: its row is still
  there, with its preview and download.\<close>

theorem deleted_attachment_stays_listed:
  assumes "decryptAttachment wc env m = Some d" "m \<in> set encrypted"
  shows "let st1 = deleteLocalSuccess d st; st2 = attachmentsDone wc env encrypted False st1
    in (\<forall>x\<in>set (displayMessages dp uid (ev_room env) (ms_deleted st2) (ms_pending st2) (ms_decrypted st2)). dm_id x \<noteq> dm_id d)
       \<and> (\<exists>row\<in>set (attachmentRows fileWord unknownUser (ms_attachments st2)).
            Some (aw_name row) = map_option at_name (attachment_of d) \<and> aw_createdAt row = dm_createdAt d)"
proof -
  define st2 where "st2 = attachmentsDone wc env encrypted False (deleteLocalSuccess d st)"
  have st2: "ms_attachments st2 = List.map_filter (decryptAttachment wc env) encrypted" "dm_id d \<in> set (ms_deleted st2)"
    by (simp_all add: st2_def attachmentsDone_def deleteLocalSuccess_def)
  have d: "d \<in> set (ms_attachments st2)"
    using assms by (force simp: st2 List.map_filter_def)
  obtain a where a: "attachment_of d = Some a"
    using assms(1) by (auto simp: decryptAttachment_def attachment_of_def decrypted_of_def split: sum.splits if_splits)
  have "\<exists>row\<in>set (attachmentRows fileWord unknownUser (ms_attachments st2)).
      aw_name row = at_name a \<and> aw_createdAt row = dm_createdAt d"
    using d a by (force simp: attachmentRows_def List.map_filter_def)
  then show ?thesis
    unfolding Let_def st2_def[symmetric] using st2(2) display_not_deleted a by fastforce
qed

theorem deleted_attachment_stays_listed_witness:
  "\<exists>m d. decryptAttachment sample_crypto (sample_env (js ''r'') None) m = Some d
    \<and> (\<exists>row\<in>set (attachmentRows [] [] (ms_attachments (attachmentsDone sample_crypto (sample_env (js ''r'') None) [m] False
          (deleteLocalSuccess d initial_state)))). aw_name row = js ''a.txt'')"
proof -
  let ?env = "sample_env (js ''r'') None"
  obtain p where p: "sendSecondCall ?env (sample_draft (Some sample_file)) (Some (js ''f1'', 3))
      = Inr (CallSendEncryptedMessage (js ''tok'') (js ''r'') (js ''u'') p)"
    using sample_sent by blast
  let ?b = "sent_plain ?env sample_identity (sample_draft (Some sample_file)) (Some (js ''f1'', 3))"
  have "encodePlainMessage ?b = Inr p"
    using p by (auto simp: sendSecondCall_def sample_env_def ev_token_def bindR_eq_Inr)
  then have dec: "decode_body sample_crypto (ev_secret ?env) (sample_envelope p) = Inr ?b"
    by (rule decode_of_sent)
      (simp_all add: sample_envelope_def payload_of_def plain_ok_def sent_plain_def sample_draft_def small_int_def
        max_safe_def fl_size_def sample_file_def)
  have at: "map_option at_name (pm_attachment ?b) = Some (js ''a.txt'')"
    by (simp add: sent_plain_def sample_draft_def sample_file_def)
  then have d: "decryptAttachment sample_crypto ?env (sample_envelope p) = Some (decrypted_of (sample_envelope p) (Some ?b) None None)"
    using dec by (auto simp: decryptAttachment_def sample_envelope_def sample_em_def)
  have "attachment_of (decrypted_of (sample_envelope p) (Some ?b) None None) = pm_attachment ?b"
    by (simp add: attachment_of_def decrypted_of_def)
  with deleted_attachment_stays_listed[OF d, of "[sample_envelope p]" initial_state sample_dp None "[]" "[]"] d at
  show ?thesis by (fastforce simp: Let_def)
qed

end
