(* ===== verification/SessionPages.thy ===== *)
theory SessionPages
  imports SessionProps
begin

text \<open>
  The pages the session decides on (\<open>components/MessengerApp.tsx\<close>): restoring, login, loading, the
  application, run as a step relation over the answers that come; and the rest of the hook of
  \<open>hooks/useSession.ts\<close>, compared with the application's session over sequences of events.
\<close>

section \<open>Pages\<close>

datatype page = PageRestoring | PageAuth | PageLoading | PageShell

definition shownPage :: "app_state \<Rightarrow> page" where
  "shownPage s =
     (if \<not> au_bootstrapped s then PageRestoring
      else if au_session s = None then PageAuth
      else if au_identity s = None then PageLoading else PageShell)"

text \<open>The logout button of the two loading pages; the second hands the click to \<open>logoutLocal\<close>, whose
  \<open>remote\<close> is then not false.\<close>

definition pageLogout :: "app_state \<Rightarrow> jstr \<Rightarrow> app_state \<Rightarrow> app_state \<times> app_effect list" where
  "pageLogout c now s =
     (case shownPage c of
        PageRestoring \<Rightarrow> logoutLocal c now False s
      | PageLoading \<Rightarrow> logoutLocal c now True s
      | _ \<Rightarrow> (s, []))"

text \<open>Typing on the login page.\<close>

definition typeUsername :: "jstr \<Rightarrow> app_state \<Rightarrow> app_state" where
  "typeUsername v s = s\<lparr>au_username := v, au_error := Text []\<rparr>"

definition typePassword :: "jstr \<Rightarrow> app_state \<Rightarrow> app_state" where
  "typePassword v s = s\<lparr>au_password := v, au_error := Text []\<rparr>"

definition typeDisplayName :: "jstr \<Rightarrow> app_state \<Rightarrow> app_state" where
  "typeDisplayName v s = s\<lparr>au_displayName := v\<rparr>"

definition typeTotpCode :: "jstr \<Rightarrow> app_state \<Rightarrow> app_state" where
  "typeTotpCode v s = s\<lparr>au_totpCode := v, au_error := Text []\<rparr>"

section \<open>Answers while an account loads\<close>

















text \<open>C34. Logging out while the session is being restored has no effect: nothing is sent to the server,
  the page stays, and when the answer comes the user is logged in.\<close>

theorem logout_while_restoring_is_undone:
  assumes "shownPage s = PageRestoring" "au_identity s = None"
  shows "let (s1, fx) = pageLogout s now s; s2 = fst (restoreDone mob (Inr a) s1)
    in shownPage s1 = PageRestoring \<and> fx = [AxClearQueries]
       \<and> au_session s2 = Some a \<and> shownPage s2 = PageLoading
       \<and> shownPage (fst (identityLoaded pm (Inr i) s2)) = PageShell"
proof -
  have "pageLogout s now s = (fst (pageLogout s now s), [AxClearQueries])" "\<not> au_bootstrapped (fst (pageLogout s now s))"
    using assms by (simp_all add: pageLogout_def logoutLocal_def clearAccountLocalState_def reset_chat_def shownPage_def
        split: if_splits)
  moreover have "au_bootstrapped (fst (restoreDone mob (Inr a) t)) \<and> au_session (fst (restoreDone mob (Inr a) t)) = Some a
      \<and> au_identity (fst (restoreDone mob (Inr a) t)) = None" for t
    by (simp add: restoreDone_def saveSession_def loadAccountLocalState_def reset_chat_def Let_def)
  ultimately show ?thesis
    by (auto simp: shownPage_def identityLoaded_def Let_def split: prod.split)
qed

theorem logout_while_restoring_is_undone_witness:
  "let (s1, fx) = pageLogout blank_app [] blank_app; s2 = fst (restoreDone False (Inr sample_session) s1)
    in shownPage s1 = PageRestoring \<and> fx = [AxClearQueries]
       \<and> au_session s2 = Some sample_session \<and> shownPage s2 = PageLoading
       \<and> shownPage (fst (identityLoaded (\<lambda>_. []) (Inr sample_identity) s2)) = PageShell"
  by (rule logout_while_restoring_is_undone) (simp_all add: shownPage_def blank_app_def)

section \<open>The rest of the session hook\<close>

definition h_saveSession :: "auth_session \<Rightarrow> app_state \<Rightarrow> app_state" where
  "h_saveSession a s = s\<lparr>au_expiredNotified := False, au_session := Some a\<rparr>"

text \<open>The callbacks of the hook's caller are arguments.\<close>

definition h_identityLoaded ::
  "(identity \<Rightarrow> app_state \<Rightarrow> app_state \<times> app_effect list) \<Rightarrow> (app_state \<Rightarrow> app_state \<times> app_effect list) \<Rightarrow>
   (js_error \<Rightarrow> jstr) \<Rightarrow> identity result \<Rightarrow> app_state \<Rightarrow> app_state \<times> app_effect list" where
  "h_identityLoaded onIdentityLoaded onAuthExpired pm res s =
     (case res of
        Inr i \<Rightarrow> onIdentityLoaded i (s\<lparr>au_identity := Some i\<rparr>)
      | Inl err \<Rightarrow> if is_auth_error err then onAuthExpired s
                   else (s, [AxNotify (Key (js ''profileTitle'')) (Text (message_of pm err))]))"

definition h_toggleThemeBegin :: "app_state \<Rightarrow> app_state \<Rightarrow> app_state \<times> app_effect list" where
  "h_toggleThemeBegin c s =
     (let theme = (if au_color c = Dark then Light else Dark)
      in (s\<lparr>au_color := theme\<rparr>,
          case au_session c of None \<Rightarrow> [] | Some a \<Rightarrow> [AxApi (CallUpdateTheme (as_accessToken a) theme)]))"

definition h_toggleThemeDone ::
  "(js_error \<Rightarrow> jstr) \<Rightarrow> principal result \<Rightarrow> app_state \<Rightarrow> app_state \<times> app_effect list" where
  "h_toggleThemeDone pm res s =
     (case res of
        Inr p \<Rightarrow> (h_updateSessionPrincipal p s, [])
      | Inl err \<Rightarrow> (s, [AxNotify (Key (js ''saveLocalThemeFailed'')) (Text (message_of pm err))]))"

definition h_authFailure ::
  "(ws_sys \<Rightarrow> ws_sys) \<Rightarrow> app_state \<Rightarrow> (js_error \<Rightarrow> jstr) \<Rightarrow> js_error \<Rightarrow> app_state \<Rightarrow> app_state \<times> app_effect list" where
  "h_authFailure wsClose c pm err s =
     (if is_auth_error err then h_handleAuthExpired wsClose s
      else (s\<lparr>au_error := (if au_totpRequired c then Key (js ''invalidTwoFactor'') else Text (message_of pm err))\<rparr>, []))"

section \<open>The hook and the application\<close>

datatype session_event =
    Saved auth_session
  | NewPrincipal principal
  | Expired
  | LoginAnswer auth_answer
  | LoginFailed js_error
  | ThemeClicked
  | ThemeAnswer "principal result"
  | LoggedOut

text \<open>Each handler runs in the render of the state it changes.\<close>

fun app_session_step :: "bool \<Rightarrow> (js_error \<Rightarrow> jstr) \<Rightarrow> jstr \<Rightarrow> app_state \<Rightarrow> session_event \<Rightarrow> app_state" where
  "app_session_step mob pm now s (Saved a) = fst (saveSession mob a True s)"
| "app_session_step mob pm now s (NewPrincipal p) = updateSessionPrincipal s p s"
| "app_session_step mob pm now s Expired = fst (handleAuthExpired s)"
| "app_session_step mob pm now s (LoginAnswer answer) = fst (authSuccess s mob answer s)"
| "app_session_step mob pm now s (LoginFailed err) = fst (authFailure s pm err s)"
| "app_session_step mob pm now s ThemeClicked = fst (toggleThemeBegin s s)"
| "app_session_step mob pm now s (ThemeAnswer res) = fst (toggleThemeDone s pm res s)"
| "app_session_step mob pm now s LoggedOut = fst (logoutLocal s now True s)"

fun hook_session_step ::
  "(ws_sys \<Rightarrow> ws_sys) \<Rightarrow> (js_error \<Rightarrow> jstr) \<Rightarrow> app_effect list \<Rightarrow> app_state \<Rightarrow> session_event \<Rightarrow> app_state" where
  "hook_session_step ws pm offline s (Saved a) = h_saveSession a s"
| "hook_session_step ws pm offline s (NewPrincipal p) = h_updateSessionPrincipal p s"
| "hook_session_step ws pm offline s Expired = fst (h_handleAuthExpired ws s)"
| "hook_session_step ws pm offline s (LoginAnswer answer) = fst (h_authSuccess s answer s)"
| "hook_session_step ws pm offline s (LoginFailed err) = fst (h_authFailure ws s pm err s)"
| "hook_session_step ws pm offline s ThemeClicked = fst (h_toggleThemeBegin s s)"
| "hook_session_step ws pm offline s (ThemeAnswer res) = fst (h_toggleThemeDone pm res s)"
| "hook_session_step ws pm offline s LoggedOut = fst (h_logoutLocal ws offline s)"

definition session_view :: "app_state \<Rightarrow> auth_session option \<times> bool \<times> theme" where
  "session_view s = (au_session s, au_expiredNotified s, au_color s)"

lemma session_step_agrees:
  "session_view s = session_view h \<Longrightarrow>
   session_view (app_session_step mob pm now s e) = session_view (hook_session_step ws pm offline h e)"
  by (cases e) (auto simp: session_view_def saveSession_def loadAccountLocalState_def reset_chat_def Let_def
      h_saveSession_def updateSessionPrincipal_def h_updateSessionPrincipal_def handleAuthExpired_def
      h_handleAuthExpired_def clearAccountLocalState_def authSuccess_def h_authSuccess_def authFailure_def
      h_authFailure_def toggleThemeBegin_def h_toggleThemeBegin_def toggleThemeDone_def h_toggleThemeDone_def
      logoutLocal_def h_logoutLocal_def split: auth_answer.split sum.split option.split prod.split)

lemma session_run_agrees:
  "session_view s = session_view h \<Longrightarrow>
   session_view (foldl (app_session_step mob pm now) s es) = session_view (foldl (hook_session_step ws pm offline) h es)"
proof (induction es arbitrary: s h)
  case (Cons e es)
  show ?case
    unfolding foldl_Cons by (rule Cons.IH [OF session_step_agrees [OF Cons.prems]])
qed simp

text \<open>What a late answer may do: in the hook, no answer but that of a login brings a session back.\<close>

fun logs_in :: "session_event \<Rightarrow> bool" where
  "logs_in (Saved _) = True"
| "logs_in (LoginAnswer answer) = (answer \<noteq> Challenge)"
| "logs_in _ = False"

lemma hook_stays_out:
  "\<not> logs_in e \<Longrightarrow> au_session s = None \<Longrightarrow> au_session (hook_session_step ws pm offline s e) = None"
  by (cases e) (auto simp: h_updateSessionPrincipal_def h_handleAuthExpired_def h_authSuccess_def h_authFailure_def
      h_toggleThemeBegin_def h_toggleThemeDone_def h_logoutLocal_def Let_def split: auth_answer.split sum.split)

lemma hook_run_stays_out:
  "list_all (\<lambda>e. \<not> logs_in e) es \<Longrightarrow> au_session s = None \<Longrightarrow>
   au_session (foldl (hook_session_step ws pm offline) s es) = None"
  by (induction es arbitrary: s) (auto simp: hook_stays_out)

text \<open>C35. The session hook and the application are the same session: over every sequence of logins,
  answers, expiries and logouts that run in the current render they have the same session, theme
  and expiry flag.  In the hook no late answer but that of a login ends a logout.\<close>

theorem hook_same_sessions:
  "session_view (foldl (app_session_step mob pm now) s es) = session_view (foldl (hook_session_step ws pm offline) s es)
   \<and> (list_all (\<lambda>e. \<not> logs_in e) after \<longrightarrow>
        au_session (foldl (hook_session_step ws pm offline) (fst (h_logoutLocal ws offline s)) after) = None)"
  by (intro conjI impI session_run_agrees refl hook_run_stays_out) (simp_all add: h_logoutLocal_def)

theorem hook_same_sessions_witness:
  "au_session (foldl (hook_session_step (\<lambda>w. w) (\<lambda>_. []) []) (fst (h_logoutLocal (\<lambda>w. w) [] ann_app))
     [ThemeAnswer (Inr (as_principal sample_session)), Expired]) = None"
  using hook_same_sessions[of False "\<lambda>_. []" "[]" ann_app "[]" "\<lambda>w. w" "[]"
      "[ThemeAnswer (Inr (as_principal sample_session)), Expired]"]
  by simp

end
