(* ===== verification/Spec2Isabelle.thy ===== *)
theory Spec2Isabelle
  imports MessageRaces Markup ChatPaging CallControls Panels Dialogs SessionPages
begin

text \<open>
  Quietline, the TypeScript client (\<open>src/frontend/src\<close>).

  The program.  \<open>components/MessengerApp.tsx\<close> holds the application: session, rooms, the
  connection, presence, calls and the address bar.  \<open>hooks/\<close> holds the messages of the open room
  (\<open>useMessages.ts\<close>) and second versions of parts of the application; \<open>lib/api.ts\<close> is the REST
  client, \<open>lib/crypto.ts\<close> encrypts what is sent, \<open>types/messenger.ts\<close> has the data, invites and
  routes.  \<open>components/chat\<close> and \<open>components/layout\<close> show it all.  A message goes from the composer
  (\<open>Bubbles\<close>) through \<open>MessageState\<close> to \<open>Crypto\<close> and \<open>Api\<close>; it comes back as a page or over the
  socket (\<open>Sockets\<close>, \<open>Realtime\<close>), is merged (\<open>Messages\<close>), decrypted (\<open>MessageState\<close>) and shown
  (\<open>Markup\<close>, \<open>ChatScroll\<close>).

  Theories and sources.
    \<open>Prelude\<close>: JavaScript strings, insertion-ordered maps, stable sorting, errors as values, and the
      interfaces \<open>stable_sorting\<close> and \<open>step_system\<close>.
    \<open>Encoding\<close>, \<open>Json\<close>, \<open>Uri\<close>: UTF-8, base64, JSON and percent encoding, with the interface
      \<open>codec\<close> and its composition \<open>codec_chain\<close>.
    \<open>Crypto\<close>: \<open>lib/crypto.ts\<close>.  \<open>Messenger\<close>: \<open>types/messenger.ts\<close>, with the dot segments a URL resolves.
    \<open>Api\<close>: \<open>lib/api.ts\<close>: every endpoint as the request it builds and the reader of its answer;
      \<open>api_call\<close> names them as one type, \<open>route_of\<close> lists the segments put into its path, and \<open>served_segments\<close> what is
      left of them when \<open>fetch\<close> has resolved the path and the server has decoded and cut it.
    \<open>Messages\<close> (lists), \<open>MessageState\<close> (state and operations), \<open>MessageRaces\<close> (orderings):
      \<open>hooks/useMessages.ts\<close>.
    \<open>Audio\<close>, \<open>Calls\<close>, \<open>CallProps\<close>: sound, calls and their step system, in \<open>MessengerApp.tsx\<close>.
    \<open>Sockets\<close>: the connection.  \<open>Realtime\<close>, \<open>RealtimeProps\<close>: events, typing, presence, and
      \<open>hooks/useWebSocket.ts\<close>.
    \<open>App\<close>, \<open>Session\<close>, \<open>SessionProps\<close>: the application's state, storage, login, expiry, logout,
      profile, \<open>hooks/useSession.ts\<close>, \<open>lib/avatar.ts\<close>; \<open>SessionPages\<close>: the pages it decides on.
    \<open>Rooms\<close>, \<open>RoomProps\<close>: rooms, members, friends, with \<open>hooks/useRooms.ts\<close>, \<open>useIdentity.ts\<close>,
      \<open>useFriends.ts\<close>.  \<open>Nav\<close>: the address and the open chat.
    \<open>Markup\<close>, \<open>ChatScroll\<close>, \<open>Bubbles\<close>: \<open>components/chat/ChatView.tsx\<close>; \<open>ChatPaging\<close> runs
      \<open>ChatScroll\<close> on what the messages hook hands to it.
    \<open>Push\<close>: the notifications panel and the contact scanner of \<open>components/layout/Sidebar.tsx\<close>.
    \<open>Shell\<close>: \<open>AppShell.tsx\<close>, the lists of \<open>Sidebar.tsx\<close>, \<open>AuthPage.tsx\<close>, \<open>lib/i18n.tsx\<close>.
    \<open>Panels\<close>: the rows and panels of \<open>Sidebar.tsx\<close>: chats, contacts, second factor, sessions, name.
    \<open>Dialogs\<close>: the modals of \<open>AppShell.tsx\<close>, and cards, header and composer of \<open>ChatView.tsx\<close>.
    \<open>CallControls\<close>: mute, volume, devices and the panel of a call.
    \<open>EndToEnd\<close>: composes the above: a message, an edit, a deletion and a file from the hook that
      sends to the screen that receives; the server is what it forwards.

  How state is modelled.  React state, refs and the browser's storage are records; a handler is a
  function from the state to the new state and a list of effects (requests, notifications, frames).
  A handler made in one render and run later reads the state of that render: it takes that state
  as an argument (\<open>c\<close>, or a \<open>call_closure\<close>) beside the one it updates, so that stale closures are
  part of the model.  An asynchronous handler is cut at each \<open>await\<close> into a begin and a
  continuation; orderings are sequences of these.  Errors are values of \<open>js_error\<close>; platform
  answers (media, permissions, push) are sums or options.  Dates are \<open>Date.parse\<close> as a parameter,
  None for NaN; sound samples and pixels are rationals; code units and bytes are words.

  What the lemmas show.  Codecs round-trip (\<open>Encoding\<close>, \<open>Json\<close>, \<open>Uri\<close>), hence messages, files,
  invites and routes do.  Lists are ordered, free of duplicates and keep the newest version.  The
  hook's state is well formed after every event, pending bubbles and pages are handled once, one
  page is loaded at a time.  One connection exists at most and follows the room.  Calls refine a
  phase machine, audio connects them, ending one frees microphone and timers.  Expiry leaves the
  account once; the session hook and the application agree on every sequence of events; secrets return to their own account.  Unread counts, of the room list and of the
  open list, count what others wrote.  Paging keeps the reader's place
  while more pages follow, and asks for no other page until the reader has moved away.  Rendering markup loses
  nothing.  The panels report success only with what the server saved.  What one client sends, the
  other shows, and nothing of it is encrypted.  Users change their own messages only.  The mute
  button tells the state of the microphone.  The buttons of a contact are those that work, once the list of rooms is loaded.  Theorems about orderings
  the code does not survive are stated as such; each is a finding.

  Bounds and fuel.  The JSON parser spends fuel: twice the length of the text plus two, shown to be
  enough, and more never changes its answer.  Every other recursion is structural or has a measure.
  Buffers have the code's bounds (200 live messages, 120 letters of a preview, 100 MB files).

  Parameters, with the laws the code relies on as named hypotheses: WebCrypto (\<open>sha256_law\<close>,
  \<open>aes_law\<close>), \<open>Date.parse\<close>, lower case, local dates and times, \<open>Number\<close> of a stored text, the
  calendar, random bytes and clocks.

  Not modelled: the Go server; the JSX that only lays out, focus handling and colours, the two
  dictionaries of texts and \<open>LoadingPage.tsx\<close>; \<open>app/\<close>, which only mounts the application; React
  Query beyond the current value of a query; QR encoding and decoding, canvas drawing and the
  sound device, which are libraries or the platform.
\<close>

end
